(* ===== verification/Prelude.thy ===== *)
theory Prelude
  imports Main "HOL-Library.Word"
begin

text \<open>
  Shared vocabulary of the development: the fixed-width integers of the Rust sources, the
  type aliases of \<^verbatim>\<open>up-transport-vsomeip/src/lib.rs\<close>, results and panics as values, the
  iteration order of a hash set as an explicit choice, and the lemma collections the
  component theories use.

  Conventions. A Rust \<^verbatim>\<open>Result<T, UStatus>\<close> is \<open>ustatus + 'a\<close>, with the abbreviations
  \<open>Ok\<close> and \<open>Err\<close>. The text of a status is the format string of the source, word for word,
  with its placeholders left unexpanded: no branch of the program reads it. A computation
  that can panic returns an \<open>outcome\<close>. Tracing output is not modelled.
\<close>

section \<open>Machine integers and type aliases\<close>

unbundle bit_operations_syntax

type_synonym u8 = "8 word"
type_synonym u16 = "16 word"
type_synonym u32 = "32 word"

type_synonym AuthorityName = string
type_synonym UeId = u32
type_synonym ClientId = u16
type_synonym ApplicationName = string
type_synonym SomeIpRequestId = u32
type_synonym SessionId = u16
type_synonym ServiceId = u16
type_synonym InstanceId = u16
type_synonym MethodId = u16
type_synonym EventId = u16
type_synonym MessageHandlerId = nat

section \<open>Status codes, results, panics\<close>

text \<open>The status codes of uProtocol, all of which the sources name.\<close>

datatype ucode =
    OK | CANCELLED | UNKNOWN | INVALID_ARGUMENT | DEADLINE_EXCEEDED | NOT_FOUND
  | ALREADY_EXISTS | PERMISSION_DENIED | UNAUTHENTICATED | RESOURCE_EXHAUSTED
  | FAILED_PRECONDITION | ABORTED | OUT_OF_RANGE | UNIMPLEMENTED | INTERNAL
  | UNAVAILABLE | DATA_LOSS

datatype ustatus = fail_with_code (status_code: ucode) (status_message: string)

type_synonym 'a result = "ustatus + 'a"

abbreviation Ok :: "'a \<Rightarrow> 'a result" where
  "Ok \<equiv> Inr"

abbreviation Err :: "ustatus \<Rightarrow> 'a result" where
  "Err \<equiv> Inl"

abbreviation is_ok :: "'a result \<Rightarrow> bool" where
  "is_ok r \<equiv> \<not> isl r"

datatype 'a outcome = Returns 'a | Panics

section \<open>The next element of a hash set\<close>

text \<open>
  \<^verbatim>\<open>set.iter().next()\<close> yields some element of a non-empty \<^verbatim>\<open>HashSet\<close> and nothing of an
  empty one; which element it is depends on the hasher's random seed. The choice is an
  argument: every element of the set is the result for some choice, and no choice gives
  anything that is not in the set.
\<close>

definition hash_next :: "nat \<Rightarrow> nat set \<Rightarrow> nat option" where
  "hash_next choice S =
     (if S = {} then None else Some (if choice \<in> S then choice else Min S))"

section \<open>Collections\<close>

named_theorems word_split_simps \<open>joining and splitting of fixed-width words\<close>
named_theorems registry_defs \<open>definitions of the registry operations\<close>
named_theorems conversion_defs \<open>definitions of the message conversions\<close>
named_theorems engine_defs \<open>definitions of the engine operations\<close>

section \<open>Shared lemmas\<close>

lemma hash_next_None [simp]: "hash_next c S = None \<longleftrightarrow> S = {}"
  by (simp add: hash_next_def)

lemma hash_next_in: "finite S \<Longrightarrow> hash_next c S = Some i \<Longrightarrow> i \<in> S"
  by (auto simp: hash_next_def intro: Min_in split: if_splits)

lemma hash_next_choice: "c \<in> S \<Longrightarrow> hash_next c S = Some c"
  by (auto simp: hash_next_def)

lemma hash_next_any:
  assumes "finite S"
  shows "(\<exists>c. hash_next c S = Some i) \<longleftrightarrow> i \<in> S"
  using assms hash_next_in hash_next_choice by blast

lemma result_cases [case_names Err Ok]:
  obtains e where "r = Err e" | v where "r = Ok v"
  by (cases r) auto

lemma is_ok_iff: "is_ok r \<longleftrightarrow> (\<exists>v. r = Ok v)"
  by (cases r) auto

text \<open>High and low half of a 32-bit word, and the word they make.\<close>

lemma and_low_bits:
  "x AND 0xFFFF = take_bit 16 x" "x AND 0xFF = take_bit 8 x" for x :: u32
proof -
  have "(0xFFFF :: u32) = mask 16" "(0xFF :: u32) = mask 8"
    by (simp_all add: mask_eq_decr_exp)
  then show "x AND 0xFFFF = take_bit 16 x" "x AND 0xFF = take_bit 8 x"
    by (simp_all only: take_bit_eq_mask)
qed

lemma low_half_ucast [word_split_simps]: "ucast (x AND 0xFFFF :: u32) = (ucast x :: u16)"
  unfolding and_low_bits by (rule bit_word_eqI) (simp add: bit_simps)

lemma low_byte_ucast [word_split_simps]: "ucast (x AND 0xFF :: u32) = (ucast x :: u8)"
  unfolding and_low_bits by (rule bit_word_eqI) (simp add: bit_simps)

lemma join_halves_high [word_split_simps]:
  "ucast (drop_bit 16 (push_bit 16 (ucast a) OR ucast b :: u32)) = (a :: u16)" for b :: u16
  by (rule bit_word_eqI) (auto simp: bit_simps dest: bit_imp_le_length)

lemma join_halves_low [word_split_simps]:
  "ucast (push_bit 16 (ucast a) OR ucast b :: u32) = (b :: u16)" for a :: u16
  by (rule bit_word_eqI) (auto simp: bit_simps)

lemma split_join_halves [word_split_simps]:
  "push_bit 16 (ucast (ucast (drop_bit 16 x) :: u16)) OR ucast (ucast x :: u16) = (x :: u32)"
  by (rule bit_word_eqI) (auto simp: bit_simps)

lemma map_leD: "m \<subseteq>\<^sub>m m' \<Longrightarrow> m k = Some v \<Longrightarrow> m' k = Some v"
  by (metis domI map_le_def)

end
