(* ===== verification/Up_Rust.thy ===== *)
theory Up_Rust
  imports Prelude
begin

text \<open>
  The part of the \<^verbatim>\<open>up_rust\<close> crate the transport uses. Its message types are data here, with
  the fields the sources read or write; its functions are code of another package, so they
  are the fields of a record \<open>up_rust\<close> which the definitions of the model take as an
  argument \<open>U\<close>. What the transport relies on is stated as predicates on \<open>U\<close>
  (\<open>wildcard_laws\<close>, \<open>parts_law\<close>, \<open>builder_laws\<close>), each the documented behaviour of
  these functions; a theorem that needs one has it as a hypothesis.
\<close>

section \<open>Message types\<close>

text \<open>A UUID is only stored and compared, and so is a listener: \<^verbatim>\<open>ComparableListener\<close>
  compares the identity of the \<^verbatim>\<open>Arc\<close> it wraps.\<close>

datatype uuid = UUID nat

datatype listener = Listener nat

record uuri =
  authority_name :: AuthorityName
  ue_id :: u32
  ue_version_major :: u32
  resource_id :: u32

datatype umessage_type =
    UMESSAGE_TYPE_UNSPECIFIED | UMESSAGE_TYPE_PUBLISH | UMESSAGE_TYPE_REQUEST
  | UMESSAGE_TYPE_RESPONSE | UMESSAGE_TYPE_NOTIFICATION

text \<open>A protobuf enum field: a known value, or a number no value of the enum has.\<close>

datatype 'a enum_or_unknown = Known 'a | Unrecognised int

fun enum_value_or :: "'a enum_or_unknown \<Rightarrow> 'a \<Rightarrow> 'a" where
  "enum_value_or (Known v) d = v"
| "enum_value_or (Unrecognised n) d = d"

record uattributes =
  attr_id :: "uuid option"
  attr_type :: "umessage_type enum_or_unknown"
  attr_source :: "uuri option"
  attr_sink :: "uuri option"
  attr_ttl :: "u32 option"
  attr_reqid :: "uuid option"
  attr_commstatus :: "ucode enum_or_unknown option"

record umessage =
  umsg_attributes :: "uattributes option"
  umsg_payload :: "u8 list option"

section \<open>Functions of the crate\<close>

text \<open>
  The constructors of messages draw a fresh UUID; it is their argument of type \<open>uuid\<close>. They
  are called with the payload format \<^verbatim>\<open>UPAYLOAD_FORMAT_UNSPECIFIED\<close> only. \<open>None\<close> is the
  error result of \<^verbatim>\<open>try_from_parts\<close> and of the builders. \<open>default_attributes\<close> is what an
  unset \<^verbatim>\<open>MessageField\<close> dereferences to.
\<close>

record up_rust =
  has_wildcard_authority :: "uuri \<Rightarrow> bool"
  has_wildcard_entity_type :: "uuri \<Rightarrow> bool"
  has_wildcard_entity_instance :: "uuri \<Rightarrow> bool"
  has_wildcard_version :: "uuri \<Rightarrow> bool"
  has_wildcard_resource_id :: "uuri \<Rightarrow> bool"
  uuri_any :: uuri
  try_from_parts :: "AuthorityName \<Rightarrow> u32 \<Rightarrow> u8 \<Rightarrow> u16 \<Rightarrow> uuri option"
  verify_rpc_response :: "uuri \<Rightarrow> bool"
  validate_attributes :: "uattributes \<Rightarrow> bool"
  default_attributes :: uattributes
  build_request :: "uuri \<Rightarrow> uuri \<Rightarrow> u32 \<Rightarrow> uuid \<Rightarrow> u8 list \<Rightarrow> umessage option"
  build_response :: "uuri \<Rightarrow> uuid \<Rightarrow> uuri \<Rightarrow> ucode \<Rightarrow> uuid \<Rightarrow> u8 list \<Rightarrow> umessage option"
  build_publish :: "uuri \<Rightarrow> uuid \<Rightarrow> u8 list \<Rightarrow> umessage option"

definition attributes_of :: "up_rust \<Rightarrow> umessage \<Rightarrow> uattributes" where
  "attributes_of U m =
     (case umsg_attributes m of Some a \<Rightarrow> a | None \<Rightarrow> default_attributes U)"

section \<open>Documented behaviour\<close>

definition wildcard_laws :: "up_rust \<Rightarrow> bool" where
  "wildcard_laws U \<longleftrightarrow>
     (\<forall>u. has_wildcard_authority U u \<longleftrightarrow> authority_name u = ''*'') \<and>
     (\<forall>u. has_wildcard_entity_type U u \<longleftrightarrow> ue_id u AND 0xFFFF = 0xFFFF) \<and>
     (\<forall>u. has_wildcard_entity_instance U u \<longleftrightarrow> ue_id u AND 0xFFFF0000 = 0xFFFF0000) \<and>
     (\<forall>u. has_wildcard_version U u \<longleftrightarrow> ue_version_major u = 0xFF) \<and>
     (\<forall>u. has_wildcard_resource_id U u \<longleftrightarrow> resource_id u = 0xFFFF) \<and>
     authority_name (uuri_any U) = ''*''"

definition parts_law :: "up_rust \<Rightarrow> bool" where
  "parts_law U \<longleftrightarrow> (\<forall>a e v r u. try_from_parts U a e v r = Some u \<longrightarrow>
     u = \<lparr>authority_name = a, ue_id = e, ue_version_major = ucast v, resource_id = ucast r\<rparr>)"

definition builder_laws :: "up_rust \<Rightarrow> bool" where
  "builder_laws U \<longleftrightarrow>
     (\<forall>sink source ttl i p m. build_request U sink source ttl i p = Some m \<longrightarrow>
        umsg_attributes m = Some \<lparr>attr_id = Some i, attr_type = Known UMESSAGE_TYPE_REQUEST,
          attr_source = Some source, attr_sink = Some sink, attr_ttl = Some ttl,
          attr_reqid = None, attr_commstatus = None\<rparr> \<and> umsg_payload m = Some p) \<and>
     (\<forall>sink q source c i p m. build_response U sink q source c i p = Some m \<longrightarrow>
        umsg_attributes m = Some \<lparr>attr_id = Some i, attr_type = Known UMESSAGE_TYPE_RESPONSE,
          attr_source = Some source, attr_sink = Some sink, attr_ttl = None,
          attr_reqid = Some q, attr_commstatus = Some (Known c)\<rparr> \<and> umsg_payload m = Some p) \<and>
     (\<forall>source i p m. build_publish U source i p = Some m \<longrightarrow>
        umsg_attributes m = Some \<lparr>attr_id = Some i, attr_type = Known UMESSAGE_TYPE_PUBLISH,
          attr_source = Some source, attr_sink = None, attr_ttl = None,
          attr_reqid = None, attr_commstatus = None\<rparr> \<and> umsg_payload m = Some p)"

text \<open>
  One function table that behaves as documented, for closed examples: every URI and every
  message is accepted.
\<close>

definition plain_attributes :: uattributes where
  "plain_attributes = \<lparr>attr_id = None, attr_type = Known UMESSAGE_TYPE_UNSPECIFIED,
     attr_source = None, attr_sink = None, attr_ttl = None, attr_reqid = None,
     attr_commstatus = None\<rparr>"

definition permissive_up_rust :: up_rust where
  "permissive_up_rust = \<lparr>
     has_wildcard_authority = (\<lambda>u. authority_name u = ''*''),
     has_wildcard_entity_type = (\<lambda>u. ue_id u AND 0xFFFF = 0xFFFF),
     has_wildcard_entity_instance = (\<lambda>u. ue_id u AND 0xFFFF0000 = 0xFFFF0000),
     has_wildcard_version = (\<lambda>u. ue_version_major u = 0xFF),
     has_wildcard_resource_id = (\<lambda>u. resource_id u = 0xFFFF),
     uuri_any = \<lparr>authority_name = ''*'', ue_id = 0xFFFFFFFF, ue_version_major = 0xFF,
       resource_id = 0xFFFF\<rparr>,
     try_from_parts = (\<lambda>a e v r. Some \<lparr>authority_name = a, ue_id = e,
       ue_version_major = ucast v, resource_id = ucast r\<rparr>),
     verify_rpc_response = (\<lambda>u. resource_id u = 0),
     validate_attributes = (\<lambda>a. True),
     default_attributes = plain_attributes,
     build_request = (\<lambda>sink source ttl i p. Some \<lparr>umsg_attributes = Some
       (plain_attributes\<lparr>attr_id := Some i, attr_type := Known UMESSAGE_TYPE_REQUEST,
         attr_source := Some source, attr_sink := Some sink, attr_ttl := Some ttl\<rparr>),
       umsg_payload = Some p\<rparr>),
     build_response = (\<lambda>sink q source c i p. Some \<lparr>umsg_attributes = Some
       (plain_attributes\<lparr>attr_id := Some i, attr_type := Known UMESSAGE_TYPE_RESPONSE,
         attr_source := Some source, attr_sink := Some sink, attr_reqid := Some q,
         attr_commstatus := Some (Known c)\<rparr>),
       umsg_payload = Some p\<rparr>),
     build_publish = (\<lambda>source i p. Some \<lparr>umsg_attributes = Some
       (plain_attributes\<lparr>attr_id := Some i, attr_type := Known UMESSAGE_TYPE_PUBLISH,
         attr_source := Some source\<rparr>),
       umsg_payload = Some p\<rparr>)\<rparr>"

section \<open>Lemmas\<close>

lemma permissive_laws [simp]:
  "wildcard_laws permissive_up_rust"
  "parts_law permissive_up_rust"
  "builder_laws permissive_up_rust"
  by (simp_all add: permissive_up_rust_def wildcard_laws_def parts_law_def builder_laws_def
        plain_attributes_def)

lemma permissive_up_rust_simps [simp]:
  "has_wildcard_authority permissive_up_rust u \<longleftrightarrow> authority_name u = ''*''"
  "try_from_parts permissive_up_rust a e v r = Some \<lparr>authority_name = a, ue_id = e,
     ue_version_major = ucast v, resource_id = ucast r\<rparr>"
  "validate_attributes permissive_up_rust attrs"
  "verify_rpc_response permissive_up_rust u \<longleftrightarrow> resource_id u = 0"
  "build_response permissive_up_rust sink q source c i p = Some \<lparr>umsg_attributes = Some
     (plain_attributes\<lparr>attr_id := Some i, attr_type := Known UMESSAGE_TYPE_RESPONSE,
       attr_source := Some source, attr_sink := Some sink, attr_reqid := Some q,
       attr_commstatus := Some (Known c)\<rparr>), umsg_payload = Some p\<rparr>"
  "build_request permissive_up_rust sink source ttl i p = Some \<lparr>umsg_attributes = Some
     (plain_attributes\<lparr>attr_id := Some i, attr_type := Known UMESSAGE_TYPE_REQUEST,
       attr_source := Some source, attr_sink := Some sink, attr_ttl := Some ttl\<rparr>),
     umsg_payload = Some p\<rparr>"
  by (simp_all add: permissive_up_rust_def)

lemma parts_lawD:
  "parts_law U \<Longrightarrow> try_from_parts U a e v r = Some u \<Longrightarrow>
   u = \<lparr>authority_name = a, ue_id = e, ue_version_major = ucast v, resource_id = ucast r\<rparr>"
  by (simp add: parts_law_def)

lemma attributes_of_Some [simp]: "umsg_attributes m = Some a \<Longrightarrow> attributes_of U m = a"
  by (simp add: attributes_of_def)

lemma attributes_of_literal [simp]:
  "attributes_of U \<lparr>umsg_attributes = Some a, umsg_payload = p\<rparr> = a"
  by (simp add: attributes_of_def)

text \<open>Both entity wildcards together are the all-ones entity id.\<close>

lemma entity_wildcards: "e AND 0xFFFF = 0xFFFF \<and> e AND 0xFFFF0000 = 0xFFFF0000 \<longleftrightarrow> e = 0xFFFFFFFF"
  for e :: u32
proof
  assume "e AND 0xFFFF = 0xFFFF \<and> e AND 0xFFFF0000 = 0xFFFF0000"
  then have "e AND (0xFFFF OR 0xFFFF0000) = 0xFFFF OR 0xFFFF0000"
    by (simp only: bit.conj_disj_distrib)
  moreover have "0xFFFF OR 0xFFFF0000 = (-1 :: u32)" by simp
  ultimately have "e = -1" by (simp only: bit.conj_one_right)
  then show "e = 0xFFFFFFFF" by simp
qed simp

end
