(* ===== verification/Utils.thy ===== *)
theory Utils
  imports Up_Rust
begin

text \<open>
  \<^verbatim>\<open>up-transport-vsomeip/src/utils.rs\<close>: the filter for one entity of an authority, the splitting
  of 32-bit URI elements into SOME/IP's 16- and 8-bit fields, and the SOME/IP request id.
\<close>

section \<open>Definitions\<close>

definition any_uuri_fixed_authority_id :: "AuthorityName \<Rightarrow> UeId \<Rightarrow> uuri" where
  "any_uuri_fixed_authority_id authority e =
     \<lparr>authority_name = authority, ue_id = e, ue_version_major = 0xFF, resource_id = 0xFFFF\<rparr>"

definition split_u32_to_u16 :: "u32 \<Rightarrow> u16 \<times> u16" where
  "split_u32_to_u16 value =
     (let most_significant_bits = ucast (drop_bit 16 value);
          least_significant_bits = ucast (value AND 0xFFFF)
      in (most_significant_bits, least_significant_bits))"

definition split_u32_to_u8 :: "u32 \<Rightarrow> u8 \<times> u8 \<times> u8 \<times> u8" where
  "split_u32_to_u8 value =
     (let byte1 = ucast (drop_bit 24 value);
          byte2 = ucast (drop_bit 16 value AND 0xFF);
          byte3 = ucast (drop_bit 8 value AND 0xFF);
          byte4 = ucast (value AND 0xFF)
      in (byte1, byte2, byte3, byte4))"

definition create_request_id :: "ClientId \<Rightarrow> SessionId \<Rightarrow> SomeIpRequestId" where
  "create_request_id client_id session_id = push_bit 16 (ucast client_id) OR ucast session_id"

section \<open>Lemmas\<close>

lemma split_u32_to_u16_eq [word_split_simps]:
  "split_u32_to_u16 x = (ucast (drop_bit 16 x), ucast x)"
  by (simp add: split_u32_to_u16_def word_split_simps)

lemma split_u32_to_u8_low [word_split_simps]:
  "split_u32_to_u8 x = (ucast (drop_bit 24 x), ucast (drop_bit 16 x), ucast (drop_bit 8 x), ucast x)"
  by (simp add: split_u32_to_u8_def word_split_simps)

lemma split_create_request_id [simp]: "split_u32_to_u16 (create_request_id c s) = (c, s)"
  unfolding create_request_id_def split_u32_to_u16_eq join_halves_high join_halves_low ..

lemma create_split_request_id: "split_u32_to_u16 r = (c, s) \<Longrightarrow> create_request_id c s = r"
  by (auto simp: create_request_id_def word_split_simps)

lemma create_request_id_inject [simp]:
  "create_request_id c s = create_request_id c' s' \<longleftrightarrow> c = c' \<and> s = s'"
  by (metis prod.inject split_create_request_id)

lemma ucast_u16_u32_u16 [simp]: "ucast (ucast (x :: u16) :: u32) = x"
  by (rule bit_word_eqI) (simp add: bit_simps)

lemma ucast_u8_u32_u8 [simp]: "ucast (ucast (x :: u8) :: u32) = x"
  by (rule bit_word_eqI) (simp add: bit_simps)

lemma four_bytes_join:
  "push_bit 24 (ucast (ucast (drop_bit 24 r) :: u8)) OR
   push_bit 16 (ucast (ucast (drop_bit 16 r) :: u8)) OR
   push_bit 8 (ucast (ucast (drop_bit 8 r) :: u8)) OR ucast (ucast r :: u8) = (r :: u32)"
proof (rule bit_word_eqI)
  fix n :: nat
  assume "n < LENGTH(32)"
  then consider "n < 8" | "8 \<le> n" "n < 16" | "16 \<le> n" "n < 24" | "24 \<le> n" "n < 32"
    by force
  then show "bit (push_bit 24 (ucast (ucast (drop_bit 24 r) :: u8)) OR
      push_bit 16 (ucast (ucast (drop_bit 16 r) :: u8)) OR
      push_bit 8 (ucast (ucast (drop_bit 8 r) :: u8)) OR ucast (ucast r :: u8) :: u32) n = bit r n"
    by cases (auto simp: bit_simps)
qed

section \<open>Properties\<close>

text \<open>
  Splitting and joining of request ids are inverse to each other: \<open>create_request_id\<close>
  packs a client and a session id so that \<open>split_u32_to_u16\<close> gives both back, every 32-bit
  request id is packed from its two halves, and the four bytes of \<open>split_u32_to_u8\<close>
  determine the value.
\<close>

theorem request_id_roundtrip:
  "split_u32_to_u16 (create_request_id c s) = (c, s) \<and>
   create_request_id (fst (split_u32_to_u16 r)) (snd (split_u32_to_u16 r)) = r \<and>
   (case split_u32_to_u8 r of (b1, b2, b3, b4) \<Rightarrow>
      push_bit 24 (ucast b1) OR push_bit 16 (ucast b2) OR push_bit 8 (ucast b3) OR ucast b4 = r)"
proof -
  have "push_bit 24 (ucast (ucast (drop_bit 24 r) :: u8)) OR
        push_bit 16 (ucast (ucast (drop_bit 16 r) :: u8)) OR
        push_bit 8 (ucast (ucast (drop_bit 8 r) :: u8)) OR ucast (ucast r :: u8) = r"
    by (rule four_bytes_join)
  moreover have "create_request_id (fst (split_u32_to_u16 r)) (snd (split_u32_to_u16 r)) = r"
    by (rule create_split_request_id) simp
  ultimately show ?thesis
    by (simp add: split_u32_to_u8_low)
qed

end
