(* ===== verification/Determine_Message_Type.thy ===== *)
theory Determine_Message_Type
  imports Utils
begin

text \<open>
  \<^verbatim>\<open>up-transport-vsomeip/src/determine_message_type.rs\<close>: which kind of registration or message
  a pair of source and sink filter stands for.
\<close>

section \<open>Definitions\<close>

datatype registration_type = Publish | Request | Response | AllPointToPoint

definition determine_type :: "up_rust \<Rightarrow> uuri \<Rightarrow> uuri option \<Rightarrow> registration_type result" where
  "determine_type U source_filter sink_filter_opt =
     (case sink_filter_opt of
        Some sink_filter \<Rightarrow>
          let source_wildcard_authority = (\<not> has_wildcard_authority U source_filter);
              source_wildcard_entity_type = has_wildcard_entity_type U source_filter;
              source_wildcard_entity_instance = has_wildcard_entity_instance U source_filter;
              source_wildcard_version = has_wildcard_version U source_filter;
              source_wildcard_resource_id = has_wildcard_resource_id U source_filter;
              sink_non_wildcard_authority = (\<not> has_wildcard_authority U sink_filter);
              sink_wildcard_entity_type = has_wildcard_entity_type U sink_filter;
              sink_wildcard_entity_instance = has_wildcard_entity_instance U sink_filter;
              sink_wildcard_version = has_wildcard_version U sink_filter;
              sink_wildcard_resource_id = has_wildcard_resource_id U sink_filter;
              streamer_use_case =
                (source_wildcard_authority \<and> source_wildcard_entity_type \<and>
                 source_wildcard_entity_instance \<and> source_wildcard_version \<and>
                 source_wildcard_resource_id \<and> sink_non_wildcard_authority \<and>
                 sink_wildcard_entity_type \<and> sink_wildcard_entity_instance \<and>
                 sink_wildcard_version \<and> sink_wildcard_resource_id)
          in if streamer_use_case then Ok AllPointToPoint
             else if resource_id sink_filter = 0 then Ok Response
             else Ok Request
      | None \<Rightarrow> Ok Publish)"

section \<open>Lemmas\<close>

lemma determine_type_None [simp]: "determine_type U src None = Ok Publish"
  by (simp add: determine_type_def)

lemma determine_type_total: "\<exists>t. determine_type U src sink = Ok t"
  by (cases sink) (auto simp: determine_type_def Let_def)

lemma determine_type_no_sink_iff: "determine_type U src sink = Ok Publish \<longleftrightarrow> sink = None"
  by (cases sink) (auto simp: determine_type_def Let_def)

definition any_entity :: "uuri \<Rightarrow> bool" where
  "any_entity u \<longleftrightarrow>
     authority_name u \<noteq> ''*'' \<and> ue_id u = 0xFFFFFFFF \<and> ue_version_major u = 0xFF \<and>
     resource_id u = 0xFFFF"

section \<open>Properties\<close>

text \<open>
  \<open>determine_type\<close> never fails, and with the documented meaning of the URI wildcards its
  result is: \<open>Publish\<close> exactly without a sink; \<open>AllPointToPoint\<close> exactly when source and
  sink both name an authority (no authority wildcard) and leave entity, version and resource
  open; otherwise \<open>Response\<close> for a sink with resource id 0 and \<open>Request\<close> for any other.
\<close>

theorem determine_type_spec:
  assumes "wildcard_laws U"
  shows "determine_type U src sink =
     Ok (case sink of
           None \<Rightarrow> Publish
         | Some s \<Rightarrow>
             if any_entity src \<and> any_entity s then AllPointToPoint
             else if resource_id s = 0 then Response else Request)"
proof (cases sink)
  case (Some s)
  have eq: "has_wildcard_entity_type U u \<and> has_wildcard_entity_instance U u \<longleftrightarrow>
      ue_id u = 0xFFFFFFFF" for u
    using assms entity_wildcards [of "ue_id u"] by (auto simp: wildcard_laws_def)
  then have "any_entity u \<longleftrightarrow> \<not> has_wildcard_authority U u \<and> has_wildcard_entity_type U u \<and>
      has_wildcard_entity_instance U u \<and> has_wildcard_version U u \<and>
      has_wildcard_resource_id U u" for u
    using assms by (auto simp: wildcard_laws_def any_entity_def)
  then show ?thesis
    by (simp add: Some determine_type_def Let_def)
qed simp

theorem determine_type_spec_witness:
  "determine_type permissive_up_rust
     (any_uuri_fixed_authority_id ''a'' 0xFFFFFFFF)
     (Some (any_uuri_fixed_authority_id ''b'' 0xFFFFFFFF)) = Ok AllPointToPoint"
  using determine_type_spec [OF permissive_laws(1)]
  by (simp add: any_entity_def any_uuri_fixed_authority_id_def)

text \<open>
  A point-to-point listener's per-service filters (any source, one entity of the local
  authority) are always classified as \<open>Request\<close>: what unregistering recomputes is the type
  registering used.
\<close>

lemma determine_type_service_filter:
  assumes "wildcard_laws U"
  shows "determine_type U (uuri_any U) (Some (any_uuri_fixed_authority_id authority e)) =
    Ok Request"
  using assms
  by (simp add: determine_type_def wildcard_laws_def any_uuri_fixed_authority_id_def)

end
