(* ===== verification/Message_Handler_Registry.thy ===== *)
theory Message_Handler_Registry
  imports Up_Rust
begin

text \<open>
  \<^verbatim>\<open>up-transport-vsomeip/src/storage/message_handler_registry.rs\<close>: the pool of extern "C" message
  handlers, shared by all transports of the process, and the registry each transport keeps of
  the listeners behind its handlers.

  State. The two statics \<^verbatim>\<open>FREE_MESSAGE_HANDLER_IDS\<close> and
  \<^verbatim>\<open>MESSAGE_HANDLER_ID_TO_TRANSPORT_STORAGE\<close> are the record \<open>handler_statics\<close>; a \<^verbatim>\<open>Weak\<close>
  reference to a transport's storage is the number of that transport. The registry of one
  transport is a \<^verbatim>\<open>bimap::BiMap\<close>: its operations belong to another crate, so they are the
  record \<open>bimap_api\<close> over any representation \<open>'m\<close>, with their documented behaviour in
  \<open>bimap_laws\<close>. Every operation takes all its locks first and
  changes nothing it has unlocked, so it is one step on the pair of statics and registry; \<open>Registry_Atomicity\<close> shows that threads cannot tell.
\<close>

section \<open>The bidirectional map\<close>

text \<open>
  \<open>bm_insert_no_overwrite\<close> returns \<open>True\<close> for \<^verbatim>\<open>Ok\<close>; \<open>bm_remove_by_left\<close> returns the
  removed pair.
\<close>

record ('m, 'r) bimap_api =
  bm_new :: 'm
  bm_get_by_left :: "'m \<Rightarrow> nat \<Rightarrow> 'r option"
  bm_get_by_right :: "'m \<Rightarrow> 'r \<Rightarrow> nat option"
  bm_contains_left :: "'m \<Rightarrow> nat \<Rightarrow> bool"
  bm_contains_right :: "'m \<Rightarrow> 'r \<Rightarrow> bool"
  bm_insert_no_overwrite :: "nat \<Rightarrow> 'r \<Rightarrow> 'm \<Rightarrow> bool \<times> 'm"
  bm_remove_by_left :: "nat \<Rightarrow> 'm \<Rightarrow> (nat \<times> 'r) option \<times> 'm"
  bm_left_values :: "'m \<Rightarrow> nat list"

definition bimap_laws :: "('m, 'r) bimap_api \<Rightarrow> bool" where
  "bimap_laws B \<longleftrightarrow>
     (\<forall>i. bm_get_by_left B (bm_new B) i = None) \<and>
     (\<forall>m i c. bm_get_by_right B m c = Some i \<longleftrightarrow> bm_get_by_left B m i = Some c) \<and>
     (\<forall>m i. bm_contains_left B m i \<longleftrightarrow> bm_get_by_left B m i \<noteq> None) \<and>
     (\<forall>m c. bm_contains_right B m c \<longleftrightarrow> bm_get_by_right B m c \<noteq> None) \<and>
     (\<forall>m i c. if bm_get_by_left B m i = None \<and> bm_get_by_right B m c = None
        then \<exists>m'. bm_insert_no_overwrite B i c m = (True, m') \<and>
               bm_get_by_left B m' = (bm_get_by_left B m)(i \<mapsto> c)
        else bm_insert_no_overwrite B i c m = (False, m)) \<and>
     (\<forall>m i. \<exists>m'. bm_remove_by_left B i m = (map_option (Pair i) (bm_get_by_left B m i), m') \<and>
        bm_get_by_left B m' = (bm_get_by_left B m)(i := None)) \<and>
     (\<forall>m. set (bm_left_values B m) = dom (bm_get_by_left B m) \<and> distinct (bm_left_values B m))"

section \<open>Listener configurations\<close>

type_synonym listener_config = "uuri \<times> uuri option \<times> listener"
type_synonym 'm config_bimap = "('m, listener_config) bimap_api"

text \<open>
  One bidirectional map that behaves as documented, for closed examples: a list of pairs, of
  which an entry counts unless its left or right value occurs in an entry behind it.
\<close>

fun bimap_entries :: "(nat \<times> 'r) list \<Rightarrow> (nat \<times> 'r) list" where
  "bimap_entries [] = []"
| "bimap_entries ((i, c) # xs) =
     (let ys = bimap_entries xs
      in if i \<in> fst ` set ys \<or> c \<in> snd ` set ys then ys else (i, c) # ys)"

definition list_bimap :: "((nat \<times> 'r) list, 'r) bimap_api" where
  "list_bimap = \<lparr>
     bm_new = [],
     bm_get_by_left = (\<lambda>m. map_of (bimap_entries m)),
     bm_get_by_right = (\<lambda>m. map_of (map prod.swap (bimap_entries m))),
     bm_contains_left = (\<lambda>m i. map_of (bimap_entries m) i \<noteq> None),
     bm_contains_right = (\<lambda>m c. map_of (map prod.swap (bimap_entries m)) c \<noteq> None),
     bm_insert_no_overwrite = (\<lambda>i c m.
       if map_of (bimap_entries m) i = None \<and> map_of (map prod.swap (bimap_entries m)) c = None
       then (True, (i, c) # m) else (False, m)),
     bm_remove_by_left = (\<lambda>i m. (map_option (Pair i) (map_of (bimap_entries m) i),
       filter (\<lambda>p. fst p \<noteq> i) (bimap_entries m))),
     bm_left_values = (\<lambda>m. map fst (bimap_entries m))\<rparr>"

section \<open>Extern functions and errors\<close>

text \<open>\<^verbatim>\<open>generate_message_handler_extern_c_fns!(10000)\<close>\<close>

definition num_message_handler_fns :: nat where
  "num_message_handler_fns = 10000"

datatype message_handler_fn_ptr = Extern_fn_message_handler nat

definition get_extern_fn :: "MessageHandlerId \<Rightarrow> message_handler_fn_ptr outcome" where
  "get_extern_fn message_handler_id =
     (if message_handler_id < num_message_handler_fns
      then Returns (Extern_fn_message_handler message_handler_id) else Panics)"

text \<open>\<open>OtherError\<close> holds the status whose debug text is the string of the source's \<^verbatim>\<open>OtherError\<close>.\<close>

datatype get_message_handler_error =
    ListenerIdAlreadyExists MessageHandlerId
  | ListenerConfigAlreadyExists message_handler_fn_ptr
  | OtherError ustatus

datatype message_handler_id_and_listener_config_error =
    Id_MessageHandlerIdAlreadyExists MessageHandlerId
  | Id_ListenerConfigAlreadyExists

section \<open>State\<close>

record handler_statics =
  free_message_handler_ids :: "nat set"
  message_handler_id_to_transport_storage :: "nat \<rightharpoonup> nat"

definition handler_statics_init :: handler_statics where
  "handler_statics_init = \<lparr>free_message_handler_ids = {..<num_message_handler_fns},
     message_handler_id_to_transport_storage = Map.empty\<rparr>"

section \<open>Operations\<close>

definition get_message_handler_id_transport ::
    "nat set \<Rightarrow> handler_statics \<Rightarrow> MessageHandlerId \<Rightarrow> nat option" where
  "get_message_handler_id_transport live g message_handler_id =
     (case message_handler_id_to_transport_storage g message_handler_id of
        None \<Rightarrow> None
      | Some transport \<Rightarrow> if transport \<in> live then Some transport else None)"

definition find_available_message_handler_id :: "nat \<Rightarrow> nat set \<Rightarrow> nat result \<times> nat set" where
  "find_available_message_handler_id choice free_ids =
     (case hash_next choice free_ids of
        Some i \<Rightarrow> (Ok i, free_ids - {i})
      | None \<Rightarrow>
          (Err (fail_with_code RESOURCE_EXHAUSTED ''No more extern C fns available''), free_ids))"

definition free_message_handler_id :: "nat \<Rightarrow> nat set \<Rightarrow> unit result \<times> nat set" where
  "free_message_handler_id listener_id free_ids = (Ok (), insert listener_id free_ids)"

definition insert_message_handler_id_transport ::
    "nat \<Rightarrow> nat \<Rightarrow> (nat \<rightharpoonup> nat) \<Rightarrow> unit result \<times> (nat \<rightharpoonup> nat)" where
  "insert_message_handler_id_transport listener_id transport ids =
     (case ids listener_id of
        None \<Rightarrow> (Ok (), ids(listener_id \<mapsto> transport))
      | Some occ \<Rightarrow>
          (Err (fail_with_code ALREADY_EXISTS
             ''LISTENER_ID_TRANSPORT_MAPPING already contains listener_id: {listener_id}''), ids))"

definition remove_message_handler_id_transport ::
    "nat \<Rightarrow> (nat \<rightharpoonup> nat) \<Rightarrow> unit result \<times> (nat \<rightharpoonup> nat)" where
  "remove_message_handler_id_transport listener_id ids =
     (if ids listener_id \<noteq> None then (Ok (), ids(listener_id := None))
      else (Err (fail_with_code NOT_FOUND
              ''LISTENER_ID_TRANSPORT_MAPPING does not contain listener_id: {listener_id}''), ids))"

definition insert_message_handler_id_and_listener_config ::
    "('m, 'c) bimap_api \<Rightarrow> nat \<Rightarrow> 'c \<Rightarrow> 'm \<Rightarrow>
     (message_handler_id_and_listener_config_error + unit) \<times> 'm" where
  "insert_message_handler_id_and_listener_config B message_handler_id config m =
     (case bm_insert_no_overwrite B message_handler_id config m of
        (True, m') \<Rightarrow> (Inr (), m')
      | (False, m') \<Rightarrow>
          if bm_contains_left B m' message_handler_id
          then (Inl (Id_MessageHandlerIdAlreadyExists message_handler_id), m')
          else if bm_contains_right B m' config
          then (Inl Id_ListenerConfigAlreadyExists, m')
          else (Inr (), m'))"

definition remove_message_handler_id_and_listener_config_based_on_message_handler_id ::
    "('m, 'c) bimap_api \<Rightarrow> nat \<Rightarrow> 'm \<Rightarrow> unit result \<times> 'm" where
  "remove_message_handler_id_and_listener_config_based_on_message_handler_id B i m =
     (case bm_remove_by_left B i m of
        (None, m') \<Rightarrow>
          (Err (fail_with_code NOT_FOUND
             ''No listener_config for listener_id: {message_handler_id}''), m')
      | (Some removed, m') \<Rightarrow> (Ok (), m'))"

definition get_message_handler_id_for_listener_config ::
    "('m, 'c) bimap_api \<Rightarrow> 'm \<Rightarrow> 'c \<Rightarrow> nat option" where
  "get_message_handler_id_for_listener_config B m config = bm_get_by_right B m config"

text \<open>
  The rollback steps of \<open>get_message_handler\<close> run in the order they were pushed: give the id
  back, then drop the transport entry; a failing step is only logged.
\<close>

definition get_message_handler ::
    "('m, 'c) bimap_api \<Rightarrow> nat \<Rightarrow> nat \<Rightarrow> 'c \<Rightarrow> handler_statics \<times> 'm \<Rightarrow>
     (get_message_handler_error + message_handler_fn_ptr) outcome \<times> handler_statics \<times> 'm" where
  "get_message_handler B choice transport_storage config = (\<lambda>(g, m).
     case find_available_message_handler_id choice (free_message_handler_ids g) of
       (Err e, free0) \<Rightarrow>
         (Returns (Inl (OtherError
            (fail_with_code RESOURCE_EXHAUSTED ''No more available extern fns''))),
          g\<lparr>free_message_handler_ids := free0\<rparr>, m)
     | (Ok message_handler_id, free1) \<Rightarrow>
         (case insert_message_handler_id_transport message_handler_id transport_storage
                 (message_handler_id_to_transport_storage g) of
            (Err err, ids1) \<Rightarrow>
              let free2 = snd (free_message_handler_id message_handler_id free1)
              in (Returns (Inl (OtherError err)),
                  \<lparr>free_message_handler_ids = free2,
                   message_handler_id_to_transport_storage = ids1\<rparr>, m)
          | (Ok _, ids1) \<Rightarrow>
              (case insert_message_handler_id_and_listener_config B message_handler_id config m of
                 (Inl err, m1) \<Rightarrow>
                   let free2 = snd (free_message_handler_id message_handler_id free1);
                       ids2 = snd (remove_message_handler_id_transport message_handler_id ids1);
                       rolled_back = (\<lparr>free_message_handler_ids = free2,
                         message_handler_id_to_transport_storage = ids2\<rparr>, m1)
                   in (case err of
                         Id_MessageHandlerIdAlreadyExists listener_id \<Rightarrow>
                           (Returns (Inl (ListenerIdAlreadyExists listener_id)), rolled_back)
                       | Id_ListenerConfigAlreadyExists \<Rightarrow>
                           (case get_extern_fn message_handler_id of
                              Panics \<Rightarrow> (Panics, rolled_back)
                            | Returns f \<Rightarrow>
                                (Returns (Inl (ListenerConfigAlreadyExists f)), rolled_back)))
               | (Inr _, m1) \<Rightarrow>
                   let inserted = (\<lparr>free_message_handler_ids = free1,
                         message_handler_id_to_transport_storage = ids1\<rparr>, m1)
                   in (case get_extern_fn message_handler_id of
                         Panics \<Rightarrow> (Panics, inserted)
                       | Returns f \<Rightarrow> (Returns (Inr f), inserted)))))"

definition release_message_handler ::
    "('m, 'c) bimap_api \<Rightarrow> 'c \<Rightarrow> handler_statics \<times> 'm \<Rightarrow>
     unit result \<times> handler_statics \<times> 'm" where
  "release_message_handler B config = (\<lambda>(g, m).
     case get_message_handler_id_for_listener_config B m config of
       None \<Rightarrow>
         (Err (fail_with_code NOT_FOUND ''No listener_id for listener_config''), g, m)
     | Some message_handler_id \<Rightarrow>
         let free1 = snd (free_message_handler_id message_handler_id (free_message_handler_ids g));
             ids1 = snd (remove_message_handler_id_transport message_handler_id
                           (message_handler_id_to_transport_storage g));
             m1 = snd (remove_message_handler_id_and_listener_config_based_on_message_handler_id
                         B message_handler_id m)
         in (Ok (), \<lparr>free_message_handler_ids = free1,
                     message_handler_id_to_transport_storage = ids1\<rparr>, m1))"

definition get_message_handler_ids :: "('m, 'c) bimap_api \<Rightarrow> 'm \<Rightarrow> nat list" where
  "get_message_handler_ids B m = bm_left_values B m"

definition get_listener_config_for_message_handler_id ::
    "'m config_bimap \<Rightarrow> 'm \<Rightarrow> nat \<Rightarrow> listener_config option" where
  "get_listener_config_for_message_handler_id B m message_handler_id =
     (case bm_get_by_left B m message_handler_id of
        None \<Rightarrow> None
      | Some (src, sink, comp_listener) \<Rightarrow> Some (src, sink, comp_listener))"

definition get_listener_for_message_handler_id ::
    "'m config_bimap \<Rightarrow> 'm \<Rightarrow> nat \<Rightarrow> listener option" where
  "get_listener_for_message_handler_id B m message_handler_id =
     (case bm_get_by_left B m message_handler_id of
        None \<Rightarrow> None
      | Some (_, _, comp_listener) \<Rightarrow> Some comp_listener)"

fun collect_listener_configs :: "'m config_bimap \<Rightarrow> 'm \<Rightarrow> nat list \<Rightarrow> listener_config list" where
  "collect_listener_configs B m [] = []"
| "collect_listener_configs B m (i # ids) =
     (case get_listener_config_for_message_handler_id B m i of
        None \<Rightarrow> collect_listener_configs B m ids
      | Some config \<Rightarrow> config # collect_listener_configs B m ids)"

definition get_all_listener_configs :: "'m config_bimap \<Rightarrow> 'm \<Rightarrow> listener_config list" where
  "get_all_listener_configs B m = collect_listener_configs B m (get_message_handler_ids B m)"

lemmas handler_registry_defs [registry_defs] =
  find_available_message_handler_id_def free_message_handler_id_def
  insert_message_handler_id_transport_def remove_message_handler_id_transport_def
  insert_message_handler_id_and_listener_config_def
  remove_message_handler_id_and_listener_config_based_on_message_handler_id_def
  get_message_handler_id_for_listener_config_def get_extern_fn_def

section \<open>The invariant of the pool\<close>

text \<open>
  For transport \<open>t\<close>: the ids that are not free are exactly those with a transport entry, and
  the entries that lead to \<open>t\<close> are exactly the ids under which \<open>t\<close>'s own registry has a
  listener.
\<close>

definition handler_invar :: "('m, 'c) bimap_api \<Rightarrow> nat \<Rightarrow> handler_statics \<times> 'm \<Rightarrow> bool" where
  "handler_invar B t = (\<lambda>(g, m).
     bimap_laws B \<and> free_message_handler_ids g \<subseteq> {..<num_message_handler_fns} \<and>
     dom (message_handler_id_to_transport_storage g) =
       {..<num_message_handler_fns} - free_message_handler_ids g \<and>
     {i. message_handler_id_to_transport_storage g i = Some t} = dom (bm_get_by_left B m))"

abbreviation handler_used :: "('m, 'c) bimap_api \<Rightarrow> handler_statics \<times> 'm \<Rightarrow> nat \<rightharpoonup> 'c" where
  "handler_used B s \<equiv> bm_get_by_left B (snd s)"

abbreviation handler_free :: "handler_statics \<times> 'm \<Rightarrow> nat set" where
  "handler_free s \<equiv> free_message_handler_ids (fst s)"

section \<open>Lemmas on the bidirectional map\<close>

lemma bimap_right_iff:
  "bimap_laws B \<Longrightarrow> bm_get_by_right B m c = Some i \<longleftrightarrow> bm_get_by_left B m i = Some c"
  by (simp add: bimap_laws_def)

lemma bimap_right_None:
  assumes "bimap_laws B"
  shows "bm_get_by_right B m c = None \<longleftrightarrow> c \<notin> ran (bm_get_by_left B m)"
  using bimap_right_iff [OF assms, of m c] by (cases "bm_get_by_right B m c") (auto simp: ran_def)

lemma bimap_left_inj:
  "bimap_laws B \<Longrightarrow> bm_get_by_left B m i = Some c \<Longrightarrow> bm_get_by_left B m j = Some c \<Longrightarrow> i = j"
  by (metis bimap_right_iff option.inject)

lemma bimap_contains:
  "bimap_laws B \<Longrightarrow> bm_contains_left B m i \<longleftrightarrow> bm_get_by_left B m i \<noteq> None"
  "bimap_laws B \<Longrightarrow> bm_contains_right B m c \<longleftrightarrow> bm_get_by_right B m c \<noteq> None"
  by (simp_all add: bimap_laws_def)

lemma bimap_insert_new:
  assumes "bimap_laws B" "bm_get_by_left B m i = None" "bm_get_by_right B m c = None"
  obtains m' where "bm_insert_no_overwrite B i c m = (True, m')"
    "bm_get_by_left B m' = (bm_get_by_left B m)(i \<mapsto> c)"
  using assms unfolding bimap_laws_def by metis

lemma bimap_insert_taken:
  "bimap_laws B \<Longrightarrow> bm_get_by_right B m c = Some j \<Longrightarrow> bm_insert_no_overwrite B i c m = (False, m)"
  unfolding bimap_laws_def by (metis option.distinct(1))

lemma bimap_remove:
  assumes "bimap_laws B"
  obtains m' where "bm_remove_by_left B i m = (map_option (Pair i) (bm_get_by_left B m i), m')"
    "bm_get_by_left B m' = (bm_get_by_left B m)(i := None)"
  using assms unfolding bimap_laws_def by metis

lemma bimap_left_values:
  "bimap_laws B \<Longrightarrow> set (bm_left_values B m) = dom (bm_get_by_left B m)"
  "bimap_laws B \<Longrightarrow> distinct (bm_left_values B m)"
  by (simp_all add: bimap_laws_def)

lemma distinct_bimap_entries:
  "distinct (map fst (bimap_entries m))" "distinct (map snd (bimap_entries m))"
  by (induction m rule: bimap_entries.induct) (auto simp: Let_def)

lemma bimap_entries_filter:
  "bimap_entries (filter P (bimap_entries m)) = filter P (bimap_entries m)"
proof -
  have "bimap_entries ys = ys" if "distinct (map fst ys)" "distinct (map snd ys)"
    for ys :: "(nat \<times> 'a) list"
    using that by (induction ys) (auto simp: Let_def)
  then show ?thesis
    using distinct_bimap_entries [of m] by (simp add: distinct_map_filter)
qed

lemma map_of_filter_neq:
  "map_of (filter (\<lambda>p. fst p \<noteq> i) xs) = (map_of xs)(i := None)"
  by (induction xs) (auto simp: fun_eq_iff)

lemma map_of_swap_iff:
  assumes "distinct (map fst xs)" "distinct (map snd xs)"
  shows "map_of (map prod.swap xs) c = Some i \<longleftrightarrow> map_of xs i = Some c"
  using assms by (simp add: map_of_eq_Some_iff comp_def)

lemma list_bimap_laws [simp]: "bimap_laws list_bimap"
proof -
  have swap: "map_of (map prod.swap (bimap_entries m)) c = Some i \<longleftrightarrow>
      map_of (bimap_entries m) i = Some c" for m :: "(nat \<times> 'a) list" and c i
    by (rule map_of_swap_iff [OF distinct_bimap_entries])
  have ins: "bimap_entries ((i, c) # m) = (i, c) # bimap_entries m"
    if "map_of (bimap_entries m) i = None" "map_of (map prod.swap (bimap_entries m)) c = None"
    for m :: "(nat \<times> 'a) list" and c i
    using that by (auto simp: map_of_eq_None_iff image_image Let_def)
  have absent: "(y, c) \<notin> set (bimap_entries m)"
    if "map_of (map prod.swap (bimap_entries m)) c = None"
    for m :: "(nat \<times> 'a) list" and c y
    using that by (force simp: map_of_eq_None_iff)
  show ?thesis
    unfolding bimap_laws_def list_bimap_def
    using distinct_bimap_entries absent
    by (auto simp: swap ins bimap_entries_filter map_of_filter_neq dom_map_of_conv_image_fst
        simp del: bimap_entries.simps(2))
qed

section \<open>The operations under the invariant\<close>

lemma handler_invar_finite: "handler_invar B t s \<Longrightarrow> finite (handler_free s)"
  by (cases s) (auto simp: handler_invar_def intro: finite_subset [OF _ finite_lessThan])

lemma handler_invar_laws: "handler_invar B t s \<Longrightarrow> bimap_laws B"
  by (auto simp: handler_invar_def)

lemma handler_invar_next:
  assumes inv: "handler_invar B t s" and nxt: "hash_next ch (handler_free s) = Some i"
  shows "i \<in> handler_free s" "i < num_message_handler_fns"
    "message_handler_id_to_transport_storage (fst s) i = None" "handler_used B s i = None"
proof -
  obtain g m where s: "s = (g, m)" by (cases s)
  show "i \<in> handler_free s"
    using nxt hash_next_in [OF handler_invar_finite [OF inv]] by simp
  with inv have "i < num_message_handler_fns"
    "i \<notin> dom (message_handler_id_to_transport_storage g)"
    "{j. message_handler_id_to_transport_storage g j = Some t} = dom (bm_get_by_left B m)"
    by (auto simp: handler_invar_def s)
  then have "i \<notin> dom (bm_get_by_left B m)" by force
  then show "handler_used B s i = None" unfolding s domIff snd_conv by blast
  show "i < num_message_handler_fns" by fact
  show "message_handler_id_to_transport_storage (fst s) i = None"
    using \<open>i \<notin> dom (message_handler_id_to_transport_storage g)\<close> by (simp add: s domIff)
qed

lemma handler_invar_used:
  assumes "handler_invar B t s" "handler_used B s i = Some c"
  shows "message_handler_id_to_transport_storage (fst s) i = Some t"
    "i < num_message_handler_fns" "i \<notin> handler_free s"
proof -
  have "{i. message_handler_id_to_transport_storage (fst s) i = Some t} = dom (handler_used B s)"
    "dom (message_handler_id_to_transport_storage (fst s)) = {..<num_message_handler_fns} - handler_free s"
    using assms(1) by (simp_all add: handler_invar_def case_prod_unfold)
  with assms(2) show "message_handler_id_to_transport_storage (fst s) i = Some t"
    "i < num_message_handler_fns" "i \<notin> handler_free s"
    by blast+
qed

lemma get_message_handler_full:
  assumes "handler_invar B t s" "handler_free s = {}"
  shows "get_message_handler B ch t c s =
    (Returns (Inl (OtherError (fail_with_code RESOURCE_EXHAUSTED ''No more available extern fns''))), s)"
  using assms by (cases s) (simp add: get_message_handler_def registry_defs hash_next_def)

lemma get_message_handler_duplicate:
  assumes inv: "handler_invar B t s" and i: "hash_next ch (handler_free s) = Some i"
    and dup: "c \<in> ran (handler_used B s)"
  shows "get_message_handler B ch t c s =
    (Returns (Inl (ListenerConfigAlreadyExists (Extern_fn_message_handler i))), s)"
proof -
  obtain g m where s: "s = (g, m)" by (cases s)
  have laws: "bimap_laws B" using inv by (rule handler_invar_laws)
  note i' = handler_invar_next [OF inv i, unfolded s fst_conv snd_conv]
  obtain j where j: "bm_get_by_right B m c = Some j"
    using dup bimap_right_None [OF laws] by (fastforce simp: s)
  show ?thesis
    using i j i' bimap_insert_taken [OF laws j]
    by (simp add: s get_message_handler_def registry_defs bimap_contains [OF laws]
        insert_absorb fun_upd_idem)
qed

lemma get_message_handler_new:
  assumes inv: "handler_invar B t s" and i: "hash_next ch (handler_free s) = Some i"
    and new: "c \<notin> ran (handler_used B s)"
  shows "\<exists>m'. get_message_handler B ch t c s =
      (Returns (Inr (Extern_fn_message_handler i)),
       \<lparr>free_message_handler_ids = handler_free s - {i},
        message_handler_id_to_transport_storage =
          (message_handler_id_to_transport_storage (fst s))(i \<mapsto> t)\<rparr>, m') \<and>
    bm_get_by_left B m' = (handler_used B s)(i \<mapsto> c)"
proof -
  obtain g m where s: "s = (g, m)" by (cases s)
  have laws: "bimap_laws B" using inv by (rule handler_invar_laws)
  note i' = handler_invar_next [OF inv i, unfolded s fst_conv snd_conv]
  have "bm_get_by_right B m c = None"
    using new bimap_right_None [OF laws] by (simp add: s)
  with bimap_insert_new [OF laws i'(4)] obtain m' where
    "bm_insert_no_overwrite B i c m = (True, m')"
    "bm_get_by_left B m' = (bm_get_by_left B m)(i \<mapsto> c)"
    by blast
  then show ?thesis
    using i i' by (simp add: s get_message_handler_def registry_defs)
qed

lemma release_message_handler_unknown:
  assumes "handler_invar B t s" "c \<notin> ran (handler_used B s)"
  shows "release_message_handler B c s =
    (Err (fail_with_code NOT_FOUND ''No listener_id for listener_config''), s)"
  using assms bimap_right_None [OF handler_invar_laws [OF assms(1)], of "snd s" c]
  by (cases s) (simp add: release_message_handler_def registry_defs)

lemma release_message_handler_known:
  assumes inv: "handler_invar B t s" and used: "handler_used B s i = Some c"
  shows "\<exists>m'. release_message_handler B c s =
      (Ok (), \<lparr>free_message_handler_ids = insert i (handler_free s),
        message_handler_id_to_transport_storage =
          (message_handler_id_to_transport_storage (fst s))(i := None)\<rparr>, m') \<and>
    bm_get_by_left B m' = (handler_used B s)(i := None)"
proof -
  obtain g m where s: "s = (g, m)" by (cases s)
  have laws: "bimap_laws B" using inv by (rule handler_invar_laws)
  have "bm_get_by_right B m c = Some i"
    using used bimap_right_iff [OF laws] by (simp add: s)
  moreover obtain m' where "bm_remove_by_left B i m = (Some (i, c), m')"
    "bm_get_by_left B m' = (bm_get_by_left B m)(i := None)"
    using bimap_remove [OF laws, of i m] used by (metis option.simps(9) s snd_conv)
  moreover have "message_handler_id_to_transport_storage g i = Some t"
    using inv used by (auto simp: handler_invar_def s)
  ultimately show ?thesis
    by (simp add: s release_message_handler_def registry_defs)
qed

lemma handler_invar_acquire:
  assumes inv: "handler_invar B t s" and i: "hash_next ch (handler_free s) = Some i"
    and m': "bm_get_by_left B m' = (handler_used B s)(i \<mapsto> c)"
  shows "handler_invar B t (\<lparr>free_message_handler_ids = handler_free s - {i},
      message_handler_id_to_transport_storage =
        (message_handler_id_to_transport_storage (fst s))(i \<mapsto> t)\<rparr>, m')"
  using inv handler_invar_next [OF inv i] m'
  by (cases s) (auto simp: handler_invar_def split: if_splits)

lemma handler_invar_release:
  assumes inv: "handler_invar B t s" and used: "handler_used B s i = Some c"
    and m': "bm_get_by_left B m' = (handler_used B s)(i := None)"
  shows "handler_invar B t (\<lparr>free_message_handler_ids = insert i (handler_free s),
      message_handler_id_to_transport_storage =
        (message_handler_id_to_transport_storage (fst s))(i := None)\<rparr>, m')"
  using inv handler_invar_used [OF inv used] m'
  by (cases s) (auto simp: handler_invar_def split: if_splits)

section \<open>The interface of a listener registry\<close>

text \<open>
  What the trait \<^verbatim>\<open>MessageHandlerRegistry\<close> promises the transport: a listener configuration gets a
  handler nobody else has, at most one, until it is released; a refused request changes
  nothing.
\<close>

locale listener_registry =
  fixes invar :: "'s \<Rightarrow> bool"
    and used :: "'s \<Rightarrow> nat \<rightharpoonup> 'c"
    and free :: "'s \<Rightarrow> nat set"
    and acquire :: "nat \<Rightarrow> 'c \<Rightarrow> 's \<Rightarrow>
      (get_message_handler_error + message_handler_fn_ptr) outcome \<times> 's"
    and release :: "'c \<Rightarrow> 's \<Rightarrow> unit result \<times> 's"
  assumes free_finite: "invar s \<Longrightarrow> finite (free s)"
    and used_inj: "invar s \<Longrightarrow> used s i = Some c \<Longrightarrow> used s j = Some c \<Longrightarrow> i = j"
    and used_not_free: "invar s \<Longrightarrow> used s i = Some c \<Longrightarrow> i \<notin> free s"
    and acquire_new: "invar s \<Longrightarrow> free s \<noteq> {} \<Longrightarrow> c \<notin> ran (used s) \<Longrightarrow>
      \<exists>i s'. acquire ch c s = (Returns (Inr (Extern_fn_message_handler i)), s') \<and>
        i \<in> free s \<and> invar s' \<and> used s' = (used s)(i \<mapsto> c) \<and> free s' = free s - {i}"
    and acquire_duplicate: "invar s \<Longrightarrow> free s \<noteq> {} \<Longrightarrow> c \<in> ran (used s) \<Longrightarrow>
      \<exists>f. acquire ch c s = (Returns (Inl (ListenerConfigAlreadyExists f)), s)"
    and acquire_full: "invar s \<Longrightarrow> free s = {} \<Longrightarrow>
      \<exists>m. acquire ch c s =
        (Returns (Inl (OtherError (fail_with_code RESOURCE_EXHAUSTED m))), s)"
    and release_known: "invar s \<Longrightarrow> used s i = Some c \<Longrightarrow>
      \<exists>s'. release c s = (Ok (), s') \<and> invar s' \<and> used s' = (used s)(i := None) \<and>
        free s' = insert i (free s)"
    and release_unknown: "invar s \<Longrightarrow> c \<notin> ran (used s) \<Longrightarrow>
      \<exists>m. release c s = (Err (fail_with_code NOT_FOUND m), s)"
begin

lemma free_not_used: "invar s \<Longrightarrow> i \<in> free s \<Longrightarrow> used s i = None"
  by (cases "used s i") (auto dest: used_not_free)

lemma acquire_invar: "invar s \<Longrightarrow> invar (snd (acquire ch c s))"
  by (metis acquire_new acquire_duplicate acquire_full snd_conv)

lemma release_invar:
  assumes "invar s" shows "invar (snd (release c s))"
proof (cases "c \<in> ran (used s)")
  case True
  then obtain i where "used s i = Some c" by (auto simp: ran_def)
  with assms show ?thesis using release_known by fastforce
next
  case False
  with assms show ?thesis using release_unknown by fastforce
qed

lemma acquire_never_panics: "invar s \<Longrightarrow> fst (acquire ch c s) \<noteq> Panics"
  by (metis acquire_new acquire_duplicate acquire_full fst_conv outcome.distinct(1))

lemma acquire_ok_iff:
  assumes "invar s"
  shows "(\<exists>f. fst (acquire ch c s) = Returns (Inr f)) \<longleftrightarrow> free s \<noteq> {} \<and> c \<notin> ran (used s)"
  using acquire_new [OF assms, of c ch] acquire_duplicate [OF assms, of c ch]
    acquire_full [OF assms, of ch c] by fastforce

lemma acquire_error_keeps: "invar s \<Longrightarrow> acquire ch c s = (Returns (Inl e), s') \<Longrightarrow> s' = s"
  by (metis acquire_new acquire_duplicate acquire_full Inl_Inr_False outcome.inject prod.inject)

lemma acquire_release:
  assumes inv: "invar s" and ok: "acquire ch c s = (Returns (Inr f), s')"
  shows "\<exists>s''. release c s' = (Ok (), s'') \<and> invar s'' \<and> used s'' = used s \<and> free s'' = free s"
proof -
  have "free s \<noteq> {} \<and> c \<notin> ran (used s)" using acquire_ok_iff [OF inv, of ch c] ok by auto
  with acquire_new [OF inv, of c ch] ok obtain i where i: "i \<in> free s" "invar s'"
    "used s' = (used s)(i \<mapsto> c)" "free s' = free s - {i}" by auto
  have "used s i = None" using inv i(1) by (rule free_not_used)
  moreover have "used s' i = Some c" by (simp add: i)
  ultimately show ?thesis
    using release_known [OF i(2), of i c] i by (auto simp: fun_upd_idem insert_absorb)
qed

end

interpretation handler_pool: listener_registry "handler_invar B t" "handler_used B" handler_free
    "\<lambda>ch. get_message_handler B ch t" "release_message_handler B" for B t
proof unfold_locales
  fix s :: "handler_statics \<times> 'a" and c :: 'b and i j ch :: nat
  assume inv: "handler_invar B t s"
  note laws = handler_invar_laws [OF inv]
  show "finite (handler_free s)" using inv by (rule handler_invar_finite)
  show "handler_used B s i = Some c \<Longrightarrow> handler_used B s j = Some c \<Longrightarrow> i = j"
    using bimap_left_inj [OF laws] by blast
  show "handler_used B s i = Some c \<Longrightarrow> i \<notin> handler_free s"
    using handler_invar_used(3) [OF inv] by blast
  show "handler_free s = {} \<Longrightarrow> \<exists>m. get_message_handler B ch t c s =
      (Returns (Inl (OtherError (fail_with_code RESOURCE_EXHAUSTED m))), s)"
    using get_message_handler_full [OF inv] by blast
  show "handler_free s \<noteq> {} \<Longrightarrow> c \<in> ran (handler_used B s) \<Longrightarrow>
      \<exists>f. get_message_handler B ch t c s = (Returns (Inl (ListenerConfigAlreadyExists f)), s)"
    using get_message_handler_duplicate [OF inv] by (meson hash_next_None not_None_eq)
  show "c \<notin> ran (handler_used B s) \<Longrightarrow>
      \<exists>m. release_message_handler B c s = (Err (fail_with_code NOT_FOUND m), s)"
    using release_message_handler_unknown [OF inv] by blast
  show "\<exists>i s'. get_message_handler B ch t c s =
        (Returns (Inr (Extern_fn_message_handler i)), s') \<and> i \<in> handler_free s \<and>
      handler_invar B t s' \<and> handler_used B s' = (handler_used B s)(i \<mapsto> c) \<and>
      handler_free s' = handler_free s - {i}"
    if free: "handler_free s \<noteq> {}" and new: "c \<notin> ran (handler_used B s)"
  proof -
    obtain i where i: "hash_next ch (handler_free s) = Some i"
      using free by (meson hash_next_None not_None_eq)
    from get_message_handler_new [OF inv i new] show ?thesis
      using handler_invar_acquire [OF inv i] handler_invar_next(1) [OF inv i] by fastforce
  qed
  show "\<exists>s'. release_message_handler B c s = (Ok (), s') \<and> handler_invar B t s' \<and>
      handler_used B s' = (handler_used B s)(i := None) \<and>
      handler_free s' = insert i (handler_free s)"
    if used: "handler_used B s i = Some c"
    using release_message_handler_known [OF inv used] handler_invar_release [OF inv used] by force
qed

end
