(* ===== verification/Vsomeip_Sys.thy ===== *)
theory Vsomeip_Sys
  imports Message_Handler_Registry
begin

text \<open>
  The crate \<^verbatim>\<open>vsomeip-sys\<close> as the transport sees it: the data types of vsomeip, its messages and
  payloads, the safe wrappers of \<^verbatim>\<open>vsomeip-sys/src/glue_additions.rs\<close>, and the vsomeip library
  behind them.

  vsomeip itself is a C++ library outside this repository. What the program asks of it is
  recorded as a list of calls, each with the application it was made on, in the order they
  were made (\<open>vsomeip_log\<close>). What vsomeip answers is the record \<open>vsomeip_api\<close> of functions of
  that list; nothing is assumed of them but, where a theorem says so, \<open>request_law\<close>.
\<close>

section \<open>Data types of vsomeip\<close>

datatype message_type_e =
    MT_ERROR | MT_ERROR_ACK | MT_NOTIFICATION | MT_NOTIFICATION_ACK | MT_REQUEST
  | MT_REQUEST_ACK | MT_REQUEST_NO_RETURN | MT_REQUEST_NO_RETURN_ACK | MT_RESPONSE
  | MT_RESPONSE_ACK | MT_UNKNOWN

text \<open>The return codes the sources name; \<open>E_OTHER\<close> is any other.\<close>

datatype return_code_e =
    E_OK | E_NOT_OK | E_UNKNOWN_SERVICE | E_UNKNOWN_METHOD | E_NOT_READY | E_NOT_REACHABLE
  | E_TIMEOUT | E_WRONG_PROTOCOL_VERSION | E_WRONG_INTERFACE_VERSION | E_MALFORMED_MESSAGE
  | E_WRONG_MESSAGE_TYPE | E_OTHER u8

datatype state_type_e = ST_REGISTERED | ST_DEREGISTERED

text \<open>The texts \<^verbatim>\<open>Display\<close> gives the two enumerations.\<close>

fun state_type_text :: "state_type_e \<Rightarrow> string" where
  "state_type_text ST_REGISTERED = ''ST_REGISTERED''"
| "state_type_text ST_DEREGISTERED = ''ST_DEREGISTERED''"

fun message_type_text :: "message_type_e \<Rightarrow> string" where
  "message_type_text MT_ERROR = ''MT_ERROR''"
| "message_type_text MT_ERROR_ACK = ''MT_ERROR_ACK''"
| "message_type_text MT_NOTIFICATION = ''MT_NOTIFICATION''"
| "message_type_text MT_NOTIFICATION_ACK = ''MT_NOTIFICATION_ACK''"
| "message_type_text MT_REQUEST = ''MT_REQUEST''"
| "message_type_text MT_REQUEST_ACK = ''MT_REQUEST_ACK''"
| "message_type_text MT_REQUEST_NO_RETURN = ''MT_REQUEST_NO_RETURN''"
| "message_type_text MT_REQUEST_NO_RETURN_ACK = ''MT_REQUEST_NO_RETURN_ACK''"
| "message_type_text MT_RESPONSE = ''MT_RESPONSE''"
| "message_type_text MT_RESPONSE_ACK = ''MT_RESPONSE_ACK''"
| "message_type_text MT_UNKNOWN = ''MT_UNKNOWN''"

section \<open>Payloads and messages\<close>

text \<open>
  A payload is a byte buffer with a 32-bit length, or a null pointer. A message has the fields
  the sources set or read through \<^verbatim>\<open>message_base\<close>, and a payload unless its payload pointer
  is null.
\<close>

type_synonym vsomeip_payload = "u8 list option"

record vsomeip_message =
  msg_service :: ServiceId
  msg_instance :: InstanceId
  msg_method :: MethodId
  msg_client :: ClientId
  msg_session :: SessionId
  msg_interface_version :: u8
  msg_message_type :: message_type_e
  msg_return_code :: return_code_e
  msg_payload :: "vsomeip_payload option"

text \<open>\<^verbatim>\<open>data.len() as u32\<close> keeps the low 32 bits of the length; that many bytes are copied.\<close>

definition set_data_safe :: "u8 list \<Rightarrow> vsomeip_payload" where
  "set_data_safe data =
     (let len = (of_nat (length data) :: u32) in Some (take (unat len) data))"

definition get_data_safe :: "vsomeip_payload \<Rightarrow> u8 list" where
  "get_data_safe payload =
     (case payload of
        None \<Rightarrow> []
      | Some data \<Rightarrow> let len = (of_nat (length data) :: u32) in take (unat len) data)"

definition set_message_payload :: "vsomeip_payload \<Rightarrow> vsomeip_message \<Rightarrow> vsomeip_message" where
  "set_message_payload payload m = m\<lparr>msg_payload := Some payload\<rparr>"

definition get_message_payload :: "vsomeip_message \<Rightarrow> vsomeip_payload option" where
  "get_message_payload m =
     (case msg_payload m of None \<Rightarrow> None | Some payload \<Rightarrow> Some payload)"

section \<open>The calls the program makes\<close>

datatype available_state_handler_fn_ptr = Available_state_handler_extern_fn nat

datatype vsomeip_call =
    Create_application "string option"
  | Init
  | Register_state_handler available_state_handler_fn_ptr
  | Unregister_state_handler
  | Start
  | Stop
  | Offer_service ServiceId InstanceId u8 u32
  | Request_service ServiceId InstanceId u8 u32
  | Offer_event ServiceId InstanceId EventId "u16 set"
  | Request_event ServiceId InstanceId EventId "u16 set"
  | Subscribe ServiceId InstanceId u16 u8 EventId
  | Register_message_handler ServiceId InstanceId MethodId message_handler_fn_ptr
  | Unregister_message_handler ServiceId InstanceId MethodId
  | Notify ServiceId InstanceId EventId vsomeip_payload bool
  | Send vsomeip_message

type_synonym vsomeip_log = "(ApplicationName \<times> vsomeip_call) list"

record vsomeip_api =
  get_application :: "vsomeip_log \<Rightarrow> ApplicationName \<Rightarrow> bool"
  create_application :: "vsomeip_log \<Rightarrow> ApplicationName \<Rightarrow> string option \<Rightarrow> bool"
  get_client :: "vsomeip_log \<Rightarrow> ApplicationName \<Rightarrow> ClientId"
  create_request :: "bool \<Rightarrow> vsomeip_message"
  create_message :: "bool \<Rightarrow> vsomeip_message"
  get_request :: "vsomeip_message \<Rightarrow> SomeIpRequestId"
  ANY_INSTANCE :: InstanceId
  ANY_MAJOR :: u8
  ANY_MINOR :: u32
  DEFAULT_MINOR :: u32

definition vsomeip_do :: "ApplicationName \<Rightarrow> vsomeip_call \<Rightarrow> vsomeip_log \<Rightarrow> vsomeip_log" where
  "vsomeip_do app call log = log @ [(app, call)]"

text \<open>A request id is the client id followed by the session id, 16 bits each.\<close>

definition request_law :: "vsomeip_api \<Rightarrow> bool" where
  "request_law V \<longleftrightarrow> (\<forall>m. get_request V m =
     push_bit 16 (ucast (msg_client m)) OR ucast (msg_session m))"

section \<open>The safe wrappers\<close>

text \<open>A null pointer from vsomeip becomes \<open>None\<close>, any other an application.\<close>

definition make_application_wrapper :: "ApplicationName \<Rightarrow> bool \<Rightarrow> ApplicationName option" where
  "make_application_wrapper app_name found = (if \<not> found then None else Some app_name)"

text \<open>
  The C++ functions of \<^verbatim>\<open>application_registrations.cpp\<close>, which make the sets and \<^verbatim>\<open>std::function\<close>s vsomeip
  asks for, and the Rust functions that call them. A function object made from a pointer is known by
  the pointer.
\<close>

definition request_single_event ::
    "ApplicationName \<Rightarrow> ServiceId \<Rightarrow> InstanceId \<Rightarrow> EventId \<Rightarrow> u16 \<Rightarrow> vsomeip_log \<Rightarrow> vsomeip_log" where
  "request_single_event app service inst notifier eventgroup =
     (let eventgroups = {eventgroup} in vsomeip_do app (Request_event service inst notifier eventgroups))"

definition offer_single_event ::
    "ApplicationName \<Rightarrow> ServiceId \<Rightarrow> InstanceId \<Rightarrow> EventId \<Rightarrow> u16 \<Rightarrow> vsomeip_log \<Rightarrow> vsomeip_log" where
  "offer_single_event app service inst notifier eventgroup =
     (let eventgroups = {eventgroup} in vsomeip_do app (Offer_event service inst notifier eventgroups))"

definition register_message_handler_fn_ptr ::
    "ApplicationName \<Rightarrow> ServiceId \<Rightarrow> InstanceId \<Rightarrow> MethodId \<Rightarrow> message_handler_fn_ptr \<Rightarrow>
     vsomeip_log \<Rightarrow> vsomeip_log" where
  "register_message_handler_fn_ptr app service inst meth fn_ptr_handler =
     vsomeip_do app (Register_message_handler service inst meth fn_ptr_handler)"

definition register_state_handler_fn_ptr ::
    "ApplicationName \<Rightarrow> available_state_handler_fn_ptr \<Rightarrow> vsomeip_log \<Rightarrow> vsomeip_log" where
  "register_state_handler_fn_ptr app fn_ptr_handler = vsomeip_do app (Register_state_handler fn_ptr_handler)"

definition request_single_event_safe ::
    "ApplicationName \<Rightarrow> ServiceId \<Rightarrow> InstanceId \<Rightarrow> EventId \<Rightarrow> u16 \<Rightarrow> vsomeip_log \<Rightarrow> vsomeip_log" where
  "request_single_event_safe app service inst notifier eventgroup =
     request_single_event app service inst notifier eventgroup"

definition offer_single_event_safe ::
    "ApplicationName \<Rightarrow> ServiceId \<Rightarrow> InstanceId \<Rightarrow> EventId \<Rightarrow> u16 \<Rightarrow> vsomeip_log \<Rightarrow> vsomeip_log" where
  "offer_single_event_safe app service inst notifier eventgroup =
     offer_single_event app service inst notifier eventgroup"

definition register_message_handler_fn_ptr_safe ::
    "ApplicationName \<Rightarrow> ServiceId \<Rightarrow> InstanceId \<Rightarrow> MethodId \<Rightarrow> message_handler_fn_ptr \<Rightarrow>
     vsomeip_log \<Rightarrow> vsomeip_log" where
  "register_message_handler_fn_ptr_safe app service inst meth fn_ptr_handler =
     register_message_handler_fn_ptr app service inst meth fn_ptr_handler"

definition register_state_handler_fn_ptr_safe ::
    "ApplicationName \<Rightarrow> available_state_handler_fn_ptr \<Rightarrow> vsomeip_log \<Rightarrow> vsomeip_log" where
  "register_state_handler_fn_ptr_safe app fn_ptr_handler = register_state_handler_fn_ptr app fn_ptr_handler"

lemmas vsomeip_call_defs [engine_defs] =
  vsomeip_do_def Let_def request_single_event_safe_def offer_single_event_safe_def
  register_message_handler_fn_ptr_safe_def register_state_handler_fn_ptr_safe_def
  request_single_event_def offer_single_event_def register_message_handler_fn_ptr_def
  register_state_handler_fn_ptr_def

text \<open>
  One vsomeip that behaves as documented, for closed examples: every application but
  \<^verbatim>\<open>missing\<close> exists, a new application can be created, every client id is the given one.
\<close>

definition blank_message :: "message_type_e \<Rightarrow> vsomeip_message" where
  "blank_message t = \<lparr>msg_service = 0, msg_instance = 0, msg_method = 0, msg_client = 0,
     msg_session = 0, msg_interface_version = 0, msg_message_type = t, msg_return_code = E_OK,
     msg_payload = None\<rparr>"

definition example_vsomeip :: "ClientId \<Rightarrow> vsomeip_api" where
  "example_vsomeip c = \<lparr>
     get_application = (\<lambda>log app. app \<noteq> ''missing''),
     create_application = (\<lambda>log app path. True),
     get_client = (\<lambda>log app. c),
     create_request = (\<lambda>reliable. blank_message MT_REQUEST),
     create_message = (\<lambda>reliable. blank_message MT_UNKNOWN),
     get_request = (\<lambda>m. push_bit 16 (ucast (msg_client m)) OR ucast (msg_session m)),
     ANY_INSTANCE = 0xFFFF, ANY_MAJOR = 0xFF, ANY_MINOR = 0xFFFFFFFF, DEFAULT_MINOR = 0\<rparr>"

section \<open>Lemmas\<close>

lemma example_request_law [simp]: "request_law (example_vsomeip c)"
  by (simp add: request_law_def example_vsomeip_def)

lemma example_vsomeip_simps [simp]:
  "get_application (example_vsomeip c) log app \<longleftrightarrow> app \<noteq> ''missing''"
  "create_application (example_vsomeip c) log app path"
  "get_client (example_vsomeip c) log app = c"
  "create_request (example_vsomeip c) reliable = blank_message MT_REQUEST"
  "create_message (example_vsomeip c) reliable = blank_message MT_UNKNOWN"
  "get_request (example_vsomeip c) m = push_bit 16 (ucast (msg_client m)) OR ucast (msg_session m)"
  by (simp_all add: example_vsomeip_def)

lemma make_application_wrapper_None [simp]:
  "make_application_wrapper app found = None \<longleftrightarrow> \<not> found"
  by (simp add: make_application_wrapper_def)

lemma make_application_wrapper_Some [simp]:
  "make_application_wrapper app found = Some app' \<longleftrightarrow> found \<and> app' = app"
  by (auto simp: make_application_wrapper_def)

lemma take_u32_length:
  "length data < 2 ^ 32 \<Longrightarrow> take (unat (of_nat (length data) :: u32)) data = data"
  by (simp add: unat_of_nat take_bit_nat_eq_self)

lemma set_get_data_safe:
  "length data < 2 ^ 32 \<Longrightarrow> get_data_safe (set_data_safe data) = data"
  by (simp add: get_data_safe_def set_data_safe_def take_u32_length)

section \<open>Properties\<close>

text \<open>
  A payload put into a vsomeip message is read back byte for byte as long as it is shorter
  than 4 GiB; of a longer one, the bytes that survive are the first ones, as many as the
  length modulo \<open>2 ^ 32\<close> says.
\<close>

theorem payload_roundtrip:
  "map_option get_data_safe (get_message_payload (set_message_payload (set_data_safe data) m)) =
     Some (take (length data mod 2 ^ 32) data) \<and>
   (length data < 2 ^ 32 \<longrightarrow>
     map_option get_data_safe (get_message_payload (set_message_payload (set_data_safe data) m)) =
       Some data)"
proof -
  let ?n = "length data mod 2 ^ 32"
  have n: "unat (of_nat (length data) :: u32) = ?n"
    by (simp add: unat_of_nat take_bit_eq_mod)
  have "length (take ?n data) = ?n" by (simp add: min_def)
  then have "get_data_safe (set_data_safe data) = take ?n data"
    by (simp add: get_data_safe_def set_data_safe_def n unat_of_nat take_bit_eq_mod)
  then show ?thesis
    by (simp add: get_message_payload_def set_message_payload_def)
qed

theorem payload_roundtrip_witness:
  "map_option get_data_safe
     (get_message_payload (set_message_payload (set_data_safe [1, 2, 3]) (blank_message MT_REQUEST))) =
   Some [1, 2, 3]"
  using payload_roundtrip [of "[1, 2, 3]" "blank_message MT_REQUEST"] by simp

end
