(* ===== verification/Rpc_Correlation.thy ===== *)
theory Rpc_Correlation
  imports Utils
begin

text \<open>
  \<^verbatim>\<open>up-transport-vsomeip/src/storage/rpc_correlation.rs\<close>: which SOME/IP request belongs to which
  uProtocol request, in both directions, and the session ids handed out per client.

  A \<^verbatim>\<open>HashMap\<close> is a partial map. Each map is behind its own lock; an operation takes one lock
  for its whole body, so it is one step on the record. \<^verbatim>\<open>*current += 1\<close> on a \<^verbatim>\<open>u16\<close> panics at
  65535 in a build with overflow checks and wraps in one without; the build is the argument
  \<open>overflow_checks\<close>. The panic happens while the lock is held, so it poisons the lock, and
  every later \<^verbatim>\<open>write().unwrap()\<close> panics.
\<close>

section \<open>Definitions\<close>

record rpc_correlation =
  ue_request_correlation :: "SomeIpRequestId \<rightharpoonup> uuid \<times> uuri"
  me_request_correlation :: "uuid \<rightharpoonup> SomeIpRequestId"
  client_id_session_id_tracking :: "ClientId \<rightharpoonup> SessionId"
  tracking_poisoned :: bool

definition rpc_correlation_new :: rpc_correlation where
  "rpc_correlation_new = \<lparr>ue_request_correlation = Map.empty,
     me_request_correlation = Map.empty, client_id_session_id_tracking = Map.empty,
     tracking_poisoned = False\<rparr>"

definition retrieve_session_id ::
    "bool \<Rightarrow> ClientId \<Rightarrow> rpc_correlation \<Rightarrow> SessionId outcome \<times> rpc_correlation" where
  "retrieve_session_id overflow_checks client_id r =
     (if tracking_poisoned r then (Panics, r)
      else
        let current_session_id =
              (case client_id_session_id_tracking r client_id of Some s \<Rightarrow> s | None \<Rightarrow> 1);
            entry_inserted = r\<lparr>client_id_session_id_tracking :=
              (client_id_session_id_tracking r)(client_id \<mapsto> current_session_id)\<rparr>
        in if overflow_checks \<and> current_session_id = 0xFFFF
           then (Panics, entry_inserted\<lparr>tracking_poisoned := True\<rparr>)
           else (Returns current_session_id,
                 entry_inserted\<lparr>client_id_session_id_tracking :=
                   (client_id_session_id_tracking r)(client_id \<mapsto> current_session_id + 1)\<rparr>))"

definition insert_ue_request_correlation ::
    "SomeIpRequestId \<Rightarrow> uuid \<Rightarrow> uuri \<Rightarrow> rpc_correlation \<Rightarrow> unit result \<times> rpc_correlation" where
  "insert_ue_request_correlation someip_request_id uprotocol_req_id source_uri r =
     (case ue_request_correlation r someip_request_id of
        Some occ \<Rightarrow>
          (Err (fail_with_code ALREADY_EXISTS
             ''UE_REQUEST_CORRELATION: Already exists therefore rejecting, occupied: {occ:?}''), r)
      | None \<Rightarrow>
          (Ok (), r\<lparr>ue_request_correlation :=
             (ue_request_correlation r)(someip_request_id \<mapsto> (uprotocol_req_id, source_uri))\<rparr>))"

definition remove_ue_request_correlation ::
    "SomeIpRequestId \<Rightarrow> rpc_correlation \<Rightarrow> (uuid \<times> uuri) result \<times> rpc_correlation" where
  "remove_ue_request_correlation someip_request_id r =
     (case ue_request_correlation r someip_request_id of
        None \<Rightarrow>
          (Err (fail_with_code NOT_FOUND
             ''Corresponding reqid not found for this SOME/IP RESPONSE: {}''), r)
      | Some (uprotocol_req_id, source_uri) \<Rightarrow>
          (Ok (uprotocol_req_id, source_uri), r\<lparr>ue_request_correlation :=
             (ue_request_correlation r)(someip_request_id := None)\<rparr>))"

definition insert_me_request_correlation ::
    "uuid \<Rightarrow> SomeIpRequestId \<Rightarrow> rpc_correlation \<Rightarrow> unit result \<times> rpc_correlation" where
  "insert_me_request_correlation uprotocol_req_id someip_request_id r =
     (case me_request_correlation r uprotocol_req_id of
        Some occ \<Rightarrow>
          (Err (fail_with_code ALREADY_EXISTS
             ''ME_REQUEST_CORRELATION: Already exists therefore rejecting, occupied: {occ:?}''), r)
      | None \<Rightarrow>
          (Ok (), r\<lparr>me_request_correlation :=
             (me_request_correlation r)(uprotocol_req_id \<mapsto> someip_request_id)\<rparr>))"

definition remove_me_request_correlation ::
    "uuid \<Rightarrow> rpc_correlation \<Rightarrow> SomeIpRequestId result \<times> rpc_correlation" where
  "remove_me_request_correlation uprotocol_req_id r =
     (case me_request_correlation r uprotocol_req_id of
        None \<Rightarrow>
          (Err (fail_with_code NOT_FOUND
             ''Corresponding SOME/IP Request ID not found for this Request UMessage's reqid: {}''), r)
      | Some someip_request_id \<Rightarrow>
          (Ok someip_request_id, r\<lparr>me_request_correlation :=
             (me_request_correlation r)(uprotocol_req_id := None)\<rparr>))"

text \<open>A client's requests one after the other, with the session id each was given.\<close>

fun session_run ::
    "bool \<Rightarrow> ClientId \<Rightarrow> nat \<Rightarrow> rpc_correlation \<Rightarrow> SessionId outcome list \<times> rpc_correlation" where
  "session_run oc c 0 r = ([], r)"
| "session_run oc c (Suc n) r =
     (let (s, r1) = retrieve_session_id oc c r; (ss, r2) = session_run oc c n r1
      in (s # ss, r2))"

text \<open>The calls of the registry that change it, as data, and their effect.\<close>

datatype rpc_op =
    Retrieve_session bool ClientId
  | Insert_ue SomeIpRequestId uuid uuri
  | Remove_ue SomeIpRequestId
  | Insert_me uuid SomeIpRequestId
  | Remove_me uuid

fun rpc_apply :: "rpc_op \<Rightarrow> rpc_correlation \<Rightarrow> rpc_correlation" where
  "rpc_apply (Retrieve_session oc c) r = snd (retrieve_session_id oc c r)"
| "rpc_apply (Insert_ue i q u) r = snd (insert_ue_request_correlation i q u r)"
| "rpc_apply (Remove_ue i) r = snd (remove_ue_request_correlation i r)"
| "rpc_apply (Insert_me q i) r = snd (insert_me_request_correlation q i r)"
| "rpc_apply (Remove_me q) r = snd (remove_me_request_correlation q r)"

lemmas rpc_correlation_defs [registry_defs] =
  retrieve_session_id_def insert_ue_request_correlation_def remove_ue_request_correlation_def
  insert_me_request_correlation_def remove_me_request_correlation_def

section \<open>The interface of a correlation table\<close>

text \<open>
  Both correlation maps of the trait \<^verbatim>\<open>RpcCorrelationRegistry\<close> obey one contract: \<open>put\<close> stores a
  value under a free key and refuses a taken one, \<open>take\<close> hands a stored value out once.
\<close>

locale correlation_table =
  fixes view :: "'s \<Rightarrow> 'k \<rightharpoonup> 'v"
    and put :: "'k \<Rightarrow> 'v \<Rightarrow> 's \<Rightarrow> unit result \<times> 's"
    and take_out :: "'k \<Rightarrow> 's \<Rightarrow> 'v result \<times> 's"
  assumes put_free:
      "view s k = None \<Longrightarrow> \<exists>s'. put k v s = (Ok (), s') \<and> view s' = (view s)(k \<mapsto> v)"
    and put_taken:
      "view s k = Some w \<Longrightarrow> \<exists>m. put k v s = (Err (fail_with_code ALREADY_EXISTS m), s)"
    and take_stored:
      "view s k = Some v \<Longrightarrow> \<exists>s'. take_out k s = (Ok v, s') \<and> view s' = (view s)(k := None)"
    and take_absent:
      "view s k = None \<Longrightarrow> \<exists>m. take_out k s = (Err (fail_with_code NOT_FOUND m), s)"
begin

lemma put_ok_iff: "fst (put k v s) = Ok () \<longleftrightarrow> view s k = None"
proof (cases "view s k")
  case None
  then show ?thesis using put_free [of s k v] by auto
next
  case (Some w)
  then show ?thesis using put_taken [of s k w v] by auto
qed

lemma take_ok_iff: "fst (take_out k s) = Ok v \<longleftrightarrow> view s k = Some v"
proof (cases "view s k")
  case None
  then show ?thesis using take_absent [of s k] by auto
next
  case (Some w)
  then show ?thesis using take_stored [of s k w] by auto
qed

lemma put_take:
  assumes "put k v s = (Ok (), s')"
  shows "\<exists>s''. take_out k s' = (Ok v, s'') \<and> view s'' = view s"
proof -
  from assms have free: "view s k = None" using put_ok_iff [of k v s] by simp
  with assms have "view s' = (view s)(k \<mapsto> v)" using put_free [of s k v] by auto
  with free show ?thesis using take_stored [of s' k v] by (auto simp: fun_upd_idem_iff)
qed

lemma take_once:
  assumes "take_out k s = (Ok v, s')"
  shows "\<exists>m. take_out k s' = (Err (fail_with_code NOT_FOUND m), s')"
proof -
  from assms have "view s k = Some v" using take_ok_iff [of k s v] by simp
  with assms have "view s' k = None" using take_stored [of s k v] by auto
  then show ?thesis by (rule take_absent)
qed

lemma take_after_steps:
  assumes "put k v s = (Ok (), s')"
    and "\<And>x t. x \<in> set xs \<Longrightarrow> view t k = Some v \<Longrightarrow> view (f x t) k = Some v"
  shows "fst (take_out k (fold f xs s')) = Ok v"
proof -
  have "view t k = Some v \<Longrightarrow> view (fold f xs t) k = Some v" for t
    using assms(2) by (induction xs arbitrary: t) auto
  moreover have "view s' k = Some v"
    using assms(1) put_free [of s k v] put_ok_iff [of k v s] by auto
  ultimately show ?thesis by (simp add: take_ok_iff)
qed

end

section \<open>The in-memory registry implements it, twice\<close>

interpretation ue_table: correlation_table ue_request_correlation
  "\<lambda>i v. insert_ue_request_correlation i (fst v) (snd v)" remove_ue_request_correlation
  by unfold_locales
    (auto simp: insert_ue_request_correlation_def remove_ue_request_correlation_def)

interpretation me_table: correlation_table me_request_correlation
  insert_me_request_correlation remove_me_request_correlation
  by unfold_locales
    (auto simp: insert_me_request_correlation_def remove_me_request_correlation_def)

section \<open>Session ids\<close>

definition next_session :: "ClientId \<Rightarrow> rpc_correlation \<Rightarrow> SessionId" where
  "next_session c r = (case client_id_session_id_tracking r c of Some s \<Rightarrow> s | None \<Rightarrow> 1)"

lemma retrieve_session_id_step:
  assumes "\<not> tracking_poisoned r" and "oc \<longrightarrow> next_session c r \<noteq> 0xFFFF"
  shows "fst (retrieve_session_id oc c r) = Returns (next_session c r) \<and>
    next_session c (snd (retrieve_session_id oc c r)) = next_session c r + 1 \<and>
    \<not> tracking_poisoned (snd (retrieve_session_id oc c r))"
  using assms by (simp add: retrieve_session_id_def next_session_def Let_def)

lemma retrieve_session_id_other_client:
  "c' \<noteq> c \<Longrightarrow> next_session c' (snd (retrieve_session_id oc c r)) = next_session c' r"
  by (simp add: retrieve_session_id_def next_session_def Let_def)

lemma retrieve_session_id_overflow:
  assumes "\<not> tracking_poisoned r" and "next_session c r = 0xFFFF"
  shows "fst (retrieve_session_id True c r) = Panics \<and>
    tracking_poisoned (snd (retrieve_session_id True c r))"
  using assms by (simp add: retrieve_session_id_def next_session_def Let_def)

lemma session_run_poisoned:
  "tracking_poisoned r \<Longrightarrow> session_run oc c n r = (replicate n Panics, r)"
  by (induction n) (simp_all add: retrieve_session_id_def)

lemma session_run_add:
  "session_run oc c (m + n) r =
     (let (ss, r1) = session_run oc c m r; (ts, r2) = session_run oc c n r1 in (ss @ ts, r2))"
  by (induction m arbitrary: r) (simp_all add: Let_def split: prod.splits)

lemma word_of_nat_Suc_add: "(w :: SessionId) + 1 + of_nat i = w + of_nat (Suc i)"
  by simp

lemma session_run_counts:
  assumes "\<not> tracking_poisoned r" and "oc \<longrightarrow> unat (next_session c r) + n \<le> 0xFFFF"
  shows "fst (session_run oc c n r) = map (\<lambda>i. Returns (next_session c r + of_nat i)) [0..<n] \<and>
    next_session c (snd (session_run oc c n r)) = next_session c r + of_nat n \<and>
    \<not> tracking_poisoned (snd (session_run oc c n r))"
  using assms
proof (induction n arbitrary: r)
  case 0
  then show ?case by simp
next
  case (Suc n)
  let ?r1 = "snd (retrieve_session_id oc c r)"
  have "oc \<longrightarrow> next_session c r \<noteq> 0xFFFF"
    using Suc.prems(2) by (auto dest: arg_cong [where f = unat])
  from retrieve_session_id_step [OF Suc.prems(1) this]
  have step: "fst (retrieve_session_id oc c r) = Returns (next_session c r)"
    "next_session c ?r1 = next_session c r + 1" "\<not> tracking_poisoned ?r1"
    by simp_all
  have "oc \<longrightarrow> unat (next_session c ?r1) + n \<le> 0xFFFF"
    using Suc.prems(2) step(2) by (auto simp: unat_word_ariths)
  with Suc.IH [of ?r1] step show ?case
    by (simp add: Let_def case_prod_unfold map_upt_Suc del: upt_Suc)
qed

lemma session_run_saturates:
  assumes "\<not> tracking_poisoned r" and "unat (next_session c r) + n = 0xFFFF"
  shows "fst (session_run True c (n + Suc k) r) =
      map (\<lambda>i. Returns (next_session c r + of_nat i)) [0..<n] @ replicate (Suc k) Panics \<and>
    tracking_poisoned (snd (session_run True c (n + Suc k) r))"
proof -
  obtain ss r1 where run: "session_run True c n r = (ss, r1)"
    by (cases "session_run True c n r")
  have "next_session c r + of_nat n = of_nat (unat (next_session c r) + n)"
    by simp
  then have "next_session c r + of_nat n = 0xFFFF"
    unfolding assms(2) by simp
  with assms session_run_counts [of r True c n] run
  have r1: "ss = map (\<lambda>i. Returns (next_session c r + of_nat i)) [0..<n]"
    "next_session c r1 = 0xFFFF" "\<not> tracking_poisoned r1"
    by simp_all
  obtain r2 where r2: "retrieve_session_id True c r1 = (Panics, r2)" "tracking_poisoned r2"
    using retrieve_session_id_overflow [OF r1(3,2)] by (metis prod.collapse)
  show ?thesis
    unfolding session_run_add by (simp add: run r1(1) r2 session_run_poisoned)
qed

lemma session_run_fresh:
  "next_session c rpc_correlation_new = 1" "\<not> tracking_poisoned rpc_correlation_new"
  by (simp_all add: next_session_def rpc_correlation_new_def)

lemma rpc_apply_keeps_ue:
  "x \<noteq> Remove_ue i \<Longrightarrow> ue_request_correlation r i = Some v \<Longrightarrow>
   ue_request_correlation (rpc_apply x r) i = Some v"
  by (cases x) (auto simp: registry_defs Let_def split: option.split)

lemma rpc_apply_keeps_me:
  "x \<noteq> Remove_me q \<Longrightarrow> me_request_correlation r q = Some v \<Longrightarrow>
   me_request_correlation (rpc_apply x r) q = Some v"
  by (cases x) (auto simp: registry_defs Let_def split: option.split)

section \<open>Properties\<close>

text \<open>
  A correlation entry outlives any other traffic: once stored, it is handed out unchanged
  after every sequence of registry calls that does not take that very entry (attempts to
  store a second value under its key included), and it is handed out only once: the next
  attempt fails with \<open>NOT_FOUND\<close>. This holds for both directions.
\<close>

theorem correlation_survives_other_traffic:
  assumes "insert_ue_request_correlation i q u r = (Ok (), r1)" and "Remove_ue i \<notin> set ops"
    and "insert_me_request_correlation q' i' r = (Ok (), r2)" and "Remove_me q' \<notin> set ops"
  shows "\<exists>r1' m1 r2' m2.
    remove_ue_request_correlation i (fold rpc_apply ops r1) = (Ok (q, u), r1') \<and>
    remove_ue_request_correlation i r1' = (Err (fail_with_code NOT_FOUND m1), r1') \<and>
    remove_me_request_correlation q' (fold rpc_apply ops r2) = (Ok i', r2') \<and>
    remove_me_request_correlation q' r2' = (Err (fail_with_code NOT_FOUND m2), r2')"
proof -
  have ue: "fst (remove_ue_request_correlation i (fold rpc_apply ops r1)) = Ok (q, u)"
    using assms(1,2)
    by (intro ue_table.take_after_steps [of i "(q, u)" r r1]) (auto intro: rpc_apply_keeps_ue)
  have me: "fst (remove_me_request_correlation q' (fold rpc_apply ops r2)) = Ok i'"
    using assms(3,4)
    by (intro me_table.take_after_steps [of q' i' r r2]) (auto intro: rpc_apply_keeps_me)
  from ue me show ?thesis
    using ue_table.take_once me_table.take_once by (metis prod.collapse)
qed

theorem correlation_survives_other_traffic_witness:
  "\<exists>r1' m1 r2' m2.
    remove_ue_request_correlation 7 (fold rpc_apply [Remove_ue 8, Insert_ue 7 (UUID 9) (uuri_any permissive_up_rust)]
      (snd (insert_ue_request_correlation 7 (UUID 1) (uuri_any permissive_up_rust) rpc_correlation_new))) =
      (Ok (UUID 1, uuri_any permissive_up_rust), r1') \<and>
    remove_ue_request_correlation 7 r1' = (Err (fail_with_code NOT_FOUND m1), r1') \<and>
    remove_me_request_correlation (UUID 2) (fold rpc_apply [Remove_ue 8, Insert_ue 7 (UUID 9) (uuri_any permissive_up_rust)]
      (snd (insert_me_request_correlation (UUID 2) 5 rpc_correlation_new))) = (Ok 5, r2') \<and>
    remove_me_request_correlation (UUID 2) r2' = (Err (fail_with_code NOT_FOUND m2), r2')"
  by (rule correlation_survives_other_traffic [where r = rpc_correlation_new])
    (simp_all add: registry_defs rpc_correlation_new_def)

text \<open>
  The first 65534 requests of a client carry the session ids 1, 2, 3, ... in order, in
  either kind of build, so their request ids are pairwise distinct; the ids of other clients
  are not affected.
\<close>

theorem session_ids_count_up:
  assumes "n \<le> 65534"
  shows "fst (session_run oc c n rpc_correlation_new) =
      map (\<lambda>i. Returns (of_nat (Suc i))) [0..<n] \<and>
    distinct (map (\<lambda>i. create_request_id c (of_nat (Suc i))) [0..<n]) \<and>
    (c' \<noteq> c \<longrightarrow> next_session c' (snd (session_run oc c n rpc_correlation_new)) = 1)"
proof (intro conjI impI)
  show "fst (session_run oc c n rpc_correlation_new) = map (\<lambda>i. Returns (of_nat (Suc i))) [0..<n]"
    using session_run_counts [of rpc_correlation_new oc c n] assms
    by (simp add: session_run_fresh)
  have "inj_on (\<lambda>i. create_request_id c (of_nat (Suc i))) {0..<n}"
  proof (rule inj_onI)
    fix i j
    assume "i \<in> {0..<n}" "j \<in> {0..<n}"
      and "create_request_id c (of_nat (Suc i)) = create_request_id c (of_nat (Suc j))"
    then have "unat (of_nat (Suc i) :: SessionId) = unat (of_nat (Suc j) :: SessionId)"
      by simp
    with \<open>i \<in> _\<close> \<open>j \<in> _\<close> assms show "i = j" by (simp add: unat_of_nat del: of_nat_Suc)
  qed
  then show "distinct (map (\<lambda>i. create_request_id c (of_nat (Suc i))) [0..<n])"
    by (simp add: distinct_map del: of_nat_Suc)
  assume "c' \<noteq> c"
  then have "next_session c' (snd (session_run oc c n r)) = next_session c' r" for r
    by (induction n arbitrary: r)
      (simp_all add: Let_def case_prod_unfold retrieve_session_id_other_client)
  then show "next_session c' (snd (session_run oc c n rpc_correlation_new)) = 1"
    by (simp add: session_run_fresh)
qed

theorem session_ids_count_up_witness:
  "fst (session_run True 4 65534 rpc_correlation_new) =
     map (\<lambda>i. Returns (of_nat (Suc i))) [0..<65534]"
  by (rule session_ids_count_up [THEN conjunct1]) (rule order_refl)

text \<open>
  C37. What happens at the end of the 16-bit range. In a build with overflow checks the
  65535th request of a client panics and so does every request after it, of every client: the
  lock is poisoned. In a build without them the session counter wraps, so the 65536th request
  is given session id 0 and the 65537th reuses session id 1.
\<close>

theorem session_counter_overflow:
  "fst (session_run True c (65534 + Suc k) rpc_correlation_new) =
     map (\<lambda>i. Returns (of_nat (Suc i))) [0..<65534] @ replicate (Suc k) Panics \<and>
   fst (retrieve_session_id oc c'
     (snd (session_run True c (65534 + Suc k) rpc_correlation_new))) = Panics \<and>
   fst (session_run False c 65537 rpc_correlation_new) ! 65535 = Returns 0 \<and>
   fst (session_run False c 65537 rpc_correlation_new) ! 65536 = Returns 1"
proof -
  have "fst (session_run True c (n + Suc k) rpc_correlation_new) =
      map (\<lambda>i. Returns (of_nat (Suc i))) [0..<n] @ replicate (Suc k) Panics \<and>
    fst (retrieve_session_id oc c' (snd (session_run True c (n + Suc k) rpc_correlation_new))) =
      Panics" if "n = 65534" for n
  proof -
    have "unat (next_session c rpc_correlation_new) + n = 0xFFFF"
      using that by (simp add: session_run_fresh)
    from session_run_saturates [OF session_run_fresh(2) this] show ?thesis
      by (simp add: session_run_fresh retrieve_session_id_def)
  qed
  moreover have "fst (session_run False c n rpc_correlation_new) ! i = Returns (of_nat (Suc i))"
    if "i < n" for n i
    using session_run_counts [of rpc_correlation_new False c n] that
    by (simp add: session_run_fresh)
  from this [of 65535 65537] this [of 65536 65537]
  have "fst (session_run False c 65537 rpc_correlation_new) ! 65535 = Returns 0"
    "fst (session_run False c 65537 rpc_correlation_new) ! 65536 = Returns 1"
    by simp_all
  ultimately show ?thesis by blast
qed

end
