(* ===== verification/Offered_Requested.thy ===== *)
theory Offered_Requested
  imports Prelude
begin

text \<open>
  \<^verbatim>\<open>up-transport-vsomeip/src/storage/vsomeip_offered_requested.rs\<close>: what has already been offered
  to and requested from vsomeip. Four hash sets, each behind its own lock, with a membership
  test and an insertion each; an insertion returns whether the key was new.
\<close>

section \<open>Definitions\<close>

type_synonym service_key = "ServiceId \<times> InstanceId \<times> MethodId"
type_synonym event_key = "ServiceId \<times> InstanceId \<times> EventId"

record offered_requested =
  offered_services :: "service_key set"
  requested_services :: "service_key set"
  offered_events :: "event_key set"
  requested_events :: "event_key set"

definition offered_requested_new :: offered_requested where
  "offered_requested_new = \<lparr>offered_services = {}, requested_services = {},
     offered_events = {}, requested_events = {}\<rparr>"

definition is_service_offered ::
    "ServiceId \<Rightarrow> InstanceId \<Rightarrow> MethodId \<Rightarrow> offered_requested \<Rightarrow> bool" where
  "is_service_offered service_id instance_id method_id r \<longleftrightarrow>
     (service_id, instance_id, method_id) \<in> offered_services r"

definition insert_service_offered ::
    "ServiceId \<Rightarrow> InstanceId \<Rightarrow> MethodId \<Rightarrow> offered_requested \<Rightarrow> bool \<times> offered_requested" where
  "insert_service_offered service_id instance_id method_id r =
     ((service_id, instance_id, method_id) \<notin> offered_services r,
      r\<lparr>offered_services := insert (service_id, instance_id, method_id) (offered_services r)\<rparr>)"

definition is_service_requested ::
    "ServiceId \<Rightarrow> InstanceId \<Rightarrow> MethodId \<Rightarrow> offered_requested \<Rightarrow> bool" where
  "is_service_requested service_id instance_id method_id r \<longleftrightarrow>
     (service_id, instance_id, method_id) \<in> requested_services r"

definition insert_service_requested ::
    "ServiceId \<Rightarrow> InstanceId \<Rightarrow> MethodId \<Rightarrow> offered_requested \<Rightarrow> bool \<times> offered_requested" where
  "insert_service_requested service_id instance_id method_id r =
     ((service_id, instance_id, method_id) \<notin> requested_services r,
      r\<lparr>requested_services := insert (service_id, instance_id, method_id) (requested_services r)\<rparr>)"

definition is_event_offered ::
    "ServiceId \<Rightarrow> InstanceId \<Rightarrow> EventId \<Rightarrow> offered_requested \<Rightarrow> bool" where
  "is_event_offered service_id instance_id event_id r \<longleftrightarrow>
     (service_id, instance_id, event_id) \<in> offered_events r"

definition insert_event_offered ::
    "ServiceId \<Rightarrow> InstanceId \<Rightarrow> EventId \<Rightarrow> offered_requested \<Rightarrow> bool \<times> offered_requested" where
  "insert_event_offered service_id instance_id event_id r =
     ((service_id, instance_id, event_id) \<notin> offered_events r,
      r\<lparr>offered_events := insert (service_id, instance_id, event_id) (offered_events r)\<rparr>)"

definition is_event_requested ::
    "ServiceId \<Rightarrow> InstanceId \<Rightarrow> EventId \<Rightarrow> offered_requested \<Rightarrow> bool" where
  "is_event_requested service_id instance_id event_id r \<longleftrightarrow>
     (service_id, instance_id, event_id) \<in> requested_events r"

definition insert_event_requested ::
    "ServiceId \<Rightarrow> InstanceId \<Rightarrow> EventId \<Rightarrow> offered_requested \<Rightarrow> bool \<times> offered_requested" where
  "insert_event_requested service_id instance_id event_id r =
     ((service_id, instance_id, event_id) \<notin> requested_events r,
      r\<lparr>requested_events := insert (service_id, instance_id, event_id) (requested_events r)\<rparr>)"

lemmas offered_requested_defs [registry_defs] =
  is_service_offered_def insert_service_offered_def
  is_service_requested_def insert_service_requested_def
  is_event_offered_def insert_event_offered_def
  is_event_requested_def insert_event_requested_def

text \<open>
  A run of guarded actions: every client of this registry tests a key and, when it is new,
  acts on vsomeip and inserts the key. \<open>guarded_run\<close> performs such an action for each key of
  a list and collects what was done.
\<close>

fun guarded_run :: "('k \<Rightarrow> 's \<Rightarrow> 'e list \<times> 's) \<Rightarrow> 'k list \<Rightarrow> 's \<Rightarrow> 'e list \<times> 's" where
  "guarded_run act [] s = ([], s)"
| "guarded_run act (k # ks) s =
     (let (es, s1) = act k s; (fs, s2) = guarded_run act ks s1 in (es @ fs, s2))"

section \<open>The interface of a key set\<close>

locale key_set =
  fixes contains :: "'k \<Rightarrow> 's \<Rightarrow> bool"
    and add :: "'k \<Rightarrow> 's \<Rightarrow> bool \<times> 's"
  assumes contains_add: "contains k' (snd (add k s)) \<longleftrightarrow> k' = k \<or> contains k' s"
    and add_new: "fst (add k s) \<longleftrightarrow> \<not> contains k s"
begin

lemma add_twice: "\<not> fst (add k (snd (add k s)))"
  by (simp add: add_new contains_add)

text \<open>An action that is guarded by \<open>contains\<close> and records its key by \<open>add\<close>: its effect
  happens once per key that was not there before, in the order of first occurrence.\<close>

lemma guarded_once:
  assumes act: "\<And>k s. k \<in> set ks \<Longrightarrow> act k s = (if contains k s then ([], s) else (eff k, snd (add k s)))"
  shows "\<exists>ds. distinct ds \<and> set ds = {k \<in> set ks. \<not> contains k s} \<and>
    fst (guarded_run act ks s) = concat (map eff ds) \<and>
    (\<forall>k. contains k (snd (guarded_run act ks s)) \<longleftrightarrow> contains k s \<or> k \<in> set ks)"
  using act
proof (induction ks arbitrary: s)
  case Nil
  show ?case by (rule exI [of _ "[]"]) simp
next
  case (Cons k ks)
  have step: "guarded_run act (k # ks) s =
      (fst (act k s) @ fst (guarded_run act ks (snd (act k s))),
       snd (guarded_run act ks (snd (act k s))))"
    by (simp add: Let_def case_prod_unfold)
  have "j \<in> set ks \<Longrightarrow> act j t = (if contains j t then ([], t) else (eff j, snd (add j t)))" for j t
    using Cons.prems by simp
  from Cons.IH [OF this] obtain ds where ds: "distinct ds"
    "set ds = {j \<in> set ks. \<not> contains j (snd (act k s))}"
    "fst (guarded_run act ks (snd (act k s))) = concat (map eff ds)"
    "\<forall>j. contains j (snd (guarded_run act ks (snd (act k s)))) \<longleftrightarrow>
      contains j (snd (act k s)) \<or> j \<in> set ks"
    by blast
  show ?case
  proof (cases "contains k s")
    case True
    with Cons.prems [of k s] have "act k s = ([], s)" by simp
    with True ds show ?thesis unfolding step by (intro exI [of _ ds]) auto
  next
    case False
    with Cons.prems [of k s] have "act k s = (eff k, snd (add k s))" by simp
    with False ds show ?thesis
      unfolding step by (intro exI [of _ "k # ds"]) (auto simp: contains_add)
  qed
qed

end

section \<open>The in-memory registry implements it, four times\<close>

interpretation offered_service: key_set
  "\<lambda>(s, i, m). is_service_offered s i m" "\<lambda>(s, i, m). insert_service_offered s i m"
  by unfold_locales (auto simp: offered_requested_defs)

interpretation requested_service: key_set
  "\<lambda>(s, i, m). is_service_requested s i m" "\<lambda>(s, i, m). insert_service_requested s i m"
  by unfold_locales (auto simp: offered_requested_defs)

interpretation offered_event: key_set
  "\<lambda>(s, i, e). is_event_offered s i e" "\<lambda>(s, i, e). insert_event_offered s i e"
  by unfold_locales (auto simp: offered_requested_defs)

interpretation requested_event: key_set
  "\<lambda>(s, i, e). is_event_requested s i e" "\<lambda>(s, i, e). insert_event_requested s i e"
  by unfold_locales (auto simp: offered_requested_defs)

end
