(* ===== verification/Message_Conversions.thy ===== *)
theory Message_Conversions
  imports Vsomeip_Sys Rpc_Correlation Offered_Requested
begin

text \<open>
  \<^verbatim>\<open>up-transport-vsomeip/src/message_conversions.rs\<close>: uProtocol messages become vsomeip messages
  and back.

  The conversions take the registries they change as state. \<open>app\<close> is the application they act
  on and \<open>log\<close> the calls made on vsomeip so far. A conversion that draws a session id or
  unwraps the transport's major version can panic and returns an \<open>outcome\<close>. The fresh UUID a
  message builder draws is the argument \<open>fresh\<close>.
\<close>

section \<open>From uProtocol to vsomeip\<close>

fun ucode_to_vsomeip_err_code :: "ucode \<Rightarrow> return_code_e" where
  "ucode_to_vsomeip_err_code OK = E_OK"
| "ucode_to_vsomeip_err_code INVALID_ARGUMENT = E_WRONG_MESSAGE_TYPE"
| "ucode_to_vsomeip_err_code DEADLINE_EXCEEDED = E_TIMEOUT"
| "ucode_to_vsomeip_err_code NOT_FOUND = E_UNKNOWN_SERVICE"
| "ucode_to_vsomeip_err_code UNAVAILABLE = E_UNKNOWN_SERVICE"
| "ucode_to_vsomeip_err_code DATA_LOSS = E_MALFORMED_MESSAGE"
| "ucode_to_vsomeip_err_code INTERNAL = E_NOT_REACHABLE"
| "ucode_to_vsomeip_err_code UNKNOWN = E_NOT_OK"
| "ucode_to_vsomeip_err_code FAILED_PRECONDITION = E_WRONG_PROTOCOL_VERSION"
| "ucode_to_vsomeip_err_code _ = E_NOT_OK"

definition umsg_publish_to_vsomeip_notification ::
    "up_rust \<Rightarrow> vsomeip_api \<Rightarrow> umessage \<Rightarrow> ApplicationName \<Rightarrow> offered_requested \<times> vsomeip_log \<Rightarrow>
     (ServiceId \<times> InstanceId \<times> EventId) result \<times> offered_requested \<times> vsomeip_log" where
  "umsg_publish_to_vsomeip_notification U V umsg app = (\<lambda>(reg, log).
     case attr_source (attributes_of U umsg) of
       None \<Rightarrow> (Err (fail_with_code INVALID_ARGUMENT ''Message has no source UUri''), reg, log)
     | Some source \<Rightarrow>
         let (_, service_id) = split_u32_to_u16 (ue_id source);
             instance_id = 1;
             (_, event_id) = split_u32_to_u16 (resource_id source);
             (reg1, log1) =
               (if \<not> is_event_offered service_id instance_id event_id reg
                then (let log2 = vsomeip_do app
                            (Offer_service service_id instance_id (ANY_MAJOR V) (ANY_MINOR V)) log;
                          log3 = offer_single_event_safe app service_id instance_id event_id event_id log2
                      in (snd (insert_event_offered service_id instance_id event_id reg), log3))
                else (reg, log))
         in (Ok (service_id, instance_id, event_id), reg1, log1))"

definition umsg_request_to_vsomeip_message ::
    "up_rust \<Rightarrow> vsomeip_api \<Rightarrow> bool \<Rightarrow> umessage \<Rightarrow> ApplicationName \<Rightarrow> vsomeip_log \<Rightarrow>
     rpc_correlation \<Rightarrow> vsomeip_message result outcome \<times> rpc_correlation" where
  "umsg_request_to_vsomeip_message U V overflow_checks umsg app log r =
     (case attr_source (attributes_of U umsg) of
        None \<Rightarrow> (Returns (Err (fail_with_code INVALID_ARGUMENT ''Message has no source UUri'')), r)
      | Some source \<Rightarrow>
     (case attr_sink (attributes_of U umsg) of
        None \<Rightarrow> (Returns (Err (fail_with_code INVALID_ARGUMENT ''Message has no sink UUri'')), r)
      | Some sink \<Rightarrow>
          let (_, service_id) = split_u32_to_u16 (ue_id sink);
              instance_id = 1;
              (_, method_id) = split_u32_to_u16 (resource_id sink);
              (_, _, _, interface_version) = split_u32_to_u8 (ue_version_major sink);
              vsomeip_msg = (create_request V True)\<lparr>msg_service := service_id,
                msg_instance := instance_id, msg_method := method_id,
                msg_interface_version := interface_version\<rparr>
          in (case attr_id (attributes_of U umsg) of
                None \<Rightarrow> (Returns (Err (fail_with_code INVALID_ARGUMENT
                  ''Missing id for Request message. Would be unable to correlate. Rejected.'')), r)
              | Some req_id \<Rightarrow>
                  let app_client_id = get_client V log app
                  in (case retrieve_session_id overflow_checks app_client_id r of
                        (Panics, r1) \<Rightarrow> (Panics, r1)
                      | (Returns app_session_id, r1) \<Rightarrow>
                          let app_request_id = create_request_id app_client_id app_session_id
                          in (case insert_ue_request_correlation app_request_id req_id source r1 of
                                (Err e, r2) \<Rightarrow> (Returns (Err e), r2)
                              | (Ok _, r2) \<Rightarrow>
                                  (Returns (Ok (vsomeip_msg\<lparr>msg_return_code := E_OK\<rparr>)), r2))))))"

definition umsg_response_to_vsomeip_message ::
    "up_rust \<Rightarrow> vsomeip_api \<Rightarrow> umessage \<Rightarrow> rpc_correlation \<Rightarrow>
     vsomeip_message result \<times> rpc_correlation" where
  "umsg_response_to_vsomeip_message U V umsg r =
     (case attr_source (attributes_of U umsg) of
        None \<Rightarrow> (Err (fail_with_code INVALID_ARGUMENT ''Message has no source UUri''), r)
      | Some source \<Rightarrow>
          let (_, service_id) = split_u32_to_u16 (ue_id source);
              instance_id = 1;
              (_, method_id) = split_u32_to_u16 (resource_id source);
              (_, _, _, interface_version) = split_u32_to_u8 (ue_version_major source);
              vsomeip_msg = (create_message V True)\<lparr>msg_service := service_id,
                msg_instance := instance_id, msg_method := method_id,
                msg_interface_version := interface_version\<rparr>
          in (case attr_reqid (attributes_of U umsg) of
                None \<Rightarrow> (Err (fail_with_code INVALID_ARGUMENT
                  ''Missing id for Request message. Would be unable to correlate. Rejected.''), r)
              | Some req_id \<Rightarrow>
                  (case remove_me_request_correlation req_id r of
                     (Err e, r1) \<Rightarrow> (Err e, r1)
                   | (Ok request_id, r1) \<Rightarrow>
                       let (client_id, session_id) = split_u32_to_u16 request_id;
                           (commstatus, vsomeip_msg_type) =
                             (case attr_commstatus (attributes_of U umsg) of
                                Some commstatus \<Rightarrow>
                                  let status_val = enum_value_or commstatus UNIMPLEMENTED
                                  in if status_val = OK then (OK, MT_RESPONSE)
                                     else (status_val, MT_ERROR)
                              | None \<Rightarrow> (OK, MT_RESPONSE))
                       in (Ok (vsomeip_msg\<lparr>msg_client := client_id, msg_session := session_id,
                             msg_return_code := ucode_to_vsomeip_err_code commstatus,
                             msg_message_type := vsomeip_msg_type\<rparr>), r1))))"

section \<open>From vsomeip to uProtocol\<close>

fun vsomeip_err_code_to_ucode :: "return_code_e \<Rightarrow> ucode" where
  "vsomeip_err_code_to_ucode E_OK = OK"
| "vsomeip_err_code_to_ucode E_WRONG_MESSAGE_TYPE = INVALID_ARGUMENT"
| "vsomeip_err_code_to_ucode E_UNKNOWN_METHOD = INVALID_ARGUMENT"
| "vsomeip_err_code_to_ucode E_TIMEOUT = DEADLINE_EXCEEDED"
| "vsomeip_err_code_to_ucode E_UNKNOWN_SERVICE = NOT_FOUND"
| "vsomeip_err_code_to_ucode E_NOT_READY = UNAVAILABLE"
| "vsomeip_err_code_to_ucode E_MALFORMED_MESSAGE = DATA_LOSS"
| "vsomeip_err_code_to_ucode E_NOT_REACHABLE = INTERNAL"
| "vsomeip_err_code_to_ucode E_NOT_OK = UNKNOWN"
| "vsomeip_err_code_to_ucode E_WRONG_PROTOCOL_VERSION = FAILED_PRECONDITION"
| "vsomeip_err_code_to_ucode E_WRONG_INTERFACE_VERSION = FAILED_PRECONDITION"
| "vsomeip_err_code_to_ucode _ = UNKNOWN"

text \<open>\<^verbatim>\<open>u8::try_from\<close> of a 32-bit value.\<close>

definition try_into_u8 :: "u32 \<Rightarrow> u8 option" where
  "try_into_u8 x = (if x \<le> 0xFF then Some (ucast x) else None)"

definition convert_vsomeip_mt_request_to_umsg ::
    "up_rust \<Rightarrow> vsomeip_api \<Rightarrow> uuid \<Rightarrow> AuthorityName \<Rightarrow> uuri \<Rightarrow> AuthorityName \<Rightarrow> vsomeip_message \<Rightarrow>
     u8 list \<Rightarrow> rpc_correlation \<Rightarrow> umessage result outcome \<times> rpc_correlation" where
  "convert_vsomeip_mt_request_to_umsg U V fresh authority self_uuri mechatronics_authority
       vsomeip_message payload_bytes r =
     (let request_id = get_request V vsomeip_message;
          service_id = msg_service vsomeip_message;
          method_id = msg_method vsomeip_message;
          interface_version = msg_interface_version vsomeip_message
      in case try_from_parts U authority (ucast service_id) interface_version method_id of
           None \<Rightarrow> (Returns (Err (fail_with_code INVALID_ARGUMENT
             ''Unable to build sink UUri for MT_REQUEST type: {e:?}'')), r)
         | Some sink \<Rightarrow>
             let (client_id, _) = split_u32_to_u16 request_id
             in (case try_into_u8 (ue_version_major self_uuri) of
                   None \<Rightarrow> (Panics, r)
                 | Some version \<Rightarrow>
             (case try_from_parts U mechatronics_authority (ucast client_id) version 0 of
                None \<Rightarrow> (Returns (Err (fail_with_code INVALID_ARGUMENT
                  ''Unable to build source UUri for MT_REQUEST type: {e:?}'')), r)
              | Some source \<Rightarrow>
             (case build_request U sink source 1000 fresh payload_bytes of
                None \<Rightarrow> (Returns (Err (fail_with_code INTERNAL
                  ''Unable to build UMessage from vsomeip message: {:?}'')), r)
              | Some umsg \<Rightarrow>
             (case attr_id (attributes_of U umsg) of
                None \<Rightarrow> (Returns (Err (fail_with_code INVALID_ARGUMENT
                  ''Missing id for Request message. Would be unable to correlate. Rejected.'')), r)
              | Some req_id \<Rightarrow>
             (case insert_me_request_correlation req_id request_id r of
                (Err e, r1) \<Rightarrow> (Returns (Err e), r1)
              | (Ok _, r1) \<Rightarrow> (Returns (Ok umsg), r1)))))))"

definition convert_vsomeip_mt_response_to_umsg ::
    "up_rust \<Rightarrow> vsomeip_api \<Rightarrow> uuid \<Rightarrow> AuthorityName \<Rightarrow> vsomeip_message \<Rightarrow>
     u8 list \<Rightarrow> rpc_correlation \<Rightarrow> umessage result \<times> rpc_correlation" where
  "convert_vsomeip_mt_response_to_umsg U V fresh mechatronics_authority
       vsomeip_message payload_bytes r =
     (let request_id = get_request V vsomeip_message;
          service_id = msg_service vsomeip_message;
          method_id = msg_method vsomeip_message;
          interface_version = msg_interface_version vsomeip_message
      in case try_from_parts U mechatronics_authority (ucast service_id) interface_version method_id of
           None \<Rightarrow> (Err (fail_with_code INVALID_ARGUMENT
             ''Unable to build source UUri for MT_RESPONSE type: {e:?}''), r)
         | Some source \<Rightarrow>
             (case remove_ue_request_correlation request_id r of
                (Err e, r1) \<Rightarrow> (Err e, r1)
              | (Ok (req_id, sink), r1) \<Rightarrow>
                  (case build_response U sink req_id source OK fresh payload_bytes of
                     None \<Rightarrow> (Err (fail_with_code INTERNAL
                       ''Unable to build UMessage from vsomeip message: {:?}''), r1)
                   | Some umsg \<Rightarrow> (Ok umsg, r1))))"

definition convert_vsomeip_mt_error_to_umsg ::
    "up_rust \<Rightarrow> vsomeip_api \<Rightarrow> uuid \<Rightarrow> AuthorityName \<Rightarrow> vsomeip_message \<Rightarrow>
     u8 list \<Rightarrow> rpc_correlation \<Rightarrow> umessage result \<times> rpc_correlation" where
  "convert_vsomeip_mt_error_to_umsg U V fresh mechatronics_authority
       vsomeip_message payload_bytes r =
     (let request_id = get_request V vsomeip_message;
          service_id = msg_service vsomeip_message;
          method_id = msg_method vsomeip_message;
          interface_version = msg_interface_version vsomeip_message
      in case try_from_parts U mechatronics_authority (ucast service_id) interface_version method_id of
           None \<Rightarrow> (Err (fail_with_code INVALID_ARGUMENT
             ''Unable to build source UUri for MT_ERROR type: {e:?}''), r)
         | Some source \<Rightarrow>
             (case remove_ue_request_correlation request_id r of
                (Err e, r1) \<Rightarrow> (Err e, r1)
              | (Ok (req_id, sink), r1) \<Rightarrow>
                  let comm_status = vsomeip_err_code_to_ucode (msg_return_code vsomeip_message)
                  in (case build_response U sink req_id source comm_status fresh payload_bytes of
                        None \<Rightarrow> (Err (fail_with_code INTERNAL
                          ''Unable to build UMessage from vsomeip message: {:?}''), r1)
                      | Some umsg \<Rightarrow> (Ok umsg, r1))))"

definition convert_vsomeip_mt_notification_to_umsg ::
    "up_rust \<Rightarrow> uuid \<Rightarrow> AuthorityName \<Rightarrow> vsomeip_message \<Rightarrow> u8 list \<Rightarrow> umessage result" where
  "convert_vsomeip_mt_notification_to_umsg U fresh mechatronics_authority
       vsomeip_message payload_bytes =
     (let service_id = msg_service vsomeip_message;
          method_id = msg_method vsomeip_message;
          interface_version = 1
      in case try_from_parts U mechatronics_authority (ucast service_id) interface_version method_id of
           None \<Rightarrow> Err (fail_with_code INVALID_ARGUMENT
             ''Unable to build source UUri for MT_NOTIFICATION type: {e:?}'')
         | Some source \<Rightarrow>
             (case build_publish U source fresh payload_bytes of
                None \<Rightarrow> Err (fail_with_code INTERNAL
                  ''Unable to build UMessage from vsomeip message: {:?}'')
              | Some umsg \<Rightarrow> Ok umsg))"

definition convert_vsomeip_msg_to_umsg ::
    "up_rust \<Rightarrow> vsomeip_api \<Rightarrow> uuid \<Rightarrow> AuthorityName \<Rightarrow> uuri \<Rightarrow> AuthorityName \<Rightarrow> vsomeip_message \<Rightarrow>
     rpc_correlation \<Rightarrow> umessage result outcome \<times> rpc_correlation" where
  "convert_vsomeip_msg_to_umsg U V fresh authority self_uuri mechatronics_authority
       vsomeip_message r =
     (case get_message_payload vsomeip_message of
        None \<Rightarrow> (Returns (Err (fail_with_code INTERNAL
          ''Unable to extract PayloadWrapper from MessageWrapper'')), r)
      | Some payload \<Rightarrow>
          let payload_bytes = get_data_safe payload
          in (case msg_message_type vsomeip_message of
                MT_REQUEST \<Rightarrow>
                  convert_vsomeip_mt_request_to_umsg U V fresh authority self_uuri
                    mechatronics_authority vsomeip_message payload_bytes r
              | MT_NOTIFICATION \<Rightarrow>
                  (Returns (convert_vsomeip_mt_notification_to_umsg U fresh
                    mechatronics_authority vsomeip_message payload_bytes), r)
              | MT_RESPONSE \<Rightarrow>
                  (let (res, r1) = convert_vsomeip_mt_response_to_umsg U V fresh
                         mechatronics_authority vsomeip_message payload_bytes r
                   in (Returns res, r1))
              | MT_ERROR \<Rightarrow>
                  (let (res, r1) = convert_vsomeip_mt_error_to_umsg U V fresh
                         mechatronics_authority vsomeip_message payload_bytes r
                   in (Returns res, r1))
              | _ \<Rightarrow> (Returns (Err (fail_with_code OUT_OF_RANGE
                  ''Not one of the handled message types from SOME/IP: {msg_type}'')), r)))"

lemmas conversion_definitions [conversion_defs] =
  umsg_publish_to_vsomeip_notification_def umsg_request_to_vsomeip_message_def
  umsg_response_to_vsomeip_message_def convert_vsomeip_mt_request_to_umsg_def
  convert_vsomeip_mt_response_to_umsg_def convert_vsomeip_mt_error_to_umsg_def
  convert_vsomeip_mt_notification_to_umsg_def

end
