(* ===== verification/Handler_Sharing.thy ===== *)
theory Handler_Sharing
  imports Message_Handler_Registry
begin

text \<open>
  All transports of a process share one pool of message handlers. This theory runs the two
  registry operations in every order, by every transport: a step relation on the statics and
  the registries of all transports, its reachable states, and what holds in each of them.
  Each operation of \<^verbatim>\<open>message_handler_registry.rs\<close> holds all its locks from start to end, so
  any interleaving of transports is a sequence of such steps.
\<close>

section \<open>Definitions\<close>

record 'm handler_world =
  world_statics :: handler_statics
  world_registries :: "nat \<Rightarrow> 'm"

definition handler_world_init :: "('m, 'c) bimap_api \<Rightarrow> 'm handler_world" where
  "handler_world_init B =
     \<lparr>world_statics = handler_statics_init, world_registries = (\<lambda>t. bm_new B)\<rparr>"

inductive handler_step :: "('m, 'c) bimap_api \<Rightarrow> 'm handler_world \<Rightarrow> 'm handler_world \<Rightarrow> bool"
  for B where
  acquire: "get_message_handler B choice t c (world_statics w, world_registries w t) = (res, g, m) \<Longrightarrow>
    handler_step B w
      (w\<lparr>world_statics := g, world_registries := (world_registries w)(t := m)\<rparr>)"
| release: "release_message_handler B c (world_statics w, world_registries w t) = (res', g, m) \<Longrightarrow>
    handler_step B w
      (w\<lparr>world_statics := g, world_registries := (world_registries w)(t := m)\<rparr>)"

inductive handler_reachable :: "('m, 'c) bimap_api \<Rightarrow> 'm handler_world \<Rightarrow> bool"
  for B where
  start: "handler_reachable B (handler_world_init B)"
| step: "handler_reachable B w \<Longrightarrow> handler_step B w w' \<Longrightarrow> handler_reachable B w'"

definition handler_world_inv :: "('m, 'c) bimap_api \<Rightarrow> 'm handler_world \<Rightarrow> bool" where
  "handler_world_inv B w \<longleftrightarrow>
     (\<forall>t. handler_invar B t (world_statics w, world_registries w t))"

section \<open>The invariant of all transports\<close>

lemma handler_invar_other_acquire:
  assumes "handler_invar B t (g, m)" and "t' \<noteq> t" and i: "i \<in> free_message_handler_ids g"
  shows "handler_invar B t (\<lparr>free_message_handler_ids = free_message_handler_ids g - {i},
    message_handler_id_to_transport_storage =
      (message_handler_id_to_transport_storage g)(i \<mapsto> t')\<rparr>, m)"
proof -
  have none: "message_handler_id_to_transport_storage g i = None"
    using assms(1) i by (auto simp: handler_invar_def)
  have "i \<notin> dom (bm_get_by_left B m)"
    using handler_invar_used(1) [OF assms(1), of i] none by auto
  with none show ?thesis
    using assms by (auto simp: handler_invar_def)
qed

lemma handler_invar_other_release:
  assumes "handler_invar B t (g, m)" and "t' \<noteq> t"
    and i: "message_handler_id_to_transport_storage g i = Some t'"
  shows "handler_invar B t (\<lparr>free_message_handler_ids = insert i (free_message_handler_ids g),
    message_handler_id_to_transport_storage =
      (message_handler_id_to_transport_storage g)(i := None)\<rparr>, m)"
proof -
  have "i \<notin> dom (bm_get_by_left B m)"
    using handler_invar_used(1) [OF assms(1), of i] assms(2) i by auto
  then show ?thesis
    using assms by (auto simp: handler_invar_def)
qed

lemma handler_invar_init:
  "bimap_laws B \<Longrightarrow> handler_invar B t (handler_statics_init, bm_new B)"
  by (auto simp: handler_invar_def handler_statics_init_def bimap_laws_def)

lemma handler_world_inv_init: "bimap_laws B \<Longrightarrow> handler_world_inv B (handler_world_init B)"
  by (simp add: handler_world_inv_def handler_world_init_def handler_invar_init)

lemma handler_step_inv:
  assumes "handler_step B w w'" and inv: "handler_world_inv B w"
  shows "handler_world_inv B w'"
  using assms(1)
proof cases
  case (acquire choice t c res g m)
  let ?s = "(world_statics w, world_registries w t)"
  have own: "handler_invar B t ?s" using inv by (simp add: handler_world_inv_def)
  show ?thesis
  proof (cases "handler_free ?s \<noteq> {} \<and> c \<notin> ran (handler_used B ?s)")
    case True
    then obtain i where i: "hash_next choice (handler_free ?s) = Some i"
      by (meson hash_next_None not_None_eq)
    note taken = handler_invar_next(1) [OF own i]
    from get_message_handler_new [OF own i conjunct2 [OF True]] acquire(2)
    have g: "g = \<lparr>free_message_handler_ids = handler_free ?s - {i},
        message_handler_id_to_transport_storage =
          (message_handler_id_to_transport_storage (world_statics w))(i \<mapsto> t)\<rparr>" by auto
    have "handler_invar B t (g, m)"
      using handler_pool.acquire_invar [OF own, of choice c] acquire(2) by simp
    moreover have "handler_invar B t' (g, world_registries w t')" if "t' \<noteq> t" for t'
      unfolding g fst_conv using inv that taken
      by (intro handler_invar_other_acquire) (auto simp: handler_world_inv_def)
    ultimately show ?thesis by (simp add: acquire(1) handler_world_inv_def)
  next
    case False
    then have "(g, m) = ?s"
      using acquire(2) handler_pool.acquire_duplicate [OF own, of c choice]
        handler_pool.acquire_full [OF own, of choice c] by auto
    with inv show ?thesis by (simp add: acquire(1) handler_world_inv_def)
  qed
next
  case (release c t res' g m)
  let ?s = "(world_statics w, world_registries w t)"
  have own: "handler_invar B t ?s" using inv by (simp add: handler_world_inv_def)
  show ?thesis
  proof (cases "c \<in> ran (handler_used B ?s)")
    case True
    then obtain i where i: "handler_used B ?s i = Some c" by (auto simp: ran_def)
    from release_message_handler_known [OF own i] release(2)
    have g: "g = \<lparr>free_message_handler_ids = insert i (handler_free ?s),
        message_handler_id_to_transport_storage =
          (message_handler_id_to_transport_storage (world_statics w))(i := None)\<rparr>" by auto
    have "handler_invar B t (g, m)"
      using handler_pool.release_invar [OF own, of c] release(2) by simp
    moreover have "handler_invar B t' (g, world_registries w t')" if "t' \<noteq> t" for t'
      unfolding g fst_conv using inv that handler_invar_used(1) [OF own i]
      by (intro handler_invar_other_release) (auto simp: handler_world_inv_def)
    ultimately show ?thesis by (simp add: release(1) handler_world_inv_def)
  next
    case False
    then have "(g, m) = ?s"
      using release(2) handler_pool.release_unknown [OF own, of c] by auto
    with inv show ?thesis by (simp add: release(1) handler_world_inv_def)
  qed
qed

lemma handler_reachable_inv:
  assumes "handler_reachable B w" "bimap_laws B"
  shows "handler_world_inv B w"
  using assms(1)
proof induction
  case start
  show ?case using assms(2) by (rule handler_world_inv_init)
next
  case (step w w')
  then show ?case by (blast intro: handler_step_inv)
qed

lemma handler_reachable_invar:
  "handler_reachable B w \<Longrightarrow> bimap_laws B \<Longrightarrow>
   handler_invar B t (world_statics w, world_registries w t)"
  using handler_reachable_inv by (fastforce simp: handler_world_inv_def)

section \<open>Properties\<close>

text \<open>
  C1. However the transports of a process interleave, in every reachable state each extern
  message handler is either free or belongs to exactly one listener configuration of exactly
  one transport, the one its entry in the transport table names: no handler is shared, none is
  both free and in use, none is lost, and a configuration of a transport has at most one
  handler.
\<close>

theorem handlers_exclusive_and_never_lost:
  assumes "bimap_laws B" and "handler_reachable B w"
  shows "(\<forall>i < num_message_handler_fns.
      if i \<in> free_message_handler_ids (world_statics w)
      then message_handler_id_to_transport_storage (world_statics w) i = None \<and>
        (\<forall>t. bm_get_by_left B (world_registries w t) i = None)
      else \<exists>t c. message_handler_id_to_transport_storage (world_statics w) i = Some t \<and>
        bm_get_by_left B (world_registries w t) i = Some c \<and>
        (\<forall>t' c'. bm_get_by_left B (world_registries w t') i = Some c' \<longrightarrow> t' = t \<and> c' = c)) \<and>
    (\<forall>t i j c. bm_get_by_left B (world_registries w t) i = Some c \<longrightarrow>
      i < num_message_handler_fns \<and> (bm_get_by_left B (world_registries w t) j = Some c \<longrightarrow> i = j))"
proof -
  let ?ids = "message_handler_id_to_transport_storage (world_statics w)"
  have inv: "handler_invar B t (world_statics w, world_registries w t)" for t
    using assms by (intro handler_reachable_invar)
  have entry: "?ids i = Some t \<longleftrightarrow> i \<in> dom (bm_get_by_left B (world_registries w t))" for i t
    using inv [of t] by (auto simp: handler_invar_def)
  have ids: "dom ?ids = {..<num_message_handler_fns} - free_message_handler_ids (world_statics w)"
    using inv [of 0] by (simp add: handler_invar_def)
  have taken: "\<exists>t c. ?ids i = Some t \<and> bm_get_by_left B (world_registries w t) i = Some c \<and>
      (\<forall>t' c'. bm_get_by_left B (world_registries w t') i = Some c' \<longrightarrow> t' = t \<and> c' = c)"
    if "i \<in> dom ?ids" for i
  proof -
    from that obtain t where t: "?ids i = Some t" by auto
    then obtain c where c: "bm_get_by_left B (world_registries w t) i = Some c"
      using entry [of i t] by auto
    have "t' = t \<and> c' = c" if "bm_get_by_left B (world_registries w t') i = Some c'" for t' c'
    proof -
      from that have "t' = t" using t entry [of i t'] by auto
      with that c show ?thesis by simp
    qed
    with t c show ?thesis by blast
  qed
  have "?ids i = None \<and> (\<forall>t. bm_get_by_left B (world_registries w t) i = None)"
    if "i \<notin> dom ?ids" for i
    using that entry [of i] by (auto simp: domIff)
  with taken ids have "\<forall>i < num_message_handler_fns.
      if i \<in> free_message_handler_ids (world_statics w)
      then ?ids i = None \<and> (\<forall>t. bm_get_by_left B (world_registries w t) i = None)
      else \<exists>t c. ?ids i = Some t \<and> bm_get_by_left B (world_registries w t) i = Some c \<and>
        (\<forall>t' c'. bm_get_by_left B (world_registries w t') i = Some c' \<longrightarrow> t' = t \<and> c' = c)"
    by simp
  moreover have "i < num_message_handler_fns \<and> (bm_get_by_left B (world_registries w t) j = Some c \<longrightarrow> i = j)"
    if "bm_get_by_left B (world_registries w t) i = Some c" for t i j c
    using that handler_invar_used(2) [OF inv, of t i c] bimap_left_inj [OF assms(1)] by auto
  ultimately show ?thesis by blast
qed

theorem handlers_exclusive_and_never_lost_witness:
  "\<exists>w :: (nat \<times> nat) list handler_world. handler_reachable list_bimap w \<and>
    7 \<notin> free_message_handler_ids (world_statics w) \<and>
    (\<exists>t c. message_handler_id_to_transport_storage (world_statics w) 7 = Some t \<and>
      bm_get_by_left list_bimap (world_registries w t) 7 = Some c)"
proof -
  let ?w = "handler_world_init list_bimap :: (nat \<times> nat) list handler_world"
  let ?s = "(world_statics ?w, world_registries ?w 0)"
  have inv: "handler_invar list_bimap 0 ?s"
    by (simp add: handler_world_init_def handler_invar_init)
  have next_id: "hash_next 7 (handler_free ?s) = Some 7"
    by (simp add: hash_next_choice handler_world_init_def handler_statics_init_def
        num_message_handler_fns_def)
  have "(1 :: nat) \<notin> ran (handler_used list_bimap ?s)"
    by (simp add: handler_world_init_def list_bimap_def)
  from get_message_handler_new [OF inv next_id this] obtain g m where
    get: "get_message_handler list_bimap 7 0 1 ?s = (Returns (Inr (Extern_fn_message_handler 7)), g, m)"
    and g: "g = \<lparr>free_message_handler_ids = handler_free ?s - {7},
      message_handler_id_to_transport_storage =
        (message_handler_id_to_transport_storage (world_statics ?w))(7 \<mapsto> 0)\<rparr>"
    by auto
  let ?w1 = "?w\<lparr>world_statics := g, world_registries := (world_registries ?w)(0 := m)\<rparr>"
  have reach: "handler_reachable list_bimap ?w1"
    by (rule handler_reachable.step [OF handler_reachable.start handler_step.acquire [OF get]])
  have "7 < num_message_handler_fns" by (simp add: num_message_handler_fns_def)
  moreover have "7 \<notin> free_message_handler_ids (world_statics ?w1)" by (simp add: g)
  ultimately show ?thesis
    using handlers_exclusive_and_never_lost [OF list_bimap_laws reach] reach by metis
qed

text \<open>
  C23. What a transport gets from the pool in any reachable state, on every branch: nothing but
  \<open>RESOURCE_EXHAUSTED\<close> when no handler is free, \<open>ListenerConfigAlreadyExists\<close> for a
  configuration it has registered, and otherwise a free handler that from then on leads to
  this transport and this listener. A refused request leaves the statics and the registry as
  they were (the rollback is complete), and the call never panics.
\<close>

theorem get_message_handler_spec:
  assumes "bimap_laws B" and "handler_reachable B w"
  shows "let g = world_statics w; m = world_registries w t;
             r = get_message_handler B choice t (src, sink, l) (g, m)
    in if free_message_handler_ids g = {}
       then r = (Returns (Inl (OtherError
              (fail_with_code RESOURCE_EXHAUSTED ''No more available extern fns''))), g, m)
       else if (src, sink, l) \<in> ran (bm_get_by_left B m)
       then \<exists>f. r = (Returns (Inl (ListenerConfigAlreadyExists f)), g, m)
       else \<exists>i g' m'. r = (Returns (Inr (Extern_fn_message_handler i)), g', m') \<and>
         i \<in> free_message_handler_ids g \<and>
         free_message_handler_ids g' = free_message_handler_ids g - {i} \<and>
         (\<forall>live. get_message_handler_id_transport live g' i = (if t \<in> live then Some t else None)) \<and>
         get_listener_for_message_handler_id B m' i = Some l \<and>
         (\<forall>j. j \<noteq> i \<longrightarrow>
           message_handler_id_to_transport_storage g' j = message_handler_id_to_transport_storage g j \<and>
           get_listener_for_message_handler_id B m' j = get_listener_for_message_handler_id B m j)"
proof -
  let ?s = "(world_statics w, world_registries w t)"
  have inv: "handler_invar B t ?s" using assms by (intro handler_reachable_invar)
  consider (full) "handler_free ?s = {}"
    | (dup) i where "hash_next choice (handler_free ?s) = Some i"
        and "(src, sink, l) \<in> ran (handler_used B ?s)"
    | (new) i where "hash_next choice (handler_free ?s) = Some i"
        and "(src, sink, l) \<notin> ran (handler_used B ?s)"
    by (cases "hash_next choice (handler_free ?s)") auto
  then show ?thesis
  proof cases
    case full
    then show ?thesis using get_message_handler_full [OF inv] by (simp add: Let_def)
  next
    case (dup i)
    with get_message_handler_duplicate [OF inv dup] handler_invar_next(1) [OF inv dup(1)]
    show ?thesis by (auto simp: Let_def)
  next
    case (new i)
    with get_message_handler_new [OF inv new] handler_invar_next(1) [OF inv new(1)]
    show ?thesis
      by (auto simp: Let_def get_message_handler_id_transport_def
          get_listener_for_message_handler_id_def)
  qed
qed

theorem get_message_handler_spec_witness:
  "\<exists>i g m. get_message_handler list_bimap 7 0 (uuri_any permissive_up_rust, None, Listener 5)
      (handler_statics_init, bm_new list_bimap) = (Returns (Inr (Extern_fn_message_handler i)), g, m) \<and>
    get_message_handler_id_transport {0} g i = Some 0 \<and>
    get_listener_for_message_handler_id list_bimap m i = Some (Listener 5)"
proof -
  have "handler_free (handler_statics_init, ()) \<noteq> {}"
    by (simp add: handler_statics_init_def num_message_handler_fns_def lessThan_empty_iff)
  moreover have "(uuri_any permissive_up_rust, None :: uuri option, Listener 5) \<notin>
      ran (bm_get_by_left list_bimap (bm_new list_bimap))"
    by (simp add: list_bimap_def)
  ultimately show ?thesis
    using get_message_handler_spec [OF list_bimap_laws handler_reachable.start,
      of 0 7 "uuri_any permissive_up_rust" None "Listener 5"]
    by (auto simp: Let_def handler_world_init_def)
qed

text \<open>
  Releasing undoes acquiring: after a successful request, releasing the same configuration
  succeeds, makes exactly that handler free again, empties its transport entry and leaves every
  other handler as it was; releasing it once more fails with \<open>NOT_FOUND\<close> and changes nothing.
\<close>

theorem release_undoes_acquire:
  assumes "bimap_laws B" and "handler_reachable B w"
    and "get_message_handler B choice t c (world_statics w, world_registries w t) =
      (Returns (Inr f), g, m)"
  shows "\<exists>g' m'. release_message_handler B c (g, m) = (Ok (), g', m') \<and>
    g' = world_statics w \<and>
    bm_get_by_left B m' = bm_get_by_left B (world_registries w t) \<and>
    (\<exists>msg. release_message_handler B c (g', m') = (Err (fail_with_code NOT_FOUND msg), g', m'))"
proof -
  let ?s = "(world_statics w, world_registries w t)"
  have inv: "handler_invar B t ?s" using assms by (intro handler_reachable_invar)
  have new: "handler_free ?s \<noteq> {}" "c \<notin> ran (handler_used B ?s)"
    using handler_pool.acquire_ok_iff [OF inv, of choice c] assms(3) by auto
  then obtain i where i: "hash_next choice (handler_free ?s) = Some i"
    by (meson hash_next_None not_None_eq)
  from get_message_handler_new [OF inv i new(2)] assms(3)
  have g: "g = \<lparr>free_message_handler_ids = handler_free ?s - {i},
      message_handler_id_to_transport_storage =
        (message_handler_id_to_transport_storage (world_statics w))(i \<mapsto> t)\<rparr>"
    and m: "bm_get_by_left B m = (handler_used B ?s)(i \<mapsto> c)" by auto
  have inv': "handler_invar B t (g, m)"
    using handler_pool.acquire_invar [OF inv, of choice c] assms(3) by simp
  have "handler_used B (g, m) i = Some c" by (simp add: m)
  from release_message_handler_known [OF inv' this] obtain m' where
    rel: "release_message_handler B c (g, m) =
      (Ok (), \<lparr>free_message_handler_ids = insert i (free_message_handler_ids g),
        message_handler_id_to_transport_storage =
          (message_handler_id_to_transport_storage g)(i := None)\<rparr>, m')"
      and m': "bm_get_by_left B m' = (bm_get_by_left B m)(i := None)" by auto
  have restored: "bm_get_by_left B m' = handler_used B ?s"
    using handler_invar_next(4) [OF inv i] by (simp add: m m' fun_upd_idem)
  have same: "\<lparr>free_message_handler_ids = insert i (free_message_handler_ids g),
      message_handler_id_to_transport_storage =
        (message_handler_id_to_transport_storage g)(i := None)\<rparr> = world_statics w"
    using handler_invar_next(1,3) [OF inv i] by (simp add: g insert_absorb fun_upd_idem)
  have "handler_invar B t (world_statics w, m')"
    using inv restored by (simp add: handler_invar_def)
  with new(2) restored rel same show ?thesis
    using handler_pool.release_unknown [of B t "(world_statics w, m')" c] by auto
qed

theorem release_undoes_acquire_witness:
  "\<exists>f g m m'. get_message_handler list_bimap 7 0 (1 :: nat) (handler_statics_init, bm_new list_bimap) =
      (Returns (Inr f), g, m) \<and>
    release_message_handler list_bimap 1 (g, m) = (Ok (), handler_statics_init, m') \<and>
    bm_get_by_left list_bimap m' = bm_get_by_left list_bimap (bm_new list_bimap)"
proof -
  let ?s = "(handler_statics_init, bm_new list_bimap) :: _ \<times> (nat \<times> nat) list"
  have w: "(world_statics (handler_world_init list_bimap), world_registries (handler_world_init list_bimap) 0) = ?s"
    by (simp add: handler_world_init_def)
  have inv: "handler_invar list_bimap 0 ?s" by (rule handler_invar_init) simp
  have next_id: "hash_next 7 (handler_free ?s) = Some 7"
    by (simp add: hash_next_choice handler_statics_init_def num_message_handler_fns_def)
  have "(1 :: nat) \<notin> ran (handler_used list_bimap ?s)" by (simp add: list_bimap_def)
  from get_message_handler_new [OF inv next_id this] obtain f g m where
    get: "get_message_handler list_bimap 7 0 1 ?s = (Returns (Inr f), g, m)"
    by blast
  then have "get_message_handler list_bimap 7 0 1
      (world_statics (handler_world_init list_bimap), world_registries (handler_world_init list_bimap) 0) =
    (Returns (Inr f), g, m)" by (simp only: w)
  from release_undoes_acquire [OF list_bimap_laws handler_reachable.start this] get
  show ?thesis by (auto simp: handler_world_init_def)
qed

end
