(* ===== verification/State_Handler_Registry.thy ===== *)
theory State_Handler_Registry
  imports Vsomeip_Sys
begin

text \<open>
  \<^verbatim>\<open>up-transport-vsomeip/src/storage/application_state_availability_handler_registry.rs\<close> with the
  code \<^verbatim>\<open>generate_available_state_handler_extern_c_fns!(1000)\<close> generates
  (\<^verbatim>\<open>vsomeip-proc-macro/src/lib.rs\<close>): the pool of extern "C" functions vsomeip calls when an
  application's state changes, and the channel behind each of them.

  The statics are one record. A channel is a number; \<open>state_channels\<close> has what is queued in
  it. A \<^verbatim>\<open>send\<close> into a full bounded channel blocks its thread, which is the result \<open>Blocks\<close>;
  the statics hold a receiver of every channel, so a \<^verbatim>\<open>send\<close> never finds its channel
  disconnected.
\<close>

section \<open>Definitions\<close>

definition num_state_handler_fns :: nat where
  "num_state_handler_fns = 1000"

definition state_channel_capacity :: nat where
  "state_channel_capacity = 1000"

record state_handler_statics =
  free_state_handler_ids :: "nat set"
  available_state_senders :: "nat \<rightharpoonup> nat option"
  available_state_receivers :: "nat \<rightharpoonup> nat option"
  state_channels :: "nat \<Rightarrow> state_type_e list"
  state_channel_count :: nat
  init_done :: bool

definition state_handler_statics_init :: state_handler_statics where
  "state_handler_statics_init = \<lparr>free_state_handler_ids = {..<num_state_handler_fns},
     available_state_senders = Map.empty, available_state_receivers = Map.empty,
     state_channels = (\<lambda>n. []), state_channel_count = 0, init_done = False\<rparr>"

datatype 'a blocking = Done 'a | Blocks

definition bounded_channel :: "state_handler_statics \<Rightarrow> nat \<times> state_handler_statics" where
  "bounded_channel st = (state_channel_count st,
     st\<lparr>state_channels := (state_channels st)(state_channel_count st := []),
        state_channel_count := Suc (state_channel_count st)\<rparr>)"

definition add_sender_receiver :: "nat \<Rightarrow> state_handler_statics \<Rightarrow> state_handler_statics" where
  "add_sender_receiver i st =
     (let (ch, st1) = bounded_channel st
      in st1\<lparr>available_state_senders := (available_state_senders st1)(i \<mapsto> Some ch),
             available_state_receivers := (available_state_receivers st1)(i \<mapsto> Some ch)\<rparr>)"

definition initialize_sender_receiver :: "state_handler_statics \<Rightarrow> state_handler_statics" where
  "initialize_sender_receiver st = fold add_sender_receiver [0..<num_state_handler_fns] st"

definition call_shared_state_fn ::
    "nat \<Rightarrow> state_type_e \<Rightarrow> state_handler_statics \<Rightarrow> state_handler_statics blocking" where
  "call_shared_state_fn available_handler_id available_state st =
     (case available_state_senders st available_handler_id of
        None \<Rightarrow> Done st
      | Some sender_option \<Rightarrow>
          (case sender_option of
             Some ch \<Rightarrow>
               if length (state_channels st ch) < state_channel_capacity
               then Done (st\<lparr>state_channels :=
                      (state_channels st)(ch := state_channels st ch @ [available_state])\<rparr>)
               else Blocks
           | None \<Rightarrow> Done st))"

definition get_state_extern_fn ::
    "nat \<Rightarrow> state_handler_statics \<Rightarrow> (available_state_handler_fn_ptr \<times> nat) outcome" where
  "get_state_extern_fn available_handler_id st =
     (if available_handler_id < num_state_handler_fns then
        (case available_state_receivers st available_handler_id of
           None \<Rightarrow> Panics
         | Some receiver_option \<Rightarrow>
             (case receiver_option of
                Some ch \<Rightarrow> Returns (Available_state_handler_extern_fn available_handler_id, ch)
              | None \<Rightarrow> Panics))
      else Panics)"

text \<open>\<^verbatim>\<open>new_trait_obj\<close>: \<^verbatim>\<open>INIT.call_once\<close> runs the initialisation the first time only.\<close>

definition new_trait_obj :: "state_handler_statics \<Rightarrow> state_handler_statics" where
  "new_trait_obj st =
     (if init_done st then st else (initialize_sender_receiver st)\<lparr>init_done := True\<rparr>)"

definition get_state_handler ::
    "nat \<Rightarrow> state_handler_statics \<Rightarrow> (available_state_handler_fn_ptr \<times> nat) outcome" where
  "get_state_handler state_handler_id st = get_state_extern_fn state_handler_id st"

definition free_state_handler_id ::
    "nat \<Rightarrow> state_handler_statics \<Rightarrow> unit result \<times> state_handler_statics" where
  "free_state_handler_id state_handler_id st =
     (Ok (), st\<lparr>free_state_handler_ids := insert state_handler_id (free_state_handler_ids st)\<rparr>)"

definition find_available_state_handler_id ::
    "nat \<Rightarrow> state_handler_statics \<Rightarrow> nat result \<times> state_handler_statics" where
  "find_available_state_handler_id choice st =
     (case hash_next choice (free_state_handler_ids st) of
        Some i \<Rightarrow> (Ok i, st\<lparr>free_state_handler_ids := free_state_handler_ids st - {i}\<rparr>)
      | None \<Rightarrow>
          (Err (fail_with_code RESOURCE_EXHAUSTED ''No more extern C fns available''), st))"

text \<open>
  \<^verbatim>\<open>recv_timeout\<close> on a channel: the oldest queued state, or \<open>None\<close> for a timeout. Which states
  vsomeip has delivered by the end of the wait is decided by vsomeip; \<open>deliver_states\<close> delivers
  them through the handler, up to one that blocks.
\<close>

fun deliver_states ::
    "nat \<Rightarrow> state_type_e list \<Rightarrow> state_handler_statics \<Rightarrow> state_handler_statics" where
  "deliver_states i [] st = st"
| "deliver_states i (x # xs) st =
     (case call_shared_state_fn i x st of Done st1 \<Rightarrow> deliver_states i xs st1 | Blocks \<Rightarrow> st)"

definition recv_state ::
    "nat \<Rightarrow> state_handler_statics \<Rightarrow> state_type_e option \<times> state_handler_statics" where
  "recv_state ch st =
     (case state_channels st ch of
        [] \<Rightarrow> (None, st)
      | x # xs \<Rightarrow> (Some x, st\<lparr>state_channels := (state_channels st)(ch := xs)\<rparr>))"

lemmas state_registry_defs [registry_defs] =
  get_state_handler_def get_state_extern_fn_def free_state_handler_id_def
  find_available_state_handler_id_def

section \<open>The invariant\<close>

text \<open>
  Free ids have an extern function; after initialisation every id has a sender and a receiver
  of one and the same channel, and different ids have different channels.
\<close>

definition state_invar :: "state_handler_statics \<Rightarrow> bool" where
  "state_invar st \<longleftrightarrow>
     free_state_handler_ids st \<subseteq> {..<num_state_handler_fns} \<and>
     (if init_done st
      then \<exists>f. inj_on f {..<num_state_handler_fns} \<and> (\<forall>i < num_state_handler_fns.
             available_state_senders st i = Some (Some (f i)) \<and>
             available_state_receivers st i = Some (Some (f i)) \<and> f i < state_channel_count st)
      else available_state_senders st = Map.empty \<and> available_state_receivers st = Map.empty)"

lemma fold_add_sender_receiver:
  "let st' = fold add_sender_receiver [0..<n] st
   in (\<forall>i. available_state_senders st' i =
        (if i < n then Some (Some (state_channel_count st + i)) else available_state_senders st i)) \<and>
      (\<forall>i. available_state_receivers st' i =
        (if i < n then Some (Some (state_channel_count st + i)) else available_state_receivers st i)) \<and>
      state_channel_count st' = state_channel_count st + n \<and>
      free_state_handler_ids st' = free_state_handler_ids st \<and> init_done st' = init_done st"
  by (induction n) (auto simp: Let_def add_sender_receiver_def bounded_channel_def less_Suc_eq)

lemma initialize_sender_receiver_spec:
  "available_state_senders (initialize_sender_receiver st) i =
     (if i < num_state_handler_fns then Some (Some (state_channel_count st + i))
      else available_state_senders st i)"
  "available_state_receivers (initialize_sender_receiver st) i =
     (if i < num_state_handler_fns then Some (Some (state_channel_count st + i))
      else available_state_receivers st i)"
  "state_channel_count (initialize_sender_receiver st) =
     state_channel_count st + num_state_handler_fns"
  "free_state_handler_ids (initialize_sender_receiver st) = free_state_handler_ids st"
  using fold_add_sender_receiver [of num_state_handler_fns st]
  by (simp_all add: initialize_sender_receiver_def Let_def)

lemma state_invar_init [simp]: "state_invar state_handler_statics_init"
  by (simp add: state_invar_def state_handler_statics_init_def)

lemma state_invar_new_trait_obj [intro]: "state_invar st \<Longrightarrow> state_invar (new_trait_obj st)"
  unfolding state_invar_def new_trait_obj_def
  by (auto simp: initialize_sender_receiver_spec intro!: exI [of _ "\<lambda>i. state_channel_count st + i"])

lemma init_done_new_trait_obj [simp]: "init_done (new_trait_obj st)"
  by (simp add: new_trait_obj_def)

lemma state_invar_find:
  "state_invar st \<Longrightarrow> state_invar (snd (find_available_state_handler_id choice st))"
  by (auto simp: state_invar_def find_available_state_handler_id_def split: option.split)

lemma state_invar_free:
  "state_invar st \<Longrightarrow> i < num_state_handler_fns \<Longrightarrow> state_invar (snd (free_state_handler_id i st))"
  by (auto simp: state_invar_def free_state_handler_id_def)

lemma state_invar_channels:
  "state_invar st \<Longrightarrow> state_invar (st\<lparr>state_channels := q\<rparr>)"
  by (simp add: state_invar_def)

lemma state_invar_call:
  "state_invar st \<Longrightarrow> call_shared_state_fn i x st = Done st' \<Longrightarrow> state_invar st'"
  by (auto simp: call_shared_state_fn_def state_invar_channels split: option.splits if_splits)

lemma state_invar_deliver: "state_invar st \<Longrightarrow> state_invar (deliver_states i xs st)"
  by (induction i xs st rule: deliver_states.induct)
    (auto split: blocking.split dest: state_invar_call)

lemma state_invar_recv: "state_invar st \<Longrightarrow> state_invar (snd (recv_state ch st))"
  by (simp add: recv_state_def state_invar_channels split: list.split)

lemma find_state_handler_range:
  assumes "state_invar st" "find_available_state_handler_id choice st = (Ok i, st')"
  shows "i \<in> free_state_handler_ids st" "i < num_state_handler_fns"
    "st' = st\<lparr>free_state_handler_ids := free_state_handler_ids st - {i}\<rparr>"
proof -
  have fin: "finite (free_state_handler_ids st)"
    using assms(1) finite_subset by (auto simp: state_invar_def)
  from assms(2) have "hash_next choice (free_state_handler_ids st) = Some i"
    and st': "st' = st\<lparr>free_state_handler_ids := free_state_handler_ids st - {i}\<rparr>"
    by (auto simp: find_available_state_handler_id_def split: option.splits)
  then show "i \<in> free_state_handler_ids st" using hash_next_in [OF fin] by simp
  with assms(1) show "i < num_state_handler_fns" by (auto simp: state_invar_def)
  show "st' = st\<lparr>free_state_handler_ids := free_state_handler_ids st - {i}\<rparr>" by (fact st')
qed

lemma get_state_handler_returns:
  assumes "state_invar st" "init_done st" "i < num_state_handler_fns"
  obtains ch where "get_state_handler i st = Returns (Available_state_handler_extern_fn i, ch)"
    "available_state_senders st i = Some (Some ch)"
proof -
  from assms obtain ch where
    "available_state_senders st i = Some (Some ch)" "available_state_receivers st i = Some (Some ch)"
    by (auto simp: state_invar_def)
  with assms(3) show ?thesis by (intro that [of ch]) (simp_all add: registry_defs)
qed

section \<open>Properties\<close>

text \<open>
  After \<^verbatim>\<open>new_trait_obj\<close>, taking a state handler never panics: either the pool is exhausted
  and the result is \<open>RESOURCE_EXHAUSTED\<close>, or an id that was free is taken out of the pool and
  leads to its extern function and a channel; a state vsomeip passes to that function comes
  out of that channel and of no other handler's channel.
\<close>

theorem state_handler_delivers:
  assumes "state_invar st0" and "st = new_trait_obj st0"
  shows "case find_available_state_handler_id choice st of
      (Err e, st1) \<Rightarrow> status_code e = RESOURCE_EXHAUSTED \<and> free_state_handler_ids st = {} \<and> st1 = st
    | (Ok i, st1) \<Rightarrow> i \<in> free_state_handler_ids st \<and> i \<notin> free_state_handler_ids st1 \<and>
        (\<exists>ch. get_state_handler i st1 = Returns (Available_state_handler_extern_fn i, ch) \<and>
          (state_channels st1 ch = [] \<longrightarrow>
            (\<exists>st2. call_shared_state_fn i x st1 = Done st2 \<and> fst (recv_state ch st2) = Some x)) \<and>
          (\<forall>j ch'. j < num_state_handler_fns \<longrightarrow> j \<noteq> i \<longrightarrow>
            get_state_handler j st1 = Returns (Available_state_handler_extern_fn j, ch') \<longrightarrow> ch' \<noteq> ch))"
proof (cases "find_available_state_handler_id choice st")
  case (Pair r st1)
  have inv: "state_invar st" and init: "init_done st"
    using assms by (auto simp only: init_done_new_trait_obj)
  show ?thesis
  proof (cases r rule: result_cases)
    case (Err e)
    then show ?thesis
      using Pair by (auto simp: find_available_state_handler_id_def split: option.splits)
  next
    case (Ok i)
    note found = find_state_handler_range [OF inv Pair [unfolded Ok]]
    have inv1: "state_invar st1"
      using state_invar_find [OF inv, of choice] by (simp add: Pair)
    have init1: "init_done st1" using init by (simp add: found(3))
    obtain f where f: "inj_on f {..<num_state_handler_fns}"
      "\<forall>i < num_state_handler_fns. available_state_senders st1 i = Some (Some (f i)) \<and>
         available_state_receivers st1 i = Some (Some (f i))"
      using inv1 init1 by (auto simp: state_invar_def)
    have get: "get_state_handler j st1 = Returns (Available_state_handler_extern_fn j, f j)"
      if "j < num_state_handler_fns" for j
      using f(2) that by (simp add: registry_defs)
    have "state_channels st1 (f i) = [] \<longrightarrow>
        (\<exists>st2. call_shared_state_fn i x st1 = Done st2 \<and> fst (recv_state (f i) st2) = Some x)"
      using f(2) found(2)
      by (simp add: call_shared_state_fn_def recv_state_def state_channel_capacity_def)
    moreover have "f j \<noteq> f i" if "j < num_state_handler_fns" "j \<noteq> i" for j
      using inj_onD [OF f(1), of j i] that found(2) by auto
    ultimately show ?thesis
      using get found by (simp add: Pair Ok)
  qed
qed

theorem state_handler_delivers_witness:
  "case find_available_state_handler_id 3 (new_trait_obj state_handler_statics_init) of
      (Err e, st1) \<Rightarrow> False
    | (Ok i, st1) \<Rightarrow> \<exists>ch. get_state_handler i st1 = Returns (Available_state_handler_extern_fn i, ch)"
proof -
  have "free_state_handler_ids (new_trait_obj state_handler_statics_init) = {..<num_state_handler_fns}"
    by (simp add: new_trait_obj_def initialize_sender_receiver_spec state_handler_statics_init_def)
  then have "free_state_handler_ids (new_trait_obj state_handler_statics_init) \<noteq> {}"
    by (simp add: num_state_handler_fns_def lessThan_empty_iff)
  then show ?thesis
    using state_handler_delivers [OF state_invar_init refl, where choice = 3 and x = ST_REGISTERED]
    by (auto split: prod.splits sum.splits)
qed

end
