(* ===== verification/Vsomeip_Config.thy ===== *)
theory Vsomeip_Config
  imports Prelude
begin

text \<open>
  \<^verbatim>\<open>up-transport-vsomeip/src/vsomeip_config.rs\<close>: the application and the services named in a
  vsomeip configuration file.

  The file system and \<^verbatim>\<open>serde_json\<close> are not part of the repository: they are the record
  \<open>json_api\<close> over any type \<open>'j\<close> of JSON values. \<open>struct_fields v fs\<close> is what a derived
  \<^verbatim>\<open>Deserialize\<close> takes out of \<open>v\<close> for the fields \<open>fs\<close> of a struct, in their order;
  \<open>json_string\<close> is \<^verbatim>\<open>String::deserialize\<close>. The parsing of hexadecimal numbers is the
  program's own, on top of Rust's \<^verbatim>\<open>u16::from_str_radix\<close>, which is modelled here.
\<close>

section \<open>Definitions\<close>

record service_config =
  service_id_of :: ServiceId
  instance_id_of :: InstanceId

record vsomeip_application_config =
  application_name :: ApplicationName
  application_id :: ClientId

definition vsomeip_application_config_new :: "string \<Rightarrow> ClientId \<Rightarrow> vsomeip_application_config" where
  "vsomeip_application_config_new name i = \<lparr>application_name = name, application_id = i\<rparr>"

record 'j json_api =
  open_and_read :: "string \<Rightarrow> string option"
  json_from_str :: "string \<Rightarrow> 'j option"
  json_get :: "'j \<Rightarrow> string \<Rightarrow> 'j option"
  json_as_array :: "'j \<Rightarrow> 'j list option"
  json_string :: "'j \<Rightarrow> string option"
  struct_fields :: "'j \<Rightarrow> string list \<Rightarrow> 'j list option"

text \<open>\<^verbatim>\<open>trim_start_matches("0x")\<close> removes the prefix as often as it is there.\<close>

function trim_start_0x :: "string \<Rightarrow> string" where
  "trim_start_0x s = (if take 2 s = ''0x'' then trim_start_0x (drop 2 s) else s)"
  by auto
termination by (relation "measure length") (auto simp: Suc_le_eq dest!: arg_cong [where f = length])

definition hex_digit :: "char \<Rightarrow> nat option" where
  "hex_digit c =
     (let n = of_char c
      in if 48 \<le> n \<and> n \<le> 57 then Some (n - 48)
         else if 97 \<le> n \<and> n \<le> 102 then Some (n - 87)
         else if 65 \<le> n \<and> n \<le> 70 then Some (n - 55)
         else None)"

text \<open>\<^verbatim>\<open>u16::from_str_radix(_, 16)\<close>: a digit at a time, with checked multiplication and
  addition; a leading plus sign is allowed in front of at least one digit.\<close>

fun hex_u16_digits :: "nat \<Rightarrow> string \<Rightarrow> u16 option" where
  "hex_u16_digits acc [] = Some (of_nat acc)"
| "hex_u16_digits acc (c # cs) =
     (case hex_digit c of
        None \<Rightarrow> None
      | Some d \<Rightarrow>
          if acc * 16 \<ge> 2 ^ 16 then None
          else if acc * 16 + d \<ge> 2 ^ 16 then None
          else hex_u16_digits (acc * 16 + d) cs)"

definition u16_from_str_radix_16 :: "string \<Rightarrow> u16 option" where
  "u16_from_str_radix_16 s =
     (if s = [] \<or> s = ''+'' \<or> s = ''-'' then None
      else hex_u16_digits 0 (if hd s = CHR ''+'' then tl s else s))"

definition deserialize_hex_u16 :: "'j json_api \<Rightarrow> 'j \<Rightarrow> u16 option" where
  "deserialize_hex_u16 J v =
     (case json_string J v of
        None \<Rightarrow> None
      | Some hex_str \<Rightarrow> u16_from_str_radix_16 (trim_start_0x hex_str))"

definition read_json_file :: "'j json_api \<Rightarrow> string \<Rightarrow> 'j option" where
  "read_json_file J file_path =
     (case open_and_read J file_path of
        None \<Rightarrow> None
      | Some content \<Rightarrow> json_from_str J content)"

definition application_from_value :: "'j json_api \<Rightarrow> 'j \<Rightarrow> vsomeip_application_config option" where
  "application_from_value J v =
     (case struct_fields J v [''name'', ''id''] of
        Some [name, i] \<Rightarrow>
          (case (json_string J name, deserialize_hex_u16 J i) of
             (Some n, Some c) \<Rightarrow> Some \<lparr>application_name = n, application_id = c\<rparr>
           | _ \<Rightarrow> None)
      | _ \<Rightarrow> None)"

definition service_from_value :: "'j json_api \<Rightarrow> 'j \<Rightarrow> service_config option" where
  "service_from_value J v =
     (case struct_fields J v [''service'', ''instance''] of
        Some [service, inst] \<Rightarrow>
          (case (deserialize_hex_u16 J service, deserialize_hex_u16 J inst) of
             (Some s, Some i) \<Rightarrow> Some \<lparr>service_id_of = s, instance_id_of = i\<rparr>
           | _ \<Rightarrow> None)
      | _ \<Rightarrow> None)"

fun services_from_values :: "'j json_api \<Rightarrow> 'j list \<Rightarrow> service_config list option" where
  "services_from_values J [] = Some []"
| "services_from_values J (v # vs) =
     (case service_from_value J v of
        None \<Rightarrow> None
      | Some s \<Rightarrow> map_option ((#) s) (services_from_values J vs))"

definition extract_application :: "'j json_api \<Rightarrow> string \<Rightarrow> vsomeip_application_config result" where
  "extract_application J file_path =
     (case read_json_file J file_path of
        None \<Rightarrow> Err (fail_with_code INVALID_ARGUMENT ''Failed to read JSON File: {e}'')
      | Some json_data \<Rightarrow>
          (case Option.bind (json_get J json_data ''applications'') (json_as_array J) of
             None \<Rightarrow> Err (fail_with_code INVALID_ARGUMENT (CHR 0x27 # ''applications' array is not Found: {:?}''))
           | Some applications \<Rightarrow>
               if applications = []
               then Err (fail_with_code INVALID_ARGUMENT ''applications array is Empty'')
               else (case application_from_value J (applications ! 0) of
                       None \<Rightarrow> Err (fail_with_code INVALID_ARGUMENT '': {e}'')
                     | Some app_config \<Rightarrow> Ok app_config)))"

definition extract_services :: "'j json_api \<Rightarrow> string \<Rightarrow> service_config list result" where
  "extract_services J file_path =
     (case read_json_file J file_path of
        None \<Rightarrow> Err (fail_with_code INVALID_ARGUMENT ''Failed to read JSON File: {e}'')
      | Some json_data \<Rightarrow>
          (case Option.bind (json_get J json_data ''services'') (json_as_array J) of
             None \<Rightarrow> Err (fail_with_code INVALID_ARGUMENT (CHR 0x27 # ''services' Array is not Found : {:?}''))
           | Some services \<Rightarrow>
               if services = []
               then Err (fail_with_code INVALID_ARGUMENT ''services array is Empty'')
               else (case services_from_values J services of
                       None \<Rightarrow> Err (fail_with_code INVALID_ARGUMENT ''Failed to change service: {e}'')
                     | Some service_configs \<Rightarrow> Ok service_configs)))"

text \<open>A JSON tree, and the documented behaviour of \<^verbatim>\<open>serde_json\<close> on it, as an instance of the record:
  the contents of a file are looked up by its path.\<close>

datatype json = JString string | JArray "json list" | JObject "(string \<times> json) list"

definition tree_json :: "(string \<rightharpoonup> json) \<Rightarrow> json json_api" where
  "tree_json files = \<lparr>open_and_read = (\<lambda>p. map_option (\<lambda>_. p) (files p)), json_from_str = files,
     json_get = (\<lambda>v k. case v of JObject kvs \<Rightarrow> map_of kvs k | _ \<Rightarrow> None),
     json_as_array = (\<lambda>v. case v of JArray vs \<Rightarrow> Some vs | _ \<Rightarrow> None),
     json_string = (\<lambda>v. case v of JString s \<Rightarrow> Some s | _ \<Rightarrow> None),
     struct_fields = (\<lambda>v fs. case v of JObject kvs \<Rightarrow> those (map (map_of kvs) fs) | _ \<Rightarrow> None)\<rparr>"

section \<open>Hexadecimal numbers\<close>

text \<open>The value a string of digits has, without any bound, and the four digits of a number.\<close>

fun hex_value :: "nat \<Rightarrow> string \<Rightarrow> nat option" where
  "hex_value acc [] = Some acc"
| "hex_value acc (c # cs) =
     (case hex_digit c of None \<Rightarrow> None | Some d \<Rightarrow> hex_value (acc * 16 + d) cs)"

definition hex_char :: "nat \<Rightarrow> char" where
  "hex_char d = char_of (if d < 10 then 48 + d else 87 + d)"

definition hex4 :: "u16 \<Rightarrow> string" where
  "hex4 w = (let n = unat w in
     [hex_char (n div 4096), hex_char (n div 256 mod 16), hex_char (n div 16 mod 16), hex_char (n mod 16)])"

declare trim_start_0x.simps [simp del]

lemma hex_value_ge: "hex_value acc cs = Some n \<Longrightarrow> acc \<le> n"
proof (induction cs arbitrary: acc)
  case (Cons c cs)
  then obtain d where "hex_value (acc * 16 + d) cs = Some n"
    by (auto split: option.splits)
  from Cons.IH [OF this] show ?case by simp
qed simp

lemma hex_u16_digits_value:
  assumes "acc < 2 ^ 16"
  shows "hex_u16_digits acc cs =
    (case hex_value acc cs of
       None \<Rightarrow> None | Some n \<Rightarrow> if n < 2 ^ 16 then Some (of_nat n) else None)"
  using assms
proof (induction cs arbitrary: acc)
  case (Cons c cs)
  show ?case
  proof (cases "hex_digit c")
    case (Some d)
    show ?thesis
    proof (cases "acc * 16 + d < 2 ^ 16")
      case True
      then show ?thesis using Some Cons.IH [of "acc * 16 + d"] by simp
    next
      case False
      then have "\<not> n < 2 ^ 16" if "hex_value (acc * 16 + d) cs = Some n" for n
        using hex_value_ge [OF that] by simp
      with Some False show ?thesis by (auto split: option.split)
    qed
  qed simp
qed simp

lemma hex_digit_char [simp]: "d < 16 \<Longrightarrow> hex_digit (hex_char d) = Some d"
  by (auto simp: hex_digit_def hex_char_def Let_def of_char_of take_bit_eq_mod)

lemma hex_char_not_prefix: "d < 16 \<Longrightarrow> hex_char d \<noteq> CHR ''x'' \<and> hex_char d \<noteq> CHR ''+''"
proof -
  assume "d < 16"
  then have "hex_digit (hex_char d) \<noteq> None" by simp
  moreover have "hex_digit (CHR ''x'') = None" "hex_digit (CHR ''+'') = None"
    by (simp_all add: hex_digit_def)
  ultimately show ?thesis by metis
qed

lemma trim_start_0x_prefix: "trim_start_0x (''0x'' @ s) = trim_start_0x s"
  by (subst trim_start_0x.simps) simp

lemma trim_start_0x_other: "take 2 s \<noteq> ''0x'' \<Longrightarrow> trim_start_0x s = s"
  by (subst trim_start_0x.simps) simp

lemma hex4_value:
  assumes "n < 65536"
  shows "(((n div 4096) * 16 + n div 256 mod 16) * 16 + n div 16 mod 16) * 16 + n mod 16 = (n :: nat)"
    "n div 4096 < 16"
proof -
  have "n div 256 = n div 16 div 16" "n div 4096 = n div 256 div 16"
    by (simp_all add: div_mult2_eq [symmetric])
  then show "(((n div 4096) * 16 + n div 256 mod 16) * 16 + n div 16 mod 16) * 16 + n mod 16 = n"
    by (simp only: div_mult_mod_eq)
  show "n div 4096 < 16" using assms by (simp add: less_mult_imp_div_less)
qed

lemma u16_parser_value:
  "u16_from_str_radix_16 s =
     (let digits = (if s \<noteq> [] \<and> hd s = CHR ''+'' then tl s else s)
      in if digits = [] then None
         else case hex_value 0 digits of
                None \<Rightarrow> None
              | Some n \<Rightarrow> if n < 2 ^ 16 then Some (of_nat n) else None) \<and>
   u16_from_str_radix_16 (trim_start_0x (''0x'' @ hex4 w)) = Some w"
proof -
  have minus: "hex_value 0 ''-'' = None" by (simp add: hex_digit_def)
  have parser: "u16_from_str_radix_16 t =
     (let digits = (if t \<noteq> [] \<and> hd t = CHR ''+'' then tl t else t)
      in if digits = [] then None
         else case hex_value 0 digits of
                None \<Rightarrow> None
              | Some n \<Rightarrow> if n < 2 ^ 16 then Some (of_nat n) else None)" for t
    using minus hex_u16_digits_value [of 0]
    by (cases t) (auto simp: u16_from_str_radix_16_def Let_def)
  have n: "unat w < 65536" using unsigned_less [of w] by simp
  note digits = hex4_value [OF n]
  have "trim_start_0x (''0x'' @ hex4 w) = hex4 w"
    unfolding trim_start_0x_prefix
    by (rule trim_start_0x_other) (simp add: hex4_def Let_def hex_char_not_prefix)
  moreover have "hex_value 0 (hex4 w) = Some (unat w)"
    using digits by (simp add: hex4_def Let_def)
  moreover have "hd (hex4 w) \<noteq> CHR ''+''" "hex4 w \<noteq> []"
    using digits(2) hex_char_not_prefix by (simp_all add: hex4_def Let_def)
  ultimately have "u16_from_str_radix_16 (trim_start_0x (''0x'' @ hex4 w)) = Some w"
    using n by (simp add: parser)
  with parser show ?thesis by blast
qed

section \<open>Properties\<close>


text \<open>A configuration file as its author writes it: ids in hexadecimal, four digits each.\<close>

definition services_json :: "service_config list \<Rightarrow> json" where
  "services_json services = JObject [(''services'', JArray (map (\<lambda>s. JObject
     [(''service'', JString (''0x'' @ hex4 (service_id_of s))),
      (''instance'', JString (''0x'' @ hex4 (instance_id_of s)))]) services))]"

definition application_json :: "vsomeip_application_config list \<Rightarrow> json" where
  "application_json apps = JObject [(''applications'', JArray (map (\<lambda>a. JObject
     [(''name'', JString (application_name a)), (''id'', JString (''0x'' @ hex4 (application_id a)))]) apps))]"

lemma services_from_json:
  "services_from_values (tree_json files) (map (\<lambda>s. JObject
     [(''service'', JString (''0x'' @ hex4 (service_id_of s))),
      (''instance'', JString (''0x'' @ hex4 (instance_id_of s)))]) services) = Some services"
proof (induction services)
  case (Cons s services)
  have "u16_from_str_radix_16 (trim_start_0x (''0x'' @ hex4 w)) = Some w" for w
    using u16_parser_value by blast
  then have "service_from_value (tree_json files) (JObject
     [(''service'', JString (''0x'' @ hex4 (service_id_of s))),
      (''instance'', JString (''0x'' @ hex4 (instance_id_of s)))]) = Some s"
    by (simp add: service_from_value_def deserialize_hex_u16_def tree_json_def)
  with Cons.IH show ?case by simp
qed simp

text \<open>
  A configuration file is read as it was written: the services listed in it, in their
  order, and the first of its applications; a file without any is refused with
  \<open>INVALID_ARGUMENT\<close>, and so is a file that cannot be read.
\<close>

theorem config_file_roundtrip:
  "extract_services (tree_json [path \<mapsto> services_json (s # services)]) path = Ok (s # services) \<and>
   extract_application (tree_json [path \<mapsto> application_json (a # apps)]) path = Ok a \<and>
   (\<exists>m. extract_services (tree_json [path \<mapsto> services_json []]) path = Err (fail_with_code INVALID_ARGUMENT m)) \<and>
   (\<exists>m. extract_application (tree_json [path \<mapsto> application_json []]) path = Err (fail_with_code INVALID_ARGUMENT m)) \<and>
   (\<exists>m. extract_services (tree_json Map.empty) path = Err (fail_with_code INVALID_ARGUMENT m)) \<and>
   (\<exists>m. extract_application (tree_json Map.empty) path = Err (fail_with_code INVALID_ARGUMENT m))"
proof -
  have get: "json_get (tree_json f) (JObject kvs) = map_of kvs" "json_as_array (tree_json f) (JArray vs) = Some vs"
    "read_json_file (tree_json f) path = f path" for f kvs vs
    by (auto simp: tree_json_def read_json_file_def split: option.split)
  have "u16_from_str_radix_16 (trim_start_0x (''0x'' @ hex4 w)) = Some w" for w
    using u16_parser_value by blast
  then have app: "application_from_value (tree_json f) (JObject [(''name'', JString (application_name a)),
      (''id'', JString (''0x'' @ hex4 (application_id a)))]) = Some a" for f
    by (simp add: application_from_value_def deserialize_hex_u16_def tree_json_def)
  note services = services_from_json [of _ "s # services", unfolded list.map]
  show ?thesis
    by (simp add: extract_services_def extract_application_def services_json_def application_json_def get
        services [unfolded append_Cons append_Nil] app [unfolded append_Cons append_Nil]
        del: services_from_values.simps)
qed

end
