(* ===== verification/Storage.thy ===== *)
theory Storage
  imports Handler_Sharing Rpc_Correlation Offered_Requested State_Handler_Registry Vsomeip_Config
begin

text \<open>
  \<^verbatim>\<open>up-transport-vsomeip/src/storage.rs\<close>: everything one transport stores, and its
  implementations of the four registry traits, each of which forwards to the registry it holds.

  The record holds the registries by value. The state-handler registry has no fields of its
  own: its state is in statics of the process (\<open>state_handler_statics\<close>), as is the pool of
  message handlers (\<open>handler_statics\<close>). The handle of the tokio runtime is not modelled.
\<close>

section \<open>Definitions\<close>

record 'm storage =
  vsomeip_application_config :: vsomeip_application_config
  storage_uri :: uuri
  remote_authority :: AuthorityName
  message_handler_registry :: 'm
  rpc_correlation :: rpc_correlation
  vsomeip_offered_requested :: offered_requested

definition storage_new ::
    "('m, 'c) bimap_api \<Rightarrow> vsomeip_application_config \<Rightarrow> uuri \<Rightarrow> AuthorityName \<Rightarrow>
     state_handler_statics \<Rightarrow> 'm storage \<times> state_handler_statics" where
  "storage_new B application_config uri remote st =
     (let st1 = new_trait_obj st
      in (\<lparr>vsomeip_application_config = application_config, storage_uri = uri,
           remote_authority = remote, message_handler_registry = bm_new B,
           rpc_correlation = rpc_correlation_new,
           vsomeip_offered_requested = offered_requested_new\<rparr>, st1))"

definition get_uri :: "'m storage \<Rightarrow> uuri" where
  "get_uri s = storage_uri s"

definition get_local_authority :: "'m storage \<Rightarrow> AuthorityName" where
  "get_local_authority s = authority_name (storage_uri s)"

definition get_remote_authority :: "'m storage \<Rightarrow> AuthorityName" where
  "get_remote_authority s = remote_authority s"

definition get_ue_id :: "'m storage \<Rightarrow> UeId" where
  "get_ue_id s = ue_id (storage_uri s)"

definition get_vsomeip_application_config :: "'m storage \<Rightarrow> vsomeip_application_config" where
  "get_vsomeip_application_config s = vsomeip_application_config s"

subsection \<open>State handlers\<close>

definition get_application_state_availability_handler ::
    "nat \<Rightarrow> state_handler_statics \<Rightarrow> (available_state_handler_fn_ptr \<times> nat) outcome" where
  "get_application_state_availability_handler i st = get_state_handler i st"

definition free_application_state_availability_handler_id ::
    "nat \<Rightarrow> state_handler_statics \<Rightarrow> unit result \<times> state_handler_statics" where
  "free_application_state_availability_handler_id i st = free_state_handler_id i st"

definition find_application_state_availability_handler_id ::
    "nat \<Rightarrow> state_handler_statics \<Rightarrow> nat result \<times> state_handler_statics" where
  "find_application_state_availability_handler_id choice st =
     find_available_state_handler_id choice st"

subsection \<open>RPC correlation\<close>

definition on_rpc_correlation ::
    "(rpc_correlation \<Rightarrow> 'a \<times> rpc_correlation) \<Rightarrow> 'm storage \<Rightarrow> 'a \<times> 'm storage" where
  "on_rpc_correlation f s = (let (x, r) = f (rpc_correlation s) in (x, s\<lparr>rpc_correlation := r\<rparr>))"

definition storage_retrieve_session_id ::
    "bool \<Rightarrow> ClientId \<Rightarrow> 'm storage \<Rightarrow> SessionId outcome \<times> 'm storage" where
  "storage_retrieve_session_id oc client_id = on_rpc_correlation (retrieve_session_id oc client_id)"

definition storage_insert_ue_request_correlation ::
    "SomeIpRequestId \<Rightarrow> uuid \<Rightarrow> uuri \<Rightarrow> 'm storage \<Rightarrow> unit result \<times> 'm storage" where
  "storage_insert_ue_request_correlation i q u =
     on_rpc_correlation (insert_ue_request_correlation i q u)"

definition storage_remove_ue_request_correlation ::
    "SomeIpRequestId \<Rightarrow> 'm storage \<Rightarrow> (uuid \<times> uuri) result \<times> 'm storage" where
  "storage_remove_ue_request_correlation i =
     on_rpc_correlation (remove_ue_request_correlation i)"

definition storage_insert_me_request_correlation ::
    "uuid \<Rightarrow> SomeIpRequestId \<Rightarrow> 'm storage \<Rightarrow> unit result \<times> 'm storage" where
  "storage_insert_me_request_correlation q i =
     on_rpc_correlation (insert_me_request_correlation q i)"

definition storage_remove_me_request_correlation ::
    "uuid \<Rightarrow> 'm storage \<Rightarrow> SomeIpRequestId result \<times> 'm storage" where
  "storage_remove_me_request_correlation q =
     on_rpc_correlation (remove_me_request_correlation q)"

subsection \<open>Offered and requested services and events\<close>

definition on_offered_requested ::
    "(offered_requested \<Rightarrow> 'a \<times> offered_requested) \<Rightarrow> 'm storage \<Rightarrow> 'a \<times> 'm storage" where
  "on_offered_requested f s =
     (let (x, r) = f (vsomeip_offered_requested s) in (x, s\<lparr>vsomeip_offered_requested := r\<rparr>))"

definition storage_is_service_offered ::
    "ServiceId \<Rightarrow> InstanceId \<Rightarrow> MethodId \<Rightarrow> 'm storage \<Rightarrow> bool" where
  "storage_is_service_offered s i m st = is_service_offered s i m (vsomeip_offered_requested st)"

definition storage_insert_service_offered ::
    "ServiceId \<Rightarrow> InstanceId \<Rightarrow> MethodId \<Rightarrow> 'm storage \<Rightarrow> bool \<times> 'm storage" where
  "storage_insert_service_offered s i m = on_offered_requested (insert_service_offered s i m)"

definition storage_is_service_requested ::
    "ServiceId \<Rightarrow> InstanceId \<Rightarrow> MethodId \<Rightarrow> 'm storage \<Rightarrow> bool" where
  "storage_is_service_requested s i m st = is_service_requested s i m (vsomeip_offered_requested st)"

definition storage_insert_service_requested ::
    "ServiceId \<Rightarrow> InstanceId \<Rightarrow> MethodId \<Rightarrow> 'm storage \<Rightarrow> bool \<times> 'm storage" where
  "storage_insert_service_requested s i m = on_offered_requested (insert_service_requested s i m)"

definition storage_is_event_offered ::
    "ServiceId \<Rightarrow> InstanceId \<Rightarrow> EventId \<Rightarrow> 'm storage \<Rightarrow> bool" where
  "storage_is_event_offered s i e st = is_event_offered s i e (vsomeip_offered_requested st)"

definition storage_insert_event_offered ::
    "ServiceId \<Rightarrow> InstanceId \<Rightarrow> EventId \<Rightarrow> 'm storage \<Rightarrow> bool \<times> 'm storage" where
  "storage_insert_event_offered s i e = on_offered_requested (insert_event_offered s i e)"

definition storage_is_event_requested ::
    "ServiceId \<Rightarrow> InstanceId \<Rightarrow> EventId \<Rightarrow> 'm storage \<Rightarrow> bool" where
  "storage_is_event_requested s i e st = is_event_requested s i e (vsomeip_offered_requested st)"

definition storage_insert_event_requested ::
    "ServiceId \<Rightarrow> InstanceId \<Rightarrow> EventId \<Rightarrow> 'm storage \<Rightarrow> bool \<times> 'm storage" where
  "storage_insert_event_requested s i e = on_offered_requested (insert_event_requested s i e)"

subsection \<open>Message handlers\<close>

definition storage_get_message_handler ::
    "('m, 'c) bimap_api \<Rightarrow> nat \<Rightarrow> nat \<Rightarrow> 'c \<Rightarrow> handler_statics \<times> 'm storage \<Rightarrow>
     (get_message_handler_error + message_handler_fn_ptr) outcome \<times> handler_statics \<times> 'm storage" where
  "storage_get_message_handler B choice t config = (\<lambda>(g, s).
     let (res, g', m') = get_message_handler B choice t config (g, message_handler_registry s)
     in (res, g', s\<lparr>message_handler_registry := m'\<rparr>))"

definition storage_release_message_handler ::
    "('m, 'c) bimap_api \<Rightarrow> 'c \<Rightarrow> handler_statics \<times> 'm storage \<Rightarrow>
     unit result \<times> handler_statics \<times> 'm storage" where
  "storage_release_message_handler B config = (\<lambda>(g, s).
     let (res, g', m') = release_message_handler B config (g, message_handler_registry s)
     in (res, g', s\<lparr>message_handler_registry := m'\<rparr>))"

definition storage_get_all_listener_configs :: "'m config_bimap \<Rightarrow> 'm storage \<Rightarrow> listener_config list" where
  "storage_get_all_listener_configs B s = get_all_listener_configs B (message_handler_registry s)"

definition storage_get_listener_for_message_handler_id ::
    "'m config_bimap \<Rightarrow> 'm storage \<Rightarrow> nat \<Rightarrow> listener option" where
  "storage_get_listener_for_message_handler_id B s i =
     get_listener_for_message_handler_id B (message_handler_registry s) i"

lemmas storage_defs [registry_defs] =
  on_rpc_correlation_def on_offered_requested_def
  storage_retrieve_session_id_def storage_insert_ue_request_correlation_def
  storage_remove_ue_request_correlation_def storage_insert_me_request_correlation_def
  storage_remove_me_request_correlation_def
  storage_is_service_offered_def storage_insert_service_offered_def
  storage_is_service_requested_def storage_insert_service_requested_def
  storage_is_event_offered_def storage_insert_event_offered_def
  storage_is_event_requested_def storage_insert_event_requested_def
  get_application_state_availability_handler_def
  free_application_state_availability_handler_id_def
  find_application_state_availability_handler_id_def

section \<open>The storage implements the registry interfaces\<close>

lemma on_rpc_correlation_eq:
  "f (rpc_correlation s) = (x, r) \<Longrightarrow> on_rpc_correlation f s = (x, s\<lparr>rpc_correlation := r\<rparr>)"
  by (simp add: on_rpc_correlation_def)

interpretation storage_ue: correlation_table "\<lambda>s. ue_request_correlation (rpc_correlation s)"
  "\<lambda>i v. storage_insert_ue_request_correlation i (fst v) (snd v)" storage_remove_ue_request_correlation
  by unfold_locales (auto simp: registry_defs split: prod.split)

interpretation storage_me: correlation_table "\<lambda>s. me_request_correlation (rpc_correlation s)"
  storage_insert_me_request_correlation storage_remove_me_request_correlation
  by unfold_locales (auto simp: registry_defs split: prod.split)

interpretation storage_offered_service: key_set
  "\<lambda>(s, i, m). storage_is_service_offered s i m" "\<lambda>(s, i, m). storage_insert_service_offered s i m"
  by unfold_locales (auto simp: registry_defs)

interpretation storage_requested_service: key_set
  "\<lambda>(s, i, m). storage_is_service_requested s i m" "\<lambda>(s, i, m). storage_insert_service_requested s i m"
  by unfold_locales (auto simp: registry_defs)

interpretation storage_offered_event: key_set
  "\<lambda>(s, i, e). storage_is_event_offered s i e" "\<lambda>(s, i, e). storage_insert_event_offered s i e"
  by unfold_locales (auto simp: registry_defs)

interpretation storage_requested_event: key_set
  "\<lambda>(s, i, e). storage_is_event_requested s i e" "\<lambda>(s, i, e). storage_insert_event_requested s i e"
  by unfold_locales (auto simp: registry_defs)

abbreviation storage_handlers :: "handler_statics \<times> 'm storage \<Rightarrow> handler_statics \<times> 'm" where
  "storage_handlers x \<equiv> (fst x, message_handler_registry (snd x))"

lemma storage_get_message_handler_eq:
  "storage_get_message_handler B ch t c x =
     (let (res, g', m') = get_message_handler B ch t c (storage_handlers x)
      in (res, g', (snd x)\<lparr>message_handler_registry := m'\<rparr>))"
  by (cases x) (simp add: storage_get_message_handler_def)

lemma storage_release_message_handler_eq:
  "storage_release_message_handler B c x =
     (let (res, g', m') = release_message_handler B c (storage_handlers x)
      in (res, g', (snd x)\<lparr>message_handler_registry := m'\<rparr>))"
  by (cases x) (simp add: storage_release_message_handler_def)

interpretation storage_pool: listener_registry "\<lambda>x. handler_invar B t (storage_handlers x)"
    "\<lambda>x. handler_used B (storage_handlers x)" "\<lambda>x. handler_free (storage_handlers x)"
    "\<lambda>ch. storage_get_message_handler B ch t" "storage_release_message_handler B" for B t
proof unfold_locales
  fix x :: "handler_statics \<times> 'a storage" and c :: 'b and i j ch :: nat
  assume inv: "handler_invar B t (storage_handlers x)"
  show "finite (handler_free (storage_handlers x))" using inv by (rule handler_pool.free_finite)
  show "handler_used B (storage_handlers x) i = Some c \<Longrightarrow>
      handler_used B (storage_handlers x) j = Some c \<Longrightarrow> i = j"
    using handler_pool.used_inj [OF inv] by blast
  show "handler_used B (storage_handlers x) i = Some c \<Longrightarrow> i \<notin> handler_free (storage_handlers x)"
    using handler_pool.used_not_free [OF inv] by blast
  show "handler_free (storage_handlers x) = {} \<Longrightarrow> \<exists>m. storage_get_message_handler B ch t c x =
      (Returns (Inl (OtherError (fail_with_code RESOURCE_EXHAUSTED m))), x)"
    using handler_pool.acquire_full [OF inv, of ch c]
    by (cases x) (auto simp: storage_get_message_handler_eq)
  show "handler_free (storage_handlers x) \<noteq> {} \<Longrightarrow> c \<in> ran (handler_used B (storage_handlers x)) \<Longrightarrow>
      \<exists>f. storage_get_message_handler B ch t c x = (Returns (Inl (ListenerConfigAlreadyExists f)), x)"
    using handler_pool.acquire_duplicate [OF inv, of c ch]
    by (cases x) (auto simp: storage_get_message_handler_eq)
  show "c \<notin> ran (handler_used B (storage_handlers x)) \<Longrightarrow>
      \<exists>m. storage_release_message_handler B c x = (Err (fail_with_code NOT_FOUND m), x)"
    using handler_pool.release_unknown [OF inv, of c]
    by (cases x) (auto simp: storage_release_message_handler_eq)
  show "\<exists>i x'. storage_get_message_handler B ch t c x =
        (Returns (Inr (Extern_fn_message_handler i)), x') \<and> i \<in> handler_free (storage_handlers x) \<and>
      handler_invar B t (storage_handlers x') \<and>
      handler_used B (storage_handlers x') = (handler_used B (storage_handlers x))(i \<mapsto> c) \<and>
      handler_free (storage_handlers x') = handler_free (storage_handlers x) - {i}"
    if "handler_free (storage_handlers x) \<noteq> {}" "c \<notin> ran (handler_used B (storage_handlers x))"
    using handler_pool.acquire_new [OF inv that, of ch]
    by (auto simp: storage_get_message_handler_eq)
  show "\<exists>x'. storage_release_message_handler B c x = (Ok (), x') \<and>
      handler_invar B t (storage_handlers x') \<and>
      handler_used B (storage_handlers x') = (handler_used B (storage_handlers x))(i := None) \<and>
      handler_free (storage_handlers x') = insert i (handler_free (storage_handlers x))"
    if "handler_used B (storage_handlers x) i = Some c"
    using handler_pool.release_known [OF inv that]
    by (auto simp: storage_release_message_handler_eq)
qed

end
