(* ===== verification/Transport_Engine.thy ===== *)
theory Transport_Engine
  imports Determine_Message_Type Message_Conversions Storage
begin

text \<open>
  \<^verbatim>\<open>up-transport-vsomeip/src/transport_engine.rs\<close>: the engine behind a transport, a thread that
  takes commands from a channel one at a time, acts on vsomeip and returns a result through
  the oneshot channel that came with the command.

  The registries that travel with a command are those of the storage of the transport that
  sends it. The engine's state is that storage, the statics of the state handlers and the
  calls made on vsomeip so far. The number of the state handler the pool yields and the
  application states vsomeip reports within the waiting time of \<^verbatim>\<open>create_app\<close> belong to the
  environment; they come with each command as an \<open>engine_env\<close>. A panic ends the engine's
  thread: the command it was working on and all later ones get no answer.
\<close>

section \<open>Commands and state\<close>

datatype transport_command =
    RegisterListener uuri "uuri option" registration_type message_handler_fn_ptr ApplicationName
  | UnregisterListener uuri "uuri option" registration_type ApplicationName
  | SendMessage umessage registration_type ApplicationName
  | StartVsomeipApp ClientId ApplicationName
  | StopVsomeipApp ApplicationName

record engine_env =
  env_choice :: nat
  env_states :: "state_type_e list"

record 'm engine_state =
  engine_storage :: "'m storage"
  engine_state_handlers :: state_handler_statics
  engine_log :: vsomeip_log

section \<open>Listeners\<close>

definition register_listener_internal ::
    "vsomeip_api \<Rightarrow> uuri \<Rightarrow> uuri option \<Rightarrow> registration_type \<Rightarrow> message_handler_fn_ptr \<Rightarrow>
     ApplicationName \<Rightarrow> offered_requested \<times> vsomeip_log \<Rightarrow>
     unit result \<times> offered_requested \<times> vsomeip_log" where
  "register_listener_internal V source_filter sink_filter registration_type msg_handler app =
     (\<lambda>(reg, log). case registration_type of
        Publish \<Rightarrow>
          let (_, service_id) = split_u32_to_u16 (ue_id source_filter);
              instance_id = 1;
              (_, event_id) = split_u32_to_u16 (resource_id source_filter);
              (reg1, log1) =
                (if \<not> is_event_requested service_id instance_id event_id reg
                 then (let log2 = vsomeip_do app
                             (Request_service service_id instance_id (ANY_MAJOR V) (ANY_MINOR V)) log;
                           log3 = request_single_event_safe app service_id instance_id event_id event_id log2;
                           log4 = vsomeip_do app
                             (Subscribe service_id instance_id event_id (ANY_MAJOR V) event_id) log3
                       in (snd (insert_event_requested service_id instance_id event_id reg), log4))
                 else (reg, log))
          in (Ok (), reg1,
              register_message_handler_fn_ptr_safe app service_id instance_id event_id msg_handler log1)
      | Request \<Rightarrow>
          (case sink_filter of
             None \<Rightarrow> (Err (fail_with_code INVALID_ARGUMENT
               ''Unable to map source and sink filters to uProtocol message type''), reg, log)
           | Some sink_filter \<Rightarrow>
               let (_, service_id) = split_u32_to_u16 (ue_id sink_filter);
                   instance_id = 1;
                   (_, method_id) = split_u32_to_u16 (resource_id sink_filter);
                   (_, _, _, major_version) = split_u32_to_u8 (ue_version_major sink_filter);
                   (reg1, log1) =
                     (if \<not> is_service_offered service_id instance_id method_id reg
                      then (snd (insert_service_offered service_id instance_id method_id reg),
                            vsomeip_do app
                              (Offer_service service_id instance_id major_version (DEFAULT_MINOR V)) log)
                      else (reg, log))
               in (Ok (), reg1,
                   register_message_handler_fn_ptr_safe app service_id (ANY_INSTANCE V) method_id
                     msg_handler log1))
      | Response \<Rightarrow>
          let (_, service_id) = split_u32_to_u16 (ue_id source_filter);
              instance_id = ANY_INSTANCE V;
              (_, method_id) = split_u32_to_u16 (resource_id source_filter);
              (reg1, log1) =
                (if \<not> is_service_requested service_id instance_id method_id reg
                 then (snd (insert_service_requested service_id instance_id method_id reg),
                       vsomeip_do app
                         (Request_service service_id instance_id (ANY_MAJOR V) (ANY_MINOR V)) log)
                 else (reg, log))
          in (Ok (), reg1,
              register_message_handler_fn_ptr_safe app service_id instance_id method_id msg_handler log1)
      | AllPointToPoint \<Rightarrow>
          (Err (fail_with_code INTERNAL
             ''Should be impossible to register point-to-point internally''), reg, log))"

definition unregister_listener_internal ::
    "vsomeip_api \<Rightarrow> uuri \<Rightarrow> uuri option \<Rightarrow> registration_type \<Rightarrow> ApplicationName \<Rightarrow> vsomeip_log \<Rightarrow>
     unit result \<times> vsomeip_log" where
  "unregister_listener_internal V source_filter sink_filter registration_type app log =
     (case registration_type of
        Publish \<Rightarrow>
          let (_, service_id) = split_u32_to_u16 (ue_id source_filter);
              instance_id = ANY_INSTANCE V;
              (_, method_id) = split_u32_to_u16 (resource_id source_filter)
          in (Ok (), vsomeip_do app (Unregister_message_handler service_id instance_id method_id) log)
      | Request \<Rightarrow>
          (case sink_filter of
             None \<Rightarrow> (Err (fail_with_code INVALID_ARGUMENT ''Request doesn't contain sink''), log)
           | Some sink_filter \<Rightarrow>
               let (_, service_id) = split_u32_to_u16 (ue_id sink_filter);
                   instance_id = ANY_INSTANCE V;
                   (_, method_id) = split_u32_to_u16 (resource_id sink_filter)
               in (Ok (), vsomeip_do app
                     (Unregister_message_handler service_id instance_id method_id) log))
      | Response \<Rightarrow>
          (case sink_filter of
             None \<Rightarrow> (Err (fail_with_code INVALID_ARGUMENT ''Request doesn't contain sink''), log)
           | Some sink_filter \<Rightarrow>
               let (_, service_id) = split_u32_to_u16 (ue_id sink_filter);
                   instance_id = ANY_INSTANCE V;
                   (_, method_id) = split_u32_to_u16 (resource_id sink_filter)
               in (Ok (), vsomeip_do app
                     (Unregister_message_handler service_id instance_id method_id) log))
      | AllPointToPoint \<Rightarrow>
          (Err (fail_with_code INTERNAL
             ''Should be impossible to unregister point-to-point internally''), log))"

section \<open>Messages\<close>

definition send_internal ::
    "up_rust \<Rightarrow> vsomeip_api \<Rightarrow> bool \<Rightarrow> umessage \<Rightarrow> ApplicationName \<Rightarrow>
     rpc_correlation \<times> offered_requested \<times> vsomeip_log \<Rightarrow>
     unit result outcome \<times> rpc_correlation \<times> offered_requested \<times> vsomeip_log" where
  "send_internal U V overflow_checks umsg app = (\<lambda>(rpc, reg, log).
     let payload = (case umsg_payload umsg of Some bytes \<Rightarrow> bytes | None \<Rightarrow> []);
         vsomeip_payload = set_data_safe payload
     in case enum_value_or (attr_type (attributes_of U umsg)) UMESSAGE_TYPE_UNSPECIFIED of
          UMESSAGE_TYPE_UNSPECIFIED \<Rightarrow>
            (Returns (Err (fail_with_code INVALID_ARGUMENT
               ''Unspecified message type not supported'')), rpc, reg, log)
        | UMESSAGE_TYPE_NOTIFICATION \<Rightarrow>
            (Returns (Err (fail_with_code INVALID_ARGUMENT
               ''Notification is not supported'')), rpc, reg, log)
        | UMESSAGE_TYPE_PUBLISH \<Rightarrow>
            (case umsg_publish_to_vsomeip_notification U V umsg app (reg, log) of
               (Err e, reg1, log1) \<Rightarrow> (Returns (Err e), rpc, reg1, log1)
             | (Ok (service_id, instance_id, event_id), reg1, log1) \<Rightarrow>
                 (Returns (Ok ()), rpc, reg1,
                  vsomeip_do app (Notify service_id instance_id event_id vsomeip_payload True) log1))
        | UMESSAGE_TYPE_REQUEST \<Rightarrow>
            (case umsg_request_to_vsomeip_message U V overflow_checks umsg app log rpc of
               (Panics, rpc1) \<Rightarrow> (Panics, rpc1, reg, log)
             | (Returns (Err e), rpc1) \<Rightarrow> (Returns (Err e), rpc1, reg, log)
             | (Returns (Ok vsomeip_msg), rpc1) \<Rightarrow>
                 (Returns (Ok ()), rpc1, reg,
                  vsomeip_do app (Send (set_message_payload vsomeip_payload vsomeip_msg)) log))
        | UMESSAGE_TYPE_RESPONSE \<Rightarrow>
            (case umsg_response_to_vsomeip_message U V umsg rpc of
               (Err e, rpc1) \<Rightarrow> (Returns (Err e), rpc1, reg, log)
             | (Ok vsomeip_msg, rpc1) \<Rightarrow>
                 (Returns (Ok ()), rpc1, reg,
                  vsomeip_do app (Send (set_message_payload vsomeip_payload vsomeip_msg)) log)))"

section \<open>Applications\<close>

text \<open>
  \<open>start_app_thread\<close> is the closure \<^verbatim>\<open>create_app\<close> runs on a thread of its own, which starts the
  application; \<^verbatim>\<open>recv_timeout\<close> then waits for a state of it.
\<close>

definition start_app_thread :: "vsomeip_api \<Rightarrow> ApplicationName \<Rightarrow> vsomeip_log \<Rightarrow> vsomeip_log" where
  "start_app_thread V app_name log =
     (case make_application_wrapper app_name (get_application V log app_name) of
        None \<Rightarrow> log
      | Some app \<Rightarrow> vsomeip_do app Start log)"

definition create_app ::
    "vsomeip_api \<Rightarrow> engine_env \<Rightarrow> ApplicationName \<Rightarrow> string option \<Rightarrow>
     state_handler_statics \<times> vsomeip_log \<Rightarrow>
     unit result outcome \<times> state_handler_statics \<times> vsomeip_log" where
  "create_app V env app_name config_path = (\<lambda>(st, log).
     case make_application_wrapper app_name (get_application V log app_name) of
       Some _ \<Rightarrow> (Returns (Err (fail_with_code ALREADY_EXISTS
         ''vsomeip app already exists with app_name: {app_name}'')), st, log)
     | None \<Rightarrow>
     (case find_application_state_availability_handler_id (env_choice env) st of
        (Err e, st1) \<Rightarrow> (Returns (Err e), st1, log)
      | (Ok state_handler_id, st1) \<Rightarrow>
     (case get_application_state_availability_handler state_handler_id st1 of
        Panics \<Rightarrow> (Panics, st1, log)
      | Returns (available_state_handler_fn_ptr, receiver) \<Rightarrow>
          let log1 = vsomeip_do app_name (Create_application config_path) log
          in (case make_application_wrapper app_name
                     (create_application V log app_name config_path) of
                None \<Rightarrow> (Returns (Err (fail_with_code INTERNAL
                  ''Unable to create vsomeip application'')), st1, log1)
              | Some app \<Rightarrow>
                  let log2 = vsomeip_do app Init log1;
                      log3 = register_state_handler_fn_ptr_safe app available_state_handler_fn_ptr log2;
                      log4 = start_app_thread V app_name log3;
                      st2 = deliver_states state_handler_id (env_states env) st1
                  in (case recv_state receiver st2 of
                        (None, st3) \<Rightarrow> (Returns (Err (fail_with_code INTERNAL
                          ''Timed out on waiting for application to start: {err:?}'')), st3, log4)
                      | (Some app_state, st3) \<Rightarrow>
                          let log5 = vsomeip_do app Unregister_state_handler log4
                          in (case free_application_state_availability_handler_id state_handler_id st3 of
                                (Err e, st4) \<Rightarrow> (Returns (Err e), st4, log5)
                              | (Ok _, st4) \<Rightarrow> (Returns (Ok ()), st4, log5)))))))"

definition start_vsomeip_app_internal ::
    "vsomeip_api \<Rightarrow> engine_env \<Rightarrow> ApplicationName \<Rightarrow> string option \<Rightarrow>
     state_handler_statics \<times> vsomeip_log \<Rightarrow>
     unit result outcome \<times> state_handler_statics \<times> vsomeip_log" where
  "start_vsomeip_app_internal V env app_name config_path s =
     (case create_app V env app_name config_path s of
        (Panics, s1) \<Rightarrow> (Panics, s1)
      | (Returns (Err e), s1) \<Rightarrow> (Returns (Err e), s1)
      | (Returns (Ok _), s1) \<Rightarrow> (Returns (Ok ()), s1))"

definition stop_vsomeip_app_internal ::
    "vsomeip_api \<Rightarrow> ApplicationName \<Rightarrow> vsomeip_log \<Rightarrow> unit result \<times> vsomeip_log" where
  "stop_vsomeip_app_internal V app_name log =
     (case make_application_wrapper app_name (get_application V log app_name) of
        None \<Rightarrow> (Err (fail_with_code INTERNAL ''No application exists''), log)
      | Some app \<Rightarrow> (Ok (), vsomeip_do app Stop log))"

section \<open>The event loop\<close>

fun handle_command ::
    "up_rust \<Rightarrow> vsomeip_api \<Rightarrow> bool \<Rightarrow> string option \<Rightarrow> engine_env \<Rightarrow> transport_command \<Rightarrow>
     'm engine_state \<Rightarrow> unit result outcome \<times> 'm engine_state" where
  "handle_command U V oc config_path env (RegisterListener src sink registration_type msg_handler app_name) e =
     (case make_application_wrapper app_name (get_application V (engine_log e) app_name) of
        None \<Rightarrow> (Returns (Err (fail_with_code INTERNAL
          ''Application does not exist for app_name: {app_name}'')), e)
      | Some app \<Rightarrow>
          let (res, reg, log) = register_listener_internal V src sink registration_type msg_handler app
                (vsomeip_offered_requested (engine_storage e), engine_log e)
          in (Returns res, e\<lparr>engine_storage := (engine_storage e)\<lparr>vsomeip_offered_requested := reg\<rparr>,
                engine_log := log\<rparr>))"
| "handle_command U V oc config_path env (UnregisterListener src sink registration_type app_name) e =
     (case make_application_wrapper app_name (get_application V (engine_log e) app_name) of
        None \<Rightarrow> (Returns (Err (fail_with_code INTERNAL
          ''Application does not exist for app_name: {app_name}'')), e)
      | Some app \<Rightarrow>
          let (res, log) = unregister_listener_internal V src sink registration_type app (engine_log e)
          in (Returns res, e\<lparr>engine_log := log\<rparr>))"
| "handle_command U V oc config_path env (SendMessage umsg message_type app_name) e =
     (case make_application_wrapper app_name (get_application V (engine_log e) app_name) of
        None \<Rightarrow> (Returns (Err (fail_with_code INTERNAL ''No application exists for {app_name}'')), e)
      | Some app \<Rightarrow>
          let (res, rpc, reg, log) = send_internal U V oc umsg app
                (rpc_correlation (engine_storage e), vsomeip_offered_requested (engine_storage e),
                 engine_log e)
          in (res, e\<lparr>engine_storage := (engine_storage e)\<lparr>rpc_correlation := rpc,
                       vsomeip_offered_requested := reg\<rparr>,
                     engine_log := log\<rparr>))"
| "handle_command U V oc config_path env (StartVsomeipApp client_id app_name) e =
     (let (res, st, log) = start_vsomeip_app_internal V env app_name config_path
            (engine_state_handlers e, engine_log e)
      in (res, e\<lparr>engine_state_handlers := st, engine_log := log\<rparr>))"
| "handle_command U V oc config_path env (StopVsomeipApp app_name) e =
     (let (res, log) = stop_vsomeip_app_internal V app_name (engine_log e)
      in (Returns res, e\<lparr>engine_log := log\<rparr>))"

text \<open>
  The commands in the order the channel yields them. The first component has what the oneshot
  channel of each command carries: its result, or \<open>None\<close> when it was dropped. The last one
  tells whether the thread is still running.
\<close>

fun event_loop ::
    "up_rust \<Rightarrow> vsomeip_api \<Rightarrow> bool \<Rightarrow> string option \<Rightarrow> (engine_env \<times> transport_command) list \<Rightarrow>
     'm engine_state \<Rightarrow> unit result option list \<times> 'm engine_state \<times> bool" where
  "event_loop U V oc config_path [] e = ([], e, True)"
| "event_loop U V oc config_path ((env, cmd) # cmds) e =
     (case handle_command U V oc config_path env cmd e of
        (Panics, e1) \<Rightarrow> (None # map (\<lambda>_. None) cmds, e1, False)
      | (Returns res, e1) \<Rightarrow>
          let (results, e2, running) = event_loop U V oc config_path cmds e1
          in (Some res # results, e2, running))"

lemmas engine_definitions [engine_defs] =
  register_listener_internal_def unregister_listener_internal_def send_internal_def
  start_app_thread_def stop_vsomeip_app_internal_def

end
