(* ===== verification/Engine_Once.thy ===== *)
theory Engine_Once
  imports Transport_Engine
begin

text \<open>
  The guards of the engine: whatever listeners are registered and whatever is published, in
  whatever order, vsomeip is asked to offer, request or subscribe once per service, instance
  and method or event. Each theorem is the fact \<open>guarded_once\<close> of the interface \<open>key_set\<close> at
  one of the four sets of \<^verbatim>\<open>InMemoryVsomeipOfferedRequestedRegistry\<close>.
\<close>

section \<open>Runs of registrations\<close>

fun is_handler_call :: "ApplicationName \<times> vsomeip_call \<Rightarrow> bool" where
  "is_handler_call (app, Register_message_handler s i m h) = True"
| "is_handler_call (app, _) = False"

fun is_notify_call :: "ApplicationName \<times> vsomeip_call \<Rightarrow> bool" where
  "is_notify_call (app, Notify s i e p force) = True"
| "is_notify_call (app, _) = False"

type_synonym registration = "uuri \<times> uuri option \<times> message_handler_fn_ptr"

definition register_run ::
    "vsomeip_api \<Rightarrow> ApplicationName \<Rightarrow> registration_type \<Rightarrow> registration list \<Rightarrow>
     offered_requested \<times> vsomeip_log \<Rightarrow> offered_requested \<times> vsomeip_log" where
  "register_run V app t regs =
     fold (\<lambda>(src, sink, h) s. snd (register_listener_internal V src sink t h app s)) regs"

text \<open>Published messages one after the other; none of them touches the correlations \<open>rpc\<close>.\<close>

definition publish_run ::
    "up_rust \<Rightarrow> vsomeip_api \<Rightarrow> ApplicationName \<Rightarrow> rpc_correlation \<Rightarrow> umessage list \<Rightarrow>
     offered_requested \<times> vsomeip_log \<Rightarrow> offered_requested \<times> vsomeip_log" where
  "publish_run U V app rpc msgs =
     fold (\<lambda>m (reg, log). snd (snd (send_internal U V True m app (rpc, reg, log)))) msgs"

text \<open>The key under which a filter or the source of a published message is remembered.\<close>

definition uri_key :: "InstanceId \<Rightarrow> uuri \<Rightarrow> service_key" where
  "uri_key i u = (ucast (ue_id u), i, ucast (resource_id u))"

context key_set
begin

text \<open>
  Steps that log a call \<open>h x\<close> of one kind each and, before it, the calls \<open>eff\<close> of other kinds
  for a key that is not yet in the set: the calls \<open>eff\<close> are made once per new key.
\<close>

lemma fold_once:
  assumes step: "\<And>x s log. x \<in> set xs \<Longrightarrow> step x (s, log) =
      (if contains (key x) s then (s, log @ [h x])
       else (snd (add (key x) s), log @ eff (key x) @ [h x]))"
    and other: "\<And>x. x \<in> set xs \<Longrightarrow> filter P (eff (key x)) = []"
    and same: "\<And>x. x \<in> set xs \<Longrightarrow> P (h x)"
  shows "\<exists>s' L ds. fold step xs (s, log) = (s', L) \<and> distinct ds \<and>
    set ds = {k \<in> key ` set xs. \<not> contains k s} \<and>
    filter (\<lambda>c. \<not> P c) L = filter (\<lambda>c. \<not> P c) log @ concat (map eff ds) \<and>
    filter P L = filter P log @ map h xs \<and>
    (\<forall>k. contains k s' \<longleftrightarrow> contains k s \<or> k \<in> key ` set xs)"
proof -
  let ?act = "\<lambda>k s. if contains k s then ([], s) else (eff k, snd (add k s))"
  have run: "\<exists>L. fold step xs (s, log) = (snd (guarded_run ?act (map key xs) s), L) \<and>
      filter (\<lambda>c. \<not> P c) L = filter (\<lambda>c. \<not> P c) log @ fst (guarded_run ?act (map key xs) s) \<and>
      filter P L = filter P log @ map h xs"
    using step other same
  proof (induction xs arbitrary: s log)
    case (Cons x xs)
    let ?a = "?act (key x) s"
    have none: "filter P (fst ?a) = []" using Cons.prems(2) by simp
    then have all: "filter (\<lambda>c. \<not> P c) (fst ?a) = fst ?a"
      by (auto simp: filter_empty_conv filter_id_conv)
    have now: "step x (s, log) = (snd ?a, log @ fst ?a @ [h x])" using Cons.prems(1) by simp
    have "P (h x)" using Cons.prems(3) by simp
    moreover have "\<exists>L. fold step xs (snd ?a, log @ fst ?a @ [h x]) =
          (snd (guarded_run ?act (map key xs) (snd ?a)), L) \<and>
        filter (\<lambda>c. \<not> P c) L = filter (\<lambda>c. \<not> P c) (log @ fst ?a @ [h x]) @
          fst (guarded_run ?act (map key xs) (snd ?a)) \<and>
        filter P L = filter P (log @ fst ?a @ [h x]) @ map h xs"
      using Cons.prems by (intro Cons.IH) auto
    then obtain L where
      "fold step xs (snd ?a, log @ fst ?a @ [h x]) = (snd (guarded_run ?act (map key xs) (snd ?a)), L)"
      "filter (\<lambda>c. \<not> P c) L = filter (\<lambda>c. \<not> P c) (log @ fst ?a @ [h x]) @
        fst (guarded_run ?act (map key xs) (snd ?a))"
      "filter P L = filter P (log @ fst ?a @ [h x]) @ map h xs"
      by blast
    moreover have "guarded_run ?act (map key (x # xs)) s =
        (fst ?a @ fst (guarded_run ?act (map key xs) (snd ?a)),
         snd (guarded_run ?act (map key xs) (snd ?a)))"
      by (simp only: list.map guarded_run.simps Let_def case_prod_unfold)
    ultimately show ?case
      using none all unfolding fold_simps comp_apply now by (intro exI [of _ L]) simp
  qed simp
  from guarded_once [of "map key xs" ?act eff s] obtain ds where "distinct ds"
    "set ds = {k \<in> key ` set xs. \<not> contains k s}"
    "fst (guarded_run ?act (map key xs) s) = concat (map eff ds)"
    "\<forall>k. contains k (snd (guarded_run ?act (map key xs) s)) \<longleftrightarrow> contains k s \<or> k \<in> key ` set xs"
    by auto
  moreover from run obtain L where
    "fold step xs (s, log) = (snd (guarded_run ?act (map key xs) s), L)"
    "filter (\<lambda>c. \<not> P c) L = filter (\<lambda>c. \<not> P c) log @ fst (guarded_run ?act (map key xs) s)"
    "filter P L = filter P log @ map h xs"
    by blast
  ultimately show ?thesis
    by (intro exI [of _ "snd (guarded_run ?act (map key xs) s)"] exI [of _ L] exI [of _ ds]) simp
qed

end

section \<open>Properties\<close>

text \<open>
  C27. Registering any list of listeners for published events requests each event's service,
  requests the event and subscribes to it once for every event that was not requested before,
  in this order, and hands every listener's handler to vsomeip, under the event's own key.
\<close>

theorem subscribe_once:
  "\<exists>reg' L ds. register_run V app Publish regs (reg, log) = (reg', L) \<and>
    distinct ds \<and> set ds = {uri_key 1 src |src sink h. (src, sink, h) \<in> set regs} - requested_events reg \<and>
    filter (\<lambda>c. \<not> is_handler_call c) L = filter (\<lambda>c. \<not> is_handler_call c) log @
      concat (map (\<lambda>(s, i, e). [(app, Request_service s i (ANY_MAJOR V) (ANY_MINOR V)),
        (app, Request_event s i e {e}), (app, Subscribe s i e (ANY_MAJOR V) e)]) ds) \<and>
    filter is_handler_call L = filter is_handler_call log @
      map (\<lambda>(src, sink, h). (app, Register_message_handler (ucast (ue_id src)) 1
        (ucast (resource_id src)) h)) regs"
proof -
  have keys: "(\<lambda>(src, sink, h). uri_key 1 src) ` set regs =
      {uri_key 1 src |src sink h. (src, sink, h) \<in> set regs}" by force
  have "\<exists>reg' L ds. register_run V app Publish regs (reg, log) = (reg', L) \<and> distinct ds \<and>
    set ds = {k \<in> (\<lambda>(src, sink, h). uri_key 1 src) ` set regs.
      \<not> (\<lambda>(s, i, e). is_event_requested s i e) k reg} \<and>
    filter (\<lambda>c. \<not> is_handler_call c) L = filter (\<lambda>c. \<not> is_handler_call c) log @
      concat (map (\<lambda>(s, i, e). [(app, Request_service s i (ANY_MAJOR V) (ANY_MINOR V)),
        (app, Request_event s i e {e}), (app, Subscribe s i e (ANY_MAJOR V) e)]) ds) \<and>
    filter is_handler_call L = filter is_handler_call log @
      map (\<lambda>(src, sink, h). (app, Register_message_handler (ucast (ue_id src)) 1
        (ucast (resource_id src)) h)) regs \<and>
    (\<forall>k. (\<lambda>(s, i, e). is_event_requested s i e) k reg' \<longleftrightarrow>
      (\<lambda>(s, i, e). is_event_requested s i e) k reg \<or> k \<in> (\<lambda>(src, sink, h). uri_key 1 src) ` set regs)"
    unfolding register_run_def
    by (rule requested_event.fold_once)
      (auto simp: engine_defs registry_defs uri_key_def split_u32_to_u16_eq Let_def)
  then show ?thesis unfolding keys by (fastforce simp: registry_defs)
qed

text \<open>
  Registering any list of response listeners requests the service once for every service
  and method that was not requested before, and hands every listener's handler to vsomeip.
\<close>

theorem request_service_once:
  "\<exists>reg' L ds. register_run V app Response regs (reg, log) = (reg', L) \<and>
    distinct ds \<and> set ds = {uri_key (ANY_INSTANCE V) src |src sink h. (src, sink, h) \<in> set regs} -
      requested_services reg \<and>
    filter (\<lambda>c. \<not> is_handler_call c) L = filter (\<lambda>c. \<not> is_handler_call c) log @
      concat (map (\<lambda>(s, i, m). [(app, Request_service s i (ANY_MAJOR V) (ANY_MINOR V))]) ds) \<and>
    filter is_handler_call L = filter is_handler_call log @
      map (\<lambda>(src, sink, h). (app, Register_message_handler (ucast (ue_id src)) (ANY_INSTANCE V)
        (ucast (resource_id src)) h)) regs"
proof -
  have keys: "(\<lambda>(src, sink, h). uri_key (ANY_INSTANCE V) src) ` set regs =
      {uri_key (ANY_INSTANCE V) src |src sink h. (src, sink, h) \<in> set regs}" by force
  have "\<exists>reg' L ds. register_run V app Response regs (reg, log) = (reg', L) \<and> distinct ds \<and>
    set ds = {k \<in> (\<lambda>(src, sink, h). uri_key (ANY_INSTANCE V) src) ` set regs.
      \<not> (\<lambda>(s, i, m). is_service_requested s i m) k reg} \<and>
    filter (\<lambda>c. \<not> is_handler_call c) L = filter (\<lambda>c. \<not> is_handler_call c) log @
      concat (map (\<lambda>(s, i, m). [(app, Request_service s i (ANY_MAJOR V) (ANY_MINOR V))]) ds) \<and>
    filter is_handler_call L = filter is_handler_call log @
      map (\<lambda>(src, sink, h). (app, Register_message_handler (ucast (ue_id src)) (ANY_INSTANCE V)
        (ucast (resource_id src)) h)) regs \<and>
    (\<forall>k. (\<lambda>(s, i, m). is_service_requested s i m) k reg' \<longleftrightarrow>
      (\<lambda>(s, i, m). is_service_requested s i m) k reg \<or>
      k \<in> (\<lambda>(src, sink, h). uri_key (ANY_INSTANCE V) src) ` set regs)"
    unfolding register_run_def
    by (rule requested_service.fold_once)
      (auto simp: engine_defs registry_defs uri_key_def split_u32_to_u16_eq Let_def)
  then show ?thesis unfolding keys by (fastforce simp: registry_defs)
qed

text \<open>
  Registering any list of request listeners for methods of one interface version offers
  the service once for every service and method that was not offered before, in that version,
  and hands every listener's handler to vsomeip.
\<close>

theorem offer_service_once:
  assumes "\<forall>(src, snk, h) \<in> set xs. ucast (ue_version_major snk) = v"
  shows "\<exists>reg' L ds. register_run V app Request (map (\<lambda>(src, snk, h). (src, Some snk, h)) xs) (reg, log) =
      (reg', L) \<and>
    distinct ds \<and> set ds = {uri_key 1 snk |src snk h. (src, snk, h) \<in> set xs} - offered_services reg \<and>
    filter (\<lambda>c. \<not> is_handler_call c) L = filter (\<lambda>c. \<not> is_handler_call c) log @
      concat (map (\<lambda>(s, i, m). [(app, Offer_service s i v (DEFAULT_MINOR V))]) ds) \<and>
    filter is_handler_call L = filter is_handler_call log @
      map (\<lambda>(src, snk, h). (app, Register_message_handler (ucast (ue_id snk)) (ANY_INSTANCE V)
        (ucast (resource_id snk)) h)) xs"
proof -
  have keys: "(\<lambda>(src, snk, h). uri_key 1 snk) ` set xs =
      {uri_key 1 snk |src snk h. (src, snk, h) \<in> set xs}" by force
  have "\<exists>reg' L ds. register_run V app Request (map (\<lambda>(src, snk, h). (src, Some snk, h)) xs) (reg, log) =
      (reg', L) \<and> distinct ds \<and>
    set ds = {k \<in> (\<lambda>(src, snk, h). uri_key 1 snk) ` set xs.
      \<not> (\<lambda>(s, i, m). is_service_offered s i m) k reg} \<and>
    filter (\<lambda>c. \<not> is_handler_call c) L = filter (\<lambda>c. \<not> is_handler_call c) log @
      concat (map (\<lambda>(s, i, m). [(app, Offer_service s i v (DEFAULT_MINOR V))]) ds) \<and>
    filter is_handler_call L = filter is_handler_call log @
      map (\<lambda>(src, snk, h). (app, Register_message_handler (ucast (ue_id snk)) (ANY_INSTANCE V)
        (ucast (resource_id snk)) h)) xs \<and>
    (\<forall>k. (\<lambda>(s, i, m). is_service_offered s i m) k reg' \<longleftrightarrow>
      (\<lambda>(s, i, m). is_service_offered s i m) k reg \<or> k \<in> (\<lambda>(src, snk, h). uri_key 1 snk) ` set xs)"
    unfolding register_run_def fold_map
    by (rule offered_service.fold_once) (use assms in \<open>auto simp: engine_defs registry_defs
      uri_key_def split_u32_to_u16_eq split_u32_to_u8_low Let_def\<close>)
  then show ?thesis unfolding keys by (fastforce simp: registry_defs)
qed

theorem offer_service_once_witness:
  "\<exists>reg' L. register_run (example_vsomeip 1) ''app'' Request
      (map (\<lambda>(src, snk, h). (src, Some snk, h))
        (replicate 5 (uuri_any permissive_up_rust, any_uuri_fixed_authority_id ''h'' 7,
          Extern_fn_message_handler 0))) (offered_requested_new, []) = (reg', L) \<and>
    filter is_handler_call L = replicate 5 (''app'', Register_message_handler 7 0xFFFF 0xFFFF
      (Extern_fn_message_handler 0))"
  using offer_service_once [of "replicate 5 (uuri_any permissive_up_rust,
      any_uuri_fixed_authority_id ''h'' 7, Extern_fn_message_handler 0)" "0xFF"
      "example_vsomeip 1" "''app''" offered_requested_new "[]"]
  by (auto simp: any_uuri_fixed_authority_id_def example_vsomeip_def)

text \<open>
  Publishing any list of messages offers the service and the event once for every event
  that was not offered before, and notifies vsomeip of every message, in order, with the
  message's own payload.
\<close>

theorem publish_offers_once:
  assumes "\<forall>(m, source, bytes) \<in> set xs. attr_type (attributes_of U m) = Known UMESSAGE_TYPE_PUBLISH \<and>
    attr_source (attributes_of U m) = Some source \<and> umsg_payload m = Some bytes"
  shows "\<exists>reg' L ds. publish_run U V app rpc (map fst xs) (reg, log) = (reg', L) \<and>
    distinct ds \<and> set ds = {uri_key 1 source |m source bytes. (m, source, bytes) \<in> set xs} -
      offered_events reg \<and>
    filter (\<lambda>c. \<not> is_notify_call c) L = filter (\<lambda>c. \<not> is_notify_call c) log @
      concat (map (\<lambda>(s, i, e). [(app, Offer_service s i (ANY_MAJOR V) (ANY_MINOR V)),
        (app, Offer_event s i e {e})]) ds) \<and>
    filter is_notify_call L = filter is_notify_call log @
      map (\<lambda>(m, source, bytes). (app, Notify (ucast (ue_id source)) 1 (ucast (resource_id source))
        (set_data_safe bytes) True)) xs"
proof -
  have keys: "(\<lambda>(m, source, bytes). uri_key 1 source) ` set xs =
      {uri_key 1 source |m source bytes. (m, source, bytes) \<in> set xs}" by force
  have "\<exists>reg' L ds. publish_run U V app rpc (map fst xs) (reg, log) = (reg', L) \<and> distinct ds \<and>
    set ds = {k \<in> (\<lambda>(m, source, bytes). uri_key 1 source) ` set xs.
      \<not> (\<lambda>(s, i, e). is_event_offered s i e) k reg} \<and>
    filter (\<lambda>c. \<not> is_notify_call c) L = filter (\<lambda>c. \<not> is_notify_call c) log @
      concat (map (\<lambda>(s, i, e). [(app, Offer_service s i (ANY_MAJOR V) (ANY_MINOR V)),
        (app, Offer_event s i e {e})]) ds) \<and>
    filter is_notify_call L = filter is_notify_call log @
      map (\<lambda>(m, source, bytes). (app, Notify (ucast (ue_id source)) 1 (ucast (resource_id source))
        (set_data_safe bytes) True)) xs \<and>
    (\<forall>k. (\<lambda>(s, i, e). is_event_offered s i e) k reg' \<longleftrightarrow>
      (\<lambda>(s, i, e). is_event_offered s i e) k reg \<or> k \<in> (\<lambda>(m, source, bytes). uri_key 1 source) ` set xs)"
    unfolding publish_run_def fold_map
    by (rule offered_event.fold_once) (use assms in \<open>auto simp: engine_defs conversion_defs
      registry_defs uri_key_def split_u32_to_u16_eq Let_def\<close>)
  then show ?thesis unfolding keys by (fastforce simp: registry_defs)
qed

theorem publish_offers_once_witness:
  "\<exists>reg' L. publish_run permissive_up_rust (example_vsomeip 1) ''app'' rpc_correlation_new
      [\<lparr>umsg_attributes = Some (plain_attributes\<lparr>attr_type := Known UMESSAGE_TYPE_PUBLISH,
         attr_source := Some (any_uuri_fixed_authority_id ''h'' 7)\<rparr>), umsg_payload = Some [9]\<rparr>]
      (offered_requested_new, []) = (reg', L) \<and>
    filter is_notify_call L = [(''app'', Notify 7 1 0xFFFF (set_data_safe [9]) True)]"
  using publish_offers_once [of "[(\<lparr>umsg_attributes = Some (plain_attributes\<lparr>attr_type :=
      Known UMESSAGE_TYPE_PUBLISH, attr_source := Some (any_uuri_fixed_authority_id ''h'' 7)\<rparr>),
      umsg_payload = Some [9]\<rparr>, any_uuri_fixed_authority_id ''h'' 7, [9])]" permissive_up_rust
      "example_vsomeip 1" "''app''" rpc_correlation_new offered_requested_new "[]"]
  by (auto simp: any_uuri_fixed_authority_id_def)

end
