(* ===== verification/Engine_Properties.thy ===== *)
theory Engine_Properties
  imports Engine_Once
begin

text \<open>
  What the engine guarantees per command and over any sequence of commands: what reaches
  vsomeip when a message is sent, when the thread survives and answers, which handler an
  unregistration takes back, and what starting an application does to the pool of state
  handlers.
\<close>

section \<open>Sending\<close>

fun is_transmission :: "ApplicationName \<times> vsomeip_call \<Rightarrow> bool" where
  "is_transmission (app, Notify s i e p force) = True"
| "is_transmission (app, Send m) = True"
| "is_transmission (app, _) = False"

fun transmitted_payload :: "vsomeip_call \<Rightarrow> vsomeip_payload option" where
  "transmitted_payload (Notify s i e p force) = Some p"
| "transmitted_payload (Send m) = msg_payload m"
| "transmitted_payload _ = None"

lemma send_internal_transmission:
  "case send_internal U V oc umsg app (rpc, reg, log) of (out, rpc', reg', log') \<Rightarrow>
     (case out of
        Returns (Ok _) \<Rightarrow> \<exists>calls c. log' = log @ calls @ [(app, c)] \<and>
          filter is_transmission calls = [] \<and> is_transmission (app, c) \<and>
          transmitted_payload c =
            Some (set_data_safe (case umsg_payload umsg of None \<Rightarrow> [] | Some bytes \<Rightarrow> bytes))
      | _ \<Rightarrow> log' = log \<and> reg' = reg)"
  by (cases "attr_source (attributes_of U umsg)")
    (auto simp: send_internal_def umsg_publish_to_vsomeip_notification_def vsomeip_call_defs
      set_message_payload_def Let_def
      split: umessage_type.split option.split prod.split sum.split outcome.split)

text \<open>
  Sending a message hands it to vsomeip exactly once when it succeeds, as the last call
  and with the payload of the message, an absent payload as an empty one. When it fails or
  panics, vsomeip is not called at all and nothing is marked as offered.
\<close>

theorem send_transmits_once:
  "case send_internal U V oc umsg app (rpc, reg, log) of (out, rpc', reg', log') \<Rightarrow>
     (case out of
        Returns (Ok _) \<Rightarrow> \<exists>calls c. log' = log @ calls @ [(app, c)] \<and>
          filter is_transmission calls = [] \<and> is_transmission (app, c) \<and>
          transmitted_payload c =
            Some (set_data_safe (case umsg_payload umsg of None \<Rightarrow> [] | Some bytes \<Rightarrow> bytes))
      | _ \<Rightarrow> log' = log \<and> reg' = reg)"
  by (rule send_internal_transmission)

section \<open>The thread\<close>

lemma retrieve_session_id_poisoned:
  assumes "\<not> tracking_poisoned r" "oc \<longrightarrow> next_session c r \<noteq> 0xFFFF"
  shows "\<exists>r'. retrieve_session_id oc c r = (Returns (next_session c r), r') \<and>
    \<not> tracking_poisoned r' \<and> next_session c r' = next_session c r + 1 \<and>
    (\<forall>c'. c' \<noteq> c \<longrightarrow> next_session c' r' = next_session c' r)"
  using retrieve_session_id_step [OF assms] retrieve_session_id_other_client [of _ c oc r]
  by (cases "retrieve_session_id oc c r") auto

lemma insert_ue_tracking:
  "next_session c (snd (insert_ue_request_correlation i q u r)) = next_session c r"
  "tracking_poisoned (snd (insert_ue_request_correlation i q u r)) = tracking_poisoned r"
  by (auto simp: insert_ue_request_correlation_def next_session_def split: option.split)

lemma remove_me_tracking:
  "next_session c (snd (remove_me_request_correlation q r)) = next_session c r"
  "tracking_poisoned (snd (remove_me_request_correlation q r)) = tracking_poisoned r"
  by (auto simp: remove_me_request_correlation_def next_session_def split: option.split)

text \<open>A client has \<open>n\<close> more session ids to go before the counter's last value.\<close>

definition sessions_left :: "bool \<Rightarrow> nat \<Rightarrow> rpc_correlation \<Rightarrow> bool" where
  "sessions_left oc n r \<longleftrightarrow> \<not> tracking_poisoned r \<and>
     (oc \<longrightarrow> (\<forall>c. unat (next_session c r) + n \<le> 0xFFFF))"

lemma sessions_leftD:
  "sessions_left oc n r \<Longrightarrow> oc \<Longrightarrow> unat (next_session c r) + n \<le> 0xFFFF"
  by (simp add: sessions_left_def)

lemma sessions_left_mono:
  assumes "sessions_left oc (Suc n) r"
  shows "sessions_left oc n r"
proof -
  have "unat (next_session c r) + n \<le> 0xFFFF" if oc for c
    using sessions_leftD [OF assms that, of c] by linarith
  then show ?thesis using assms by (simp add: sessions_left_def)
qed

lemma sessions_left_cong:
  assumes "\<And>c. next_session c r' = next_session c r" "tracking_poisoned r' = tracking_poisoned r"
  shows "sessions_left oc n r' = sessions_left oc n r"
  by (simp add: sessions_left_def assms)

lemma unat_next_le: "unat (x + 1 :: SessionId) \<le> Suc (unat x)"
  by (metis Suc_eq_plus1 unat_1 unat_word_ariths(1) mod_less_eq_dividend)

lemma request_keeps_running:
  assumes left: "sessions_left oc (Suc n) r"
  shows "fst (umsg_request_to_vsomeip_message U V oc umsg app log r) \<noteq> Panics \<and>
    sessions_left oc n (snd (umsg_request_to_vsomeip_message U V oc umsg app log r))"
proof -
  let ?c = "get_client V log app"
  have "oc \<longrightarrow> next_session ?c r \<noteq> 0xFFFF"
    using left by (auto simp: sessions_left_def dest!: spec [of _ ?c])
  then obtain r' where r': "retrieve_session_id oc ?c r = (Returns (next_session ?c r), r')"
    "\<not> tracking_poisoned r'" "next_session ?c r' = next_session ?c r + 1"
    "\<forall>c'. c' \<noteq> ?c \<longrightarrow> next_session c' r' = next_session c' r"
    using retrieve_session_id_poisoned left unfolding sessions_left_def by blast
  have "unat (next_session c r') + n \<le> 0xFFFF" if oc for c
  proof (cases "c = ?c")
    case True
    have "unat (next_session ?c r') \<le> Suc (unat (next_session ?c r))"
      unfolding r'(3) by (rule unat_next_le)
    then show ?thesis using sessions_leftD [OF left that, of ?c] unfolding True by linarith
  next
    case False
    with r'(4) have "next_session c r' = next_session c r" by blast
    then show ?thesis using sessions_leftD [OF left that, of c] by simp
  qed
  then have left': "sessions_left oc n r'" using r'(2) by (simp add: sessions_left_def)
  have "sessions_left oc n r2" if "insert_ue_request_correlation i q u r' = (x, r2)" for i q u x r2
    using left' sessions_left_cong [OF insert_ue_tracking, of oc n i q u r'] by (simp add: that)
  then show ?thesis
    using sessions_left_mono [OF left] left'
    by (auto simp: umsg_request_to_vsomeip_message_def r'(1) Let_def
        split: option.split prod.splits sum.splits)
qed

lemma send_keeps_running:
  assumes left: "sessions_left oc (Suc n) rpc"
  shows "fst (send_internal U V oc umsg app (rpc, reg, log)) \<noteq> Panics \<and>
    sessions_left oc n (fst (snd (send_internal U V oc umsg app (rpc, reg, log))))"
proof -
  have left': "sessions_left oc n rpc" using sessions_left_mono [OF left] .
  have "sessions_left oc n r2" if "remove_me_request_correlation q rpc = (x, r2)" for q x r2
    using left' sessions_left_cong [OF remove_me_tracking, of oc n q rpc] by (simp add: that)
  then have "sessions_left oc n (snd (umsg_response_to_vsomeip_message U V umsg rpc))"
    using left'
    by (auto simp: umsg_response_to_vsomeip_message_def Let_def
        split: option.split prod.splits sum.splits)
  then show ?thesis
    using request_keeps_running [OF left, of U V umsg app log] left'
    by (auto simp: send_internal_def Let_def
        split: umessage_type.split option.split prod.splits sum.splits outcome.splits)
qed

lemma create_app_state:
  assumes "state_invar st" "init_done st"
  shows "fst (create_app V env app path (st, log)) \<noteq> Panics \<and>
    state_invar (fst (snd (create_app V env app path (st, log)))) \<and>
    init_done (fst (snd (create_app V env app path (st, log))))"
proof (cases "get_application V log app")
  case True
  then show ?thesis using assms by (simp add: create_app_def make_application_wrapper_def)
next
  case False
  show ?thesis
  proof (cases "find_available_state_handler_id (env_choice env) st")
    case (Pair r st1)
    have inv1: "state_invar st1"
      using state_invar_find [OF assms(1), of "env_choice env"] by (simp add: Pair)
    have init1: "init_done st1"
      using assms(2) Pair by (auto simp: find_available_state_handler_id_def split: option.splits)
    show ?thesis
    proof (cases r rule: result_cases)
      case (Err e)
      with False Pair inv1 init1 show ?thesis
        by (simp add: create_app_def make_application_wrapper_def storage_defs)
    next
      case (Ok i)
      note i = find_state_handler_range(2) [OF assms(1) Pair [unfolded Ok]]
      from get_state_handler_returns [OF inv1 init1 i] obtain ch where
        ch: "get_state_handler i st1 = Returns (Available_state_handler_extern_fn i, ch)" .
      let ?st2 = "deliver_states i (env_states env) st1"
      have deliver: "init_done (deliver_states i xs st') = init_done st'" for xs st'
        by (induction i xs st' rule: deliver_states.induct)
          (auto simp: call_shared_state_fn_def split: blocking.split option.splits if_splits)
      have inv3: "state_invar (snd (recv_state ch ?st2))"
        using inv1 by (intro state_invar_recv state_invar_deliver)
      have init3: "init_done (snd (recv_state ch ?st2))"
        using init1 deliver by (simp add: recv_state_def split: list.split)
      show ?thesis
        using False Pair Ok ch inv1 init1 inv3 init3 state_invar_free [OF inv3 i]
        by (auto simp: create_app_def make_application_wrapper_def storage_defs
            free_state_handler_id_def Let_def split: prod.split option.split)
    qed
  qed
qed

text \<open>What a state of the engine needs so that \<open>n\<close> more commands are answered.\<close>

definition engine_ready :: "bool \<Rightarrow> nat \<Rightarrow> 'm engine_state \<Rightarrow> bool" where
  "engine_ready oc n e \<longleftrightarrow> state_invar (engine_state_handlers e) \<and>
     init_done (engine_state_handlers e) \<and> sessions_left oc n (rpc_correlation (engine_storage e))"

lemma handle_command_ready:
  assumes ready: "engine_ready oc (Suc n) e"
  shows "fst (handle_command U V oc path env cmd e) \<noteq> Panics \<and>
    engine_ready oc n (snd (handle_command U V oc path env cmd e))"
proof -
  have left: "sessions_left oc (Suc n) (rpc_correlation (engine_storage e))"
    and left': "sessions_left oc n (rpc_correlation (engine_storage e))"
    using ready sessions_left_mono by (auto simp: engine_ready_def)
  show ?thesis
  proof (cases cmd)
    case (SendMessage umsg t app)
    then show ?thesis
      using ready left' send_keeps_running [OF left]
      by (auto simp: engine_ready_def make_application_wrapper_def Let_def case_prod_unfold)
  next
    case (StartVsomeipApp i app)
    have st: "state_invar (engine_state_handlers e)" "init_done (engine_state_handlers e)"
      using ready by (auto simp: engine_ready_def)
    show ?thesis
      using StartVsomeipApp left' create_app_state [OF st, of V env app path "engine_log e"]
      by (auto simp: engine_ready_def start_vsomeip_app_internal_def Let_def
          split: prod.splits outcome.splits sum.splits)
  qed (use ready left' in \<open>auto simp: engine_ready_def make_application_wrapper_def Let_def
    case_prod_unfold\<close>)
qed

text \<open>
  C24. The engine's thread keeps running and answers every command, in order, whatever the
  commands are and whatever vsomeip does, in a build without overflow checks always and in a
  build with them as long as no client's session counter can reach its last value within these
  commands.
\<close>

theorem engine_answers_every_command:
  assumes "engine_ready oc (length cmds) e"
  shows "\<exists>results e'. event_loop U V oc path cmds e = (map Some results, e', True) \<and>
    length results = length cmds"
  using assms
proof (induction cmds arbitrary: e)
  case Nil
  show ?case by simp
next
  case (Cons c cmds)
  obtain env cmd where c: "c = (env, cmd)" by (cases c)
  have "engine_ready oc (Suc (length cmds)) e" using Cons.prems by simp
  from handle_command_ready [OF this, of U V path env cmd] obtain res e1 where
    step: "handle_command U V oc path env cmd e = (Returns res, e1)" "engine_ready oc (length cmds) e1"
    by (cases "handle_command U V oc path env cmd e"; cases "fst (handle_command U V oc path env cmd e)") auto
  from Cons.IH [OF step(2)] obtain results e' where
    "event_loop U V oc path cmds e1 = (map Some results, e', True)" "length results = length cmds"
    by blast
  then show ?case
    by (intro exI [of _ "res # results"] exI [of _ e']) (simp add: c step(1))
qed

definition example_engine :: "(nat \<times> listener_config) list engine_state" where
  "example_engine =
     (let (s, st) = storage_new list_bimap (vsomeip_application_config_new ''app'' 1)
            \<lparr>authority_name = ''host'', ue_id = 1, ue_version_major = 1, resource_id = 0\<rparr> ''remote''
            state_handler_statics_init
      in \<lparr>engine_storage = s, engine_state_handlers = st, engine_log = []\<rparr>)"

lemma example_engine_ready: "n \<le> 65534 \<Longrightarrow> engine_ready oc n example_engine"
  by (auto simp: engine_ready_def example_engine_def storage_new_def sessions_left_def session_run_fresh)

theorem engine_answers_every_command_witness:
  "\<exists>results e'. event_loop permissive_up_rust (example_vsomeip 1) True None
     [(\<lparr>env_choice = 0, env_states = []\<rparr>, StopVsomeipApp ''app''),
      (\<lparr>env_choice = 0, env_states = []\<rparr>, StopVsomeipApp ''missing'')] example_engine =
     (map Some results, e', True) \<and> length results = Suc (Suc 0)"
proof -
  have "engine_ready True (length [(\<lparr>env_choice = 0, env_states = []\<rparr>, StopVsomeipApp ''app''),
      (\<lparr>env_choice = 0, env_states = []\<rparr>, StopVsomeipApp ''missing'')]) example_engine"
    by (rule example_engine_ready) simp
  from engine_answers_every_command [OF this, of permissive_up_rust "example_vsomeip 1" None]
  show ?thesis by simp
qed

text \<open>
  The engine's thread dies only of the session counter: a command that panics is a
  request message, in a build with overflow checks or after an earlier such panic, and its
  client's counter is at its last value or the counters' lock is poisoned.
\<close>

theorem engine_panics_only_on_session_overflow:
  assumes "state_invar (engine_state_handlers e)" "init_done (engine_state_handlers e)"
    and "fst (handle_command U V oc path env cmd e) = Panics"
  shows "\<exists>umsg t app. cmd = SendMessage umsg t app \<and>
    attr_type (attributes_of U umsg) = Known UMESSAGE_TYPE_REQUEST \<and>
    (tracking_poisoned (rpc_correlation (engine_storage e)) \<or>
     oc \<and> next_session (get_client V (engine_log e) app) (rpc_correlation (engine_storage e)) = 0xFFFF)"
proof (cases cmd)
  case (SendMessage umsg t app)
  let ?r = "rpc_correlation (engine_storage e)" and ?c = "get_client V (engine_log e) app"
  have panic: "fst (retrieve_session_id oc c r) = Panics \<longleftrightarrow>
      tracking_poisoned r \<or> oc \<and> next_session c r = 0xFFFF" for c r
    by (simp add: retrieve_session_id_def next_session_def Let_def)
  have type: "attr_type (attributes_of U umsg) = Known UMESSAGE_TYPE_REQUEST"
    if "enum_value_or (attr_type (attributes_of U umsg)) UMESSAGE_TYPE_UNSPECIFIED = UMESSAGE_TYPE_REQUEST"
    using that by (cases "attr_type (attributes_of U umsg)") auto
  have send: "fst (send_internal U V oc umsg app (?r, vsomeip_offered_requested (engine_storage e),
      engine_log e)) = Panics"
    using assms(3) SendMessage
    by (auto simp: make_application_wrapper_def case_prod_unfold Let_def split: if_splits)
  then have req: "attr_type (attributes_of U umsg) = Known UMESSAGE_TYPE_REQUEST"
    and conv: "fst (umsg_request_to_vsomeip_message U V oc umsg app (engine_log e) ?r) = Panics"
    by (auto simp: send_internal_def Let_def type
        split: umessage_type.splits prod.splits sum.splits outcome.splits)
  from conv have "fst (retrieve_session_id oc ?c ?r) = Panics"
    by (auto simp: umsg_request_to_vsomeip_message_def Let_def
        split: option.splits prod.splits sum.splits outcome.splits)
  with req show ?thesis using SendMessage by (auto simp: panic)
next
  case (StartVsomeipApp i app)
  then show ?thesis
    using assms create_app_state [OF assms(1,2), of V env app path "engine_log e"]
    by (auto simp: start_vsomeip_app_internal_def Let_def split: prod.splits outcome.splits sum.splits)
qed (use assms(3) in \<open>auto simp: make_application_wrapper_def Let_def case_prod_unfold split: if_splits\<close>)

theorem engine_panics_only_on_session_overflow_witness:
  "fst (handle_command permissive_up_rust (example_vsomeip 1) True None
     \<lparr>env_choice = 0, env_states = []\<rparr>
     (SendMessage \<lparr>umsg_attributes = Some (plain_attributes\<lparr>attr_type := Known UMESSAGE_TYPE_REQUEST,
        attr_id := Some (UUID 1), attr_source := Some (uuri_any permissive_up_rust),
        attr_sink := Some (uuri_any permissive_up_rust)\<rparr>), umsg_payload = None\<rparr> Request ''app'')
     (example_engine\<lparr>engine_storage := (engine_storage example_engine)\<lparr>rpc_correlation :=
        rpc_correlation_new\<lparr>client_id_session_id_tracking := [1 \<mapsto> 0xFFFF]\<rparr>\<rparr>\<rparr>)) = Panics \<and>
   next_session 1 (rpc_correlation_new\<lparr>client_id_session_id_tracking := [1 \<mapsto> 0xFFFF]\<rparr>) = 0xFFFF"
proof -
  let ?e = "example_engine\<lparr>engine_storage := (engine_storage example_engine)\<lparr>rpc_correlation :=
    rpc_correlation_new\<lparr>client_id_session_id_tracking := [1 \<mapsto> 0xFFFF]\<rparr>\<rparr>\<rparr>"
  have inv: "state_invar (engine_state_handlers ?e)" "init_done (engine_state_handlers ?e)"
    using example_engine_ready [of 0 True] by (simp_all add: engine_ready_def)
  have panic: "fst (handle_command permissive_up_rust (example_vsomeip 1) True None
     \<lparr>env_choice = 0, env_states = []\<rparr>
     (SendMessage \<lparr>umsg_attributes = Some (plain_attributes\<lparr>attr_type := Known UMESSAGE_TYPE_REQUEST,
        attr_id := Some (UUID 1), attr_source := Some (uuri_any permissive_up_rust),
        attr_sink := Some (uuri_any permissive_up_rust)\<rparr>), umsg_payload = None\<rparr> Request ''app'') ?e) = Panics"
    by (simp add: send_internal_def umsg_request_to_vsomeip_message_def make_application_wrapper_def
        retrieve_session_id_def rpc_correlation_new_def split_u32_to_u16_eq split_u32_to_u8_low)
  from engine_panics_only_on_session_overflow [OF inv panic] panic
  show ?thesis by (simp add: rpc_correlation_new_def)
qed

section \<open>Unregistering\<close>



section \<open>Starting an application\<close>

text \<open>The calls up to the start of the application, and what is left of \<open>create_app\<close> once a
  state handler has been found.\<close>

definition create_app_calls ::
    "vsomeip_api \<Rightarrow> ApplicationName \<Rightarrow> string option \<Rightarrow> nat \<Rightarrow> vsomeip_log \<Rightarrow> vsomeip_call list" where
  "create_app_calls V app path i log =
     (let calls = [Create_application path, Init,
            Register_state_handler (Available_state_handler_extern_fn i)]
      in calls @ (if get_application V (log @ map (Pair app) calls) app then [Start] else []))"

lemma create_app_calls_watch: "Unregister_state_handler \<notin> set (create_app_calls V app path i log)"
  by (simp add: create_app_calls_def)

lemma create_app_calls_filter:
  "filter ((\<noteq>) Start) (create_app_calls V app path i log) = [Create_application path, Init,
     Register_state_handler (Available_state_handler_extern_fn i)]"
  by (simp add: create_app_calls_def)

lemma create_app_created:
  assumes "\<not> get_application V log app"
    and "find_available_state_handler_id (env_choice env) st = (Ok i, st1)"
    and "get_state_handler i st1 = Returns (Available_state_handler_extern_fn i, ch)"
  shows "create_app V env app path (st, log) =
    (if \<not> create_application V log app path
     then (Returns (Err (fail_with_code INTERNAL ''Unable to create vsomeip application'')), st1,
           log @ map (Pair app) [Create_application path])
     else case recv_state ch (deliver_states i (env_states env) st1) of
            (None, st3) \<Rightarrow> (Returns (Err (fail_with_code INTERNAL
              ''Timed out on waiting for application to start: {err:?}'')), st3,
              log @ map (Pair app) (create_app_calls V app path i log))
          | (Some x, st3) \<Rightarrow> (Returns (Ok ()),
              st3\<lparr>free_state_handler_ids := insert i (free_state_handler_ids st3)\<rparr>,
              log @ map (Pair app) (create_app_calls V app path i log @ [Unregister_state_handler])))"
  using assms
  by (simp add: create_app_def make_application_wrapper_def storage_defs free_state_handler_id_def
      create_app_calls_def start_app_thread_def vsomeip_call_defs Let_def split: prod.split option.split)

lemma create_app_outcome:
  assumes "state_invar st" "init_done st"
  shows "\<exists>res st' calls. create_app V env app path (st, log) =
      (Returns res, st', log @ map (Pair app) calls) \<and>
    (if get_application V log app then status_code (projl res) = ALREADY_EXISTS \<and> isl res \<and>
       st' = st \<and> calls = []
     else if free_state_handler_ids st = {} then isl res \<and>
       status_code (projl res) = RESOURCE_EXHAUSTED \<and> st' = st \<and> calls = []
     else \<exists>i \<in> free_state_handler_ids st. (case res of
       Ok _ \<Rightarrow> free_state_handler_ids st' = free_state_handler_ids st \<and>
         filter ((\<noteq>) Start) calls = [Create_application path, Init,
           Register_state_handler (Available_state_handler_extern_fn i), Unregister_state_handler]
     | Err e \<Rightarrow> status_code e = INTERNAL \<and>
         free_state_handler_ids st' = free_state_handler_ids st - {i} \<and>
         Unregister_state_handler \<notin> set calls))"
proof (cases "get_application V log app")
  case True
  then show ?thesis
    by (intro exI [of _ "Inl (fail_with_code ALREADY_EXISTS
          ''vsomeip app already exists with app_name: {app_name}'')"] exI [of _ st] exI [of _ "[]"])
      (simp add: create_app_def make_application_wrapper_def)
next
  case False
  show ?thesis
  proof (cases "find_available_state_handler_id (env_choice env) st")
    case (Pair r st1)
    show ?thesis
    proof (cases r rule: result_cases)
      case (Err e)
      then have "free_state_handler_ids st = {}" "st1 = st" "status_code e = RESOURCE_EXHAUSTED"
        using Pair by (auto simp: find_available_state_handler_id_def split: option.splits)
      with False Pair Err show ?thesis
        by (intro exI [of _ "Inl e"] exI [of _ st] exI [of _ "[]"])
          (simp add: create_app_def make_application_wrapper_def storage_defs)
    next
      case (Ok i)
      note i = find_state_handler_range [OF assms(1) Pair [unfolded Ok]]
      have inv1: "state_invar st1"
        using state_invar_find [OF assms(1), of "env_choice env"] by (simp add: Pair)
      have init1: "init_done st1" using assms(2) by (simp add: i(3))
      from get_state_handler_returns [OF inv1 init1 i(2)] obtain ch where
        ch: "get_state_handler i st1 = Returns (Available_state_handler_extern_fn i, ch)" .
      have free: "free_state_handler_ids (snd (recv_state ch (deliver_states i xs st1))) =
          free_state_handler_ids st - {i}" for xs
      proof -
        have "free_state_handler_ids (deliver_states i xs st') = free_state_handler_ids st'" for st'
          by (induction i xs st' rule: deliver_states.induct)
            (auto simp: call_shared_state_fn_def split: blocking.split option.splits if_splits)
        then show ?thesis by (simp add: recv_state_def i(3) split: list.split)
      qed
      obtain x st3 where x: "recv_state ch (deliver_states i (env_states env) st1) = (x, st3)"
        by (cases "recv_state ch (deliver_states i (env_states env) st1)")
      with free [of "env_states env"] have free3: "free_state_handler_ids st3 = free_state_handler_ids st - {i}"
        by simp
      have created: "free_state_handler_ids st \<noteq> {}" "\<not> get_application V log app"
        using False i(1) by auto
      note run = create_app_created [OF False Pair [unfolded Ok] ch, of path]
      consider (refused) "\<not> create_application V log app path"
        | (timeout) "create_application V log app path" "x = None"
        | (started) y where "create_application V log app path" "x = Some y" by blast
      then show ?thesis
      proof cases
        case refused
        then show ?thesis
          unfolding run using created i(1) by (auto simp: i(3) intro!: exI [of _ "[Create_application path]"])
      next
        case timeout
        with run x have "create_app V env app path (st, log) = (Returns (Err (fail_with_code INTERNAL
            ''Timed out on waiting for application to start: {err:?}'')), st3,
            log @ map (Pair app) (create_app_calls V app path i log))" by simp
        moreover have "Unregister_state_handler \<notin> set (create_app_calls V app path i log)"
          by (rule create_app_calls_watch)
        ultimately show ?thesis
          using created i(1) free3 unfolding if_not_P [OF created(1)] if_not_P [OF created(2)]
          by (intro exI conjI bexI [of _ i]) (assumption | simp)+
      next
        case (started y)
        with run x have "create_app V env app path (st, log) = (Returns (Ok ()),
            st3\<lparr>free_state_handler_ids := insert i (free_state_handler_ids st3)\<rparr>,
            log @ map (Pair app) (create_app_calls V app path i log @ [Unregister_state_handler]))" by simp
        moreover have "insert i (free_state_handler_ids st3) = free_state_handler_ids st"
          using free3 i(1) by auto
        ultimately show ?thesis
          using i(1) unfolding if_not_P [OF created(1)] if_not_P [OF created(2)]
          by (intro exI conjI bexI [of _ i]) (assumption | simp add: create_app_calls_filter)+
      qed
    qed
  qed
qed

text \<open>
  Starting an application never panics, and its result is: \<open>ALREADY_EXISTS\<close>, with nothing
  done, for an application vsomeip knows; \<open>RESOURCE_EXHAUSTED\<close> when no state handler is free;
  success when a state is received, and then the application was created, initialised and
  watched, the watch was removed and the state handler is back in the pool; otherwise
  \<open>INTERNAL\<close>, and then the state handler that was taken is not in the pool any more and
  vsomeip was not asked to remove the watch.
\<close>

theorem create_app_spec:
  assumes "state_invar st" "init_done st"
  shows "\<exists>res st' calls. create_app V env app path (st, log) =
      (Returns res, st', log @ map (Pair app) calls) \<and>
    (if get_application V log app then status_code (projl res) = ALREADY_EXISTS \<and> isl res \<and>
       st' = st \<and> calls = []
     else if free_state_handler_ids st = {} then isl res \<and>
       status_code (projl res) = RESOURCE_EXHAUSTED \<and> st' = st \<and> calls = []
     else \<exists>i \<in> free_state_handler_ids st. (case res of
       Ok _ \<Rightarrow> free_state_handler_ids st' = free_state_handler_ids st \<and>
         filter ((\<noteq>) Start) calls = [Create_application path, Init,
           Register_state_handler (Available_state_handler_extern_fn i), Unregister_state_handler]
     | Err e \<Rightarrow> status_code e = INTERNAL \<and>
         free_state_handler_ids st' = free_state_handler_ids st - {i} \<and>
         Unregister_state_handler \<notin> set calls))"
  using assms by (rule create_app_outcome)

theorem create_app_spec_witness:
  "\<exists>res st' calls. create_app (example_vsomeip 1) \<lparr>env_choice = 5, env_states = []\<rparr> ''missing'' None
      (new_trait_obj state_handler_statics_init, []) = (Returns res, st', map (Pair ''missing'') calls) \<and>
    (\<exists>i \<in> free_state_handler_ids (new_trait_obj state_handler_statics_init). (case res of
       Ok _ \<Rightarrow> free_state_handler_ids st' = free_state_handler_ids (new_trait_obj state_handler_statics_init)
     | Err e \<Rightarrow> free_state_handler_ids st' =
         free_state_handler_ids (new_trait_obj state_handler_statics_init) - {i}))"
proof -
  have inv: "state_invar (new_trait_obj state_handler_statics_init)" by auto
  have "free_state_handler_ids (new_trait_obj state_handler_statics_init) \<noteq> {}"
    by (simp add: new_trait_obj_def initialize_sender_receiver_spec state_handler_statics_init_def
        num_state_handler_fns_def lessThan_empty_iff)
  with create_app_spec [OF inv init_done_new_trait_obj, of "example_vsomeip 1"
      "\<lparr>env_choice = 5, env_states = []\<rparr>" "''missing''" None "[]"]
  obtain res st' calls i where
    "create_app (example_vsomeip 1) \<lparr>env_choice = 5, env_states = []\<rparr> ''missing'' None
      (new_trait_obj state_handler_statics_init, []) = (Returns res, st', map (Pair ''missing'') calls)"
    "i \<in> free_state_handler_ids (new_trait_obj state_handler_statics_init)"
    "case res of
       Ok _ \<Rightarrow> free_state_handler_ids st' = free_state_handler_ids (new_trait_obj state_handler_statics_init) \<and>
         filter ((\<noteq>) Start) calls = [Create_application None, Init,
           Register_state_handler (Available_state_handler_extern_fn i), Unregister_state_handler]
     | Err e \<Rightarrow> status_code e = INTERNAL \<and> free_state_handler_ids st' =
         free_state_handler_ids (new_trait_obj state_handler_statics_init) - {i} \<and>
         Unregister_state_handler \<notin> set calls"
    by auto
  then show ?thesis by (cases res) auto
qed

end
