(* ===== verification/Engine_Thread.thy ===== *)
theory Engine_Thread
  imports Engine_Properties
begin

text \<open>
  The engine's thread and the channel in front of it (\<^verbatim>\<open>UPTransportVsomeipEngine::new\<close>,
  \<^verbatim>\<open>start_event_loop\<close> and \<^verbatim>\<open>return_oneshot_result\<close> of \<^verbatim>\<open>transport_engine.rs\<close>): any number of callers put
  commands into the channel while the thread takes them out, in every interleaving.
\<close>

section \<open>The thread from start to end\<close>

datatype engine_thread = Parked | Engine_panicked

text \<open>
  \<open>builds\<close> tells whether tokio can build the thread's runtime. \<open>cmds\<close> are the commands the channel
  yields until it is closed; then the thread leaves the loop and parks.
\<close>

definition start_event_loop ::
    "up_rust \<Rightarrow> vsomeip_api \<Rightarrow> bool \<Rightarrow> bool \<Rightarrow> string option \<Rightarrow> (engine_env \<times> transport_command) list \<Rightarrow>
     'm engine_state \<Rightarrow> unit result option list \<times> 'm engine_state \<times> engine_thread" where
  "start_event_loop U V builds oc config_path cmds e =
     (if \<not> builds then (map (\<lambda>_. None) cmds, e, Engine_panicked)
      else let (answers, e1, running) = event_loop U V oc config_path cmds e
           in (answers, e1, if running then Parked else Engine_panicked))"

text \<open>An answer is kept for the caller unless it has stopped waiting.\<close>

definition return_oneshot_result :: "'a \<Rightarrow> bool \<Rightarrow> 'a option" where
  "return_oneshot_result result waiting = (if waiting then Some result else None)"

section \<open>The channel\<close>






section \<open>Lemmas\<close>

lemma event_loop_answers: "event_loop U V oc path cmds e = (answers, e', running) \<Longrightarrow> length answers = length cmds"
  by (induction cmds arbitrary: e answers)
    (auto simp del: handle_command.simps simp: Let_def split: prod.splits outcome.splits)




section \<open>Properties\<close>



section \<open>The channel runs empty\<close>






end
