(* ===== verification/Callback_Runtime.thy ===== *)
theory Callback_Runtime
  imports Prelude
begin

text \<open>
  \<^verbatim>\<open>get_callback_runtime_handle\<close> of \<^verbatim>\<open>up-transport-vsomeip/src/lib.rs\<close>: the thread that owns the tokio
  runtime listeners are called on, from its creation until a transport is dropped.

  tokio is another crate: whether its builder makes a runtime with a given number of worker
  threads is the argument \<open>builds\<close>. The thread builds the runtime, sends its handle back and
  waits for the shutdown signal. The two channels are std's: a \<^verbatim>\<open>recv\<close> fails exactly when the
  sender is gone, a \<^verbatim>\<open>send\<close> exactly when the receiver is.
\<close>

section \<open>Definitions\<close>

record runtime_config =
  num_threads :: u8

definition DEFAULT_NUM_THREADS :: u8 where
  "DEFAULT_NUM_THREADS = 10"

text \<open>
  \<open>Serving n\<close>: the runtime runs on \<open>n\<close> workers and the thread waits for the signal;
  \<open>Shut_down\<close>: it got the signal, shut the runtime down and ended; \<open>Thread_panicked\<close>: it ended by
  a panic.
\<close>

datatype runtime_thread = Serving nat | Shut_down | Thread_panicked

text \<open>The closure the thread runs up to the wait for the signal, and after it: \<open>None\<close> is the
  signal of a sender that is gone.\<close>

definition runtime_thread_start :: "(nat \<Rightarrow> bool) \<Rightarrow> u8 \<Rightarrow> runtime_thread" where
  "runtime_thread_start builds n = (if builds (unat n) then Serving (unat n) else Thread_panicked)"

fun runtime_thread_signal :: "unit option \<Rightarrow> runtime_thread \<Rightarrow> runtime_thread" where
  "runtime_thread_signal (Some _) (Serving n) = Shut_down"
| "runtime_thread_signal None (Serving n) = Thread_panicked"
| "runtime_thread_signal _ r = r"

definition get_callback_runtime_handle ::
    "(nat \<Rightarrow> bool) \<Rightarrow> runtime_config option \<Rightarrow> runtime_thread outcome" where
  "get_callback_runtime_handle builds runtime_config =
     (let num_threads =
            (case runtime_config of Some c \<Rightarrow> num_threads c | None \<Rightarrow> DEFAULT_NUM_THREADS)
      in case runtime_thread_start builds num_threads of
           Serving n \<Rightarrow> Returns (Serving n)
         | _ \<Rightarrow> Panics)"

text \<open>The end of \<^verbatim>\<open>drop\<close>: signal and join, both with \<^verbatim>\<open>expect\<close>.\<close>

definition stop_callback_runtime :: "runtime_thread \<Rightarrow> unit outcome \<times> runtime_thread" where
  "stop_callback_runtime r =
     (case r of
        Serving n \<Rightarrow>
          let r1 = runtime_thread_signal (Some ()) r
          in (if r1 = Thread_panicked then Panics else Returns (), r1)
      | _ \<Rightarrow> (Panics, r))"

section \<open>Lemmas\<close>

lemma get_callback_runtime_handle_serving:
  "get_callback_runtime_handle builds c = Returns r \<Longrightarrow> \<exists>n. r = Serving n \<and> builds n"
  by (auto simp: get_callback_runtime_handle_def runtime_thread_start_def Let_def
      split: if_splits option.splits)

lemma stop_callback_runtime_serving [simp]:
  "stop_callback_runtime (Serving n) = (Returns (), Shut_down)"
  by (simp add: stop_callback_runtime_def)

end
