(* ===== verification/Transport.thy ===== *)
theory Transport
  imports Transport_Engine Callback_Runtime
begin

text \<open>
  \<^verbatim>\<open>up-transport-vsomeip/src/lib.rs\<close> and \<^verbatim>\<open>transport.rs\<close>: the transport itself, its construction
  and its implementations of \<^verbatim>\<open>UTransport\<close>, \<^verbatim>\<open>LocalUriProvider\<close> and \<^verbatim>\<open>Drop\<close>.

  The state of transport number \<open>t\<close> is its engine (storage, state handlers and vsomeip calls),
  the pool of message handlers it shares with other transports, whether the engine's thread
  runs, and its point-to-point listener. A command given to a running engine is carried out
  before the call goes on; whether its answer arrives within \<^verbatim>\<open>INTERNAL_FUNCTION_TIMEOUT\<close>
  seconds is up to the environment (\<open>call_late\<close>), as is the message handler the pool yields
  (\<open>call_choice\<close>). A call that gives the engine several commands has a \<open>call_env\<close> for each of them.
  \<open>tr_engine_config\<close> is the configuration path the engine was created with, \<open>tr_runtime\<close> the thread of
  the runtime that runs the listeners.
\<close>

section \<open>State\<close>

record call_env =
  call_engine :: engine_env
  call_choice :: nat
  call_late :: bool

record 'm transport =
  tr_handlers :: handler_statics
  tr_engine :: "'m engine_state"
  tr_running :: bool
  tr_engine_config :: "string option"
  tr_runtime :: runtime_thread
  point_to_point_listener :: "listener option"
  tr_config_path :: "string option"

abbreviation tr_storage :: "'m transport \<Rightarrow> 'm storage" where
  "tr_storage w \<equiv> engine_storage (tr_engine w)"

abbreviation app_name_of :: "'m transport \<Rightarrow> ApplicationName" where
  "app_name_of w \<equiv> application_name (get_vsomeip_application_config (tr_storage w))"

text \<open>The registry operations on the transport's part of the state.\<close>

definition acquire_handler ::
    "('m, 'c) bimap_api \<Rightarrow> nat \<Rightarrow> nat \<Rightarrow> 'c \<Rightarrow> 'm transport \<Rightarrow>
     (get_message_handler_error + message_handler_fn_ptr) outcome \<times> 'm transport" where
  "acquire_handler B choice t config w =
     (let (res, g, s) = storage_get_message_handler B choice t config (tr_handlers w, tr_storage w)
      in (res, w\<lparr>tr_handlers := g, tr_engine := (tr_engine w)\<lparr>engine_storage := s\<rparr>\<rparr>))"

definition release_handler ::
    "('m, 'c) bimap_api \<Rightarrow> 'c \<Rightarrow> 'm transport \<Rightarrow> unit result \<times> 'm transport" where
  "release_handler B config w =
     (let (res, g, s) = storage_release_message_handler B config (tr_handlers w, tr_storage w)
      in (res, w\<lparr>tr_handlers := g, tr_engine := (tr_engine w)\<lparr>engine_storage := s\<rparr>\<rparr>))"

section \<open>Talking to the engine\<close>

text \<open>\<open>None\<close> as the answer is the error of a oneshot channel whose sender was dropped.\<close>

definition await_engine :: "string \<Rightarrow> bool \<Rightarrow> unit result option \<Rightarrow> unit result" where
  "await_engine function_id late answer =
     (if late then Err (fail_with_code DEADLINE_EXCEEDED
        ''Unable to receive status back from internal function: {} within {} second window.'')
      else case answer of
        Some res \<Rightarrow> res
      | None \<Rightarrow> Err (fail_with_code INTERNAL
          ''Unable to receive status back from internal function: {}''))"

definition send_to_engine_with_status :: "'m transport \<Rightarrow> unit result" where
  "send_to_engine_with_status w =
     (if tr_running w then Ok ()
      else Err (fail_with_code INTERNAL
        ''Unable to transmit request to internal vsomeip application handler, err: {:?}''))"

definition engine_takes ::
    "up_rust \<Rightarrow> vsomeip_api \<Rightarrow> bool \<Rightarrow> call_env \<Rightarrow> transport_command \<Rightarrow> 'm transport \<Rightarrow>
     unit result option \<times> 'm transport" where
  "engine_takes U V oc env cmd w =
     (case handle_command U V oc (tr_engine_config w) (call_engine env) cmd (tr_engine w) of
        (Panics, e) \<Rightarrow> (None, w\<lparr>tr_engine := e, tr_running := False\<rparr>)
      | (Returns res, e) \<Rightarrow> (Some res, w\<lparr>tr_engine := e\<rparr>))"

text \<open>The pattern of every call: send the command, panic if the engine has stopped, await.\<close>

definition ask_engine ::
    "up_rust \<Rightarrow> vsomeip_api \<Rightarrow> bool \<Rightarrow> call_env \<Rightarrow> string \<Rightarrow> transport_command \<Rightarrow> 'm transport \<Rightarrow>
     unit result outcome \<times> 'm transport" where
  "ask_engine U V oc env function_id cmd w =
     (case send_to_engine_with_status w of
        Err err \<Rightarrow> (Panics, w)
      | Ok _ \<Rightarrow>
          let (answer, w1) = engine_takes U V oc env cmd w
          in (Returns (await_engine function_id (call_late env) answer), w1))"

section \<open>Point-to-point listeners\<close>

text \<open>\<^verbatim>\<open>((instance as u32) << 16) | service as u32\<close>\<close>

definition service_ue_id :: "service_config \<Rightarrow> UeId" where
  "service_ue_id s = push_bit 16 (ucast (instance_id_of s)) OR ucast (service_id_of s)"

fun register_services ::
    "up_rust \<Rightarrow> vsomeip_api \<Rightarrow> 'm config_bimap \<Rightarrow> bool \<Rightarrow> nat \<Rightarrow> (nat \<Rightarrow> call_env) \<Rightarrow> listener \<Rightarrow>
     service_config list \<Rightarrow> 'm transport \<Rightarrow> unit result outcome \<times> 'm transport" where
  "register_services U V B oc t envs listener (service_config # service_configs) w =
     (let source_filter = uuri_any U;
          sink_filter = any_uuri_fixed_authority_id (get_local_authority (tr_storage w))
            (service_ue_id service_config)
      in case acquire_handler B (call_choice (envs 0)) t (source_filter, Some sink_filter, listener) w of
           (Panics, w1) \<Rightarrow> (Panics, w1)
         | (Returns (Inl e), w1) \<Rightarrow> (Returns (Err (fail_with_code INTERNAL
             ''Unable to get message handler for register_point_to_point_listener'')), w1)
         | (Returns (Inr msg_handler), w1) \<Rightarrow>
             (case ask_engine U V oc (envs 0) ''register_listener_internal''
                     (RegisterListener source_filter (Some sink_filter) Request msg_handler
                       (app_name_of w1)) w1 of
                (Panics, w2) \<Rightarrow> (Panics, w2)
              | (Returns (Err err), w2) \<Rightarrow> (Returns (Err (fail_with_code INTERNAL
                  ''Unable to register point to point listener: err: {err:?}'')), w2)
              | (Returns (Ok _), w2) \<Rightarrow>
                  register_services U V B oc t (\<lambda>n. envs (Suc n)) listener service_configs w2))"
| "register_services U V B oc t envs listener [] w = (Returns (Ok ()), w)"

definition register_point_to_point_listener ::
    "up_rust \<Rightarrow> vsomeip_api \<Rightarrow> 'm config_bimap \<Rightarrow> 'j json_api \<Rightarrow> bool \<Rightarrow> nat \<Rightarrow> (nat \<Rightarrow> call_env) \<Rightarrow>
     listener \<Rightarrow> 'm transport \<Rightarrow> unit result outcome \<times> 'm transport" where
  "register_point_to_point_listener U V B J oc t envs listener w =
     (case tr_config_path w of
        None \<Rightarrow> (Returns (Err (fail_with_code NOT_FOUND
          ''No path to a vsomeip config file was provided'')), w)
      | Some config_path \<Rightarrow>
          (case extract_services J config_path of
             Err e \<Rightarrow> (Returns (Err e), w)
           | Ok service_configs \<Rightarrow>
               if point_to_point_listener w \<noteq> None
               then (Returns (Err (fail_with_code ALREADY_EXISTS
                      ''We already have a point-to-point UListener registered'')), w)
               else register_services U V B oc t envs listener service_configs
                      (w\<lparr>point_to_point_listener := Some listener\<rparr>)))"

fun unregister_services ::
    "up_rust \<Rightarrow> vsomeip_api \<Rightarrow> 'm config_bimap \<Rightarrow> bool \<Rightarrow> nat \<Rightarrow> (nat \<Rightarrow> call_env) \<Rightarrow> listener \<Rightarrow>
     service_config list \<Rightarrow> 'm transport \<Rightarrow> unit result outcome \<times> 'm transport" where
  "unregister_services U V B oc t envs ptp_comp_listener (service_config # service_configs) w =
     (let source_filter = uuri_any U;
          sink_filter = any_uuri_fixed_authority_id (get_local_authority (tr_storage w))
            (service_ue_id service_config)
      in case determine_type U source_filter (Some sink_filter) of
           Err warn \<Rightarrow> unregister_services U V B oc t (\<lambda>n. envs (Suc n)) ptp_comp_listener service_configs w
         | Ok registration_type \<Rightarrow>
             (case ask_engine U V oc (envs 0) ''unregister''
                     (UnregisterListener source_filter (Some sink_filter) registration_type
                       (app_name_of w)) w of
                (Panics, w1) \<Rightarrow> (Panics, w1)
              | (Returns (Err warn), w1) \<Rightarrow>
                  unregister_services U V B oc t (\<lambda>n. envs (Suc n)) ptp_comp_listener service_configs w1
              | (Returns (Ok _), w1) \<Rightarrow>
                  let (_, w2) = release_handler B (source_filter, Some sink_filter, ptp_comp_listener) w1
                  in unregister_services U V B oc t (\<lambda>n. envs (Suc n)) ptp_comp_listener service_configs w2))"
| "unregister_services U V B oc t envs ptp_comp_listener [] w = (Returns (Ok ()), w)"

definition unregister_point_to_point_listener ::
    "up_rust \<Rightarrow> vsomeip_api \<Rightarrow> 'm config_bimap \<Rightarrow> 'j json_api \<Rightarrow> bool \<Rightarrow> nat \<Rightarrow> (nat \<Rightarrow> call_env) \<Rightarrow>
     'm transport \<Rightarrow> unit result outcome \<times> 'm transport" where
  "unregister_point_to_point_listener U V B J oc t envs w =
     (case point_to_point_listener w of
        None \<Rightarrow> (Returns (Err (fail_with_code ALREADY_EXISTS
          ''No point-to-point listener found, we can't unregister it'')), w)
      | Some ptp_comp_listener \<Rightarrow>
          (case tr_config_path w of
             None \<Rightarrow> (Returns (Err (fail_with_code NOT_FOUND
               ''No path to a vsomeip config file was provided'')), w)
           | Some config_path \<Rightarrow>
               (case extract_services J config_path of
                  Err e \<Rightarrow> (Returns (Err e), w)
                | Ok service_configs \<Rightarrow>
                    unregister_services U V B oc t envs ptp_comp_listener service_configs w)))"

section \<open>Listeners\<close>

definition register_listener ::
    "up_rust \<Rightarrow> vsomeip_api \<Rightarrow> 'm config_bimap \<Rightarrow> 'j json_api \<Rightarrow> bool \<Rightarrow> nat \<Rightarrow> (nat \<Rightarrow> call_env) \<Rightarrow>
     uuri \<Rightarrow> uuri option \<Rightarrow> listener \<Rightarrow> 'm transport \<Rightarrow> unit result outcome \<times> 'm transport" where
  "register_listener U V B J oc t envs source_filter sink_filter listener w =
     (case determine_type U source_filter sink_filter of
        Err e \<Rightarrow> (Returns (Err e), w)
      | Ok registration_type \<Rightarrow>
          if registration_type = AllPointToPoint
          then register_point_to_point_listener U V B J oc t envs listener w
          else (case acquire_handler B (call_choice (envs 0)) t (source_filter, sink_filter, listener) w of
                  (Panics, w1) \<Rightarrow> (Panics, w1)
                | (Returns (Inl e), w1) \<Rightarrow> (Returns (Err (fail_with_code INTERNAL
                    ''Unable to get message handler for register_listener'')), w1)
                | (Returns (Inr msg_handler), w1) \<Rightarrow>
                    ask_engine U V oc (envs 0) ''register''
                      (RegisterListener source_filter sink_filter registration_type msg_handler
                        (app_name_of w)) w1))"

definition unregister_listener ::
    "up_rust \<Rightarrow> vsomeip_api \<Rightarrow> 'm config_bimap \<Rightarrow> 'j json_api \<Rightarrow> bool \<Rightarrow> nat \<Rightarrow> (nat \<Rightarrow> call_env) \<Rightarrow>
     uuri \<Rightarrow> uuri option \<Rightarrow> listener \<Rightarrow> 'm transport \<Rightarrow> unit result outcome \<times> 'm transport" where
  "unregister_listener U V B J oc t envs source_filter sink_filter listener w =
     (case determine_type U source_filter sink_filter of
        Err e \<Rightarrow> (Returns (Err (fail_with_code INVALID_ARGUMENT
          ''Invalid source and sink filters for registerable types: Publish, Request, Response, AllPointToPoint'')), w)
      | Ok registration_type \<Rightarrow>
          if registration_type = AllPointToPoint
          then unregister_point_to_point_listener U V B J oc t envs w
          else (case ask_engine U V oc (envs 0) ''unregister''
                       (UnregisterListener source_filter sink_filter registration_type (app_name_of w)) w of
                  (Panics, w1) \<Rightarrow> (Panics, w1)
                | (Returns _, w1) \<Rightarrow>
                    let (release_res, w2) = release_handler B (source_filter, sink_filter, listener) w1
                    in (case release_res of
                          Err e \<Rightarrow> (Returns (Ok ()), w2)
                        | Ok _ \<Rightarrow> (Returns (Ok ()), w2))))"

section \<open>Sending\<close>

definition register_for_returning_response_if_point_to_point_listener_and_sending_request ::
    "up_rust \<Rightarrow> vsomeip_api \<Rightarrow> 'm config_bimap \<Rightarrow> bool \<Rightarrow> nat \<Rightarrow> call_env \<Rightarrow> uuri \<Rightarrow> uuri option \<Rightarrow>
     registration_type \<Rightarrow> 'm transport \<Rightarrow> bool result outcome \<times> 'm transport" where
  "register_for_returning_response_if_point_to_point_listener_and_sending_request U V B oc t env msg_src msg_sink message_type w =
     (case point_to_point_listener w of
        None \<Rightarrow> (Returns (Ok False), w)
      | Some listener \<Rightarrow>
          if message_type \<noteq> Request then (Returns (Ok True), w)
          else (case msg_sink of
                  None \<Rightarrow> (Returns (Err (fail_with_code INVALID_ARGUMENT ''Missing sink for message'')), w)
                | Some msg_sink \<Rightarrow>
                    let source_filter = msg_sink; sink_filter = Some msg_src
                    in (case acquire_handler B (call_choice env) t (source_filter, sink_filter, listener) w of
                          (Panics, w1) \<Rightarrow> (Panics, w1)
                        | (Returns (Inl (ListenerConfigAlreadyExists _)), w1) \<Rightarrow> (Returns (Ok True), w1)
                        | (Returns (Inl (ListenerIdAlreadyExists listener_id)), w1) \<Rightarrow>
                            (Returns (Err (fail_with_code INTERNAL
                               ''listener_id already exists: {listener_id}'')), w1)
                        | (Returns (Inl (OtherError s)), w1) \<Rightarrow>
                            (Returns (Err (fail_with_code INTERNAL ''{:?}'')), w1)
                        | (Returns (Inr msg_handler), w1) \<Rightarrow>
                            (case ask_engine U V oc env ''register''
                                    (RegisterListener source_filter sink_filter Response msg_handler
                                      (app_name_of w1)) w1 of
                               (Panics, w2) \<Rightarrow> (Panics, w2)
                             | (Returns (Err err), w2) \<Rightarrow> (Panics, w2)
                             | (Returns (Ok _), w2) \<Rightarrow> (Returns (Ok True), w2)))))"

definition send ::
    "up_rust \<Rightarrow> vsomeip_api \<Rightarrow> 'm config_bimap \<Rightarrow> bool \<Rightarrow> nat \<Rightarrow> call_env \<Rightarrow> call_env \<Rightarrow> umessage \<Rightarrow>
     'm transport \<Rightarrow> unit result outcome \<times> 'm transport" where
  "send U V B oc t env1 env2 message w =
     (case umsg_attributes message of
        None \<Rightarrow> (Returns (Err (fail_with_code INVALID_ARGUMENT ''Missing uAttributes'')), w)
      | Some attributes \<Rightarrow>
          if \<not> validate_attributes U attributes
          then (Returns (Err (fail_with_code INVALID_ARGUMENT ''Invalid uAttributes, err: {e:?}'')), w)
          else (case attr_source attributes of
                  None \<Rightarrow> (Returns (Err (fail_with_code INVALID_ARGUMENT
                    ''UMessage provided with no source'')), w)
                | Some source_filter \<Rightarrow>
                    (case determine_type U source_filter (attr_sink attributes) of
                       Err e \<Rightarrow> (Returns (Err e), w)
                     | Ok message_type \<Rightarrow>
                         (case register_for_returning_response_if_point_to_point_listener_and_sending_request U V B oc t env1 source_filter
                                 (attr_sink attributes) message_type w of
                            (Panics, w1) \<Rightarrow> (Panics, w1)
                          | (Returns (Err e), w1) \<Rightarrow> (Returns (Err e), w1)
                          | (Returns (Ok _), w1) \<Rightarrow>
                              ask_engine U V oc env2 ''send_internal''
                                (SendMessage message message_type (app_name_of w)) w1))))"

definition receive :: "uuri \<Rightarrow> uuri option \<Rightarrow> umessage result" where
  "receive source_filter sink_filter =
     Err (fail_with_code UNIMPLEMENTED
       ''This method is not implemented for vsomeip. Use register_listener instead.'')"

section \<open>The local URI\<close>

definition get_authority :: "'m transport \<Rightarrow> AuthorityName" where
  "get_authority w = authority_name (get_uri (tr_storage w))"

definition get_resource_uri :: "u16 \<Rightarrow> 'm transport \<Rightarrow> uuri" where
  "get_resource_uri rid w = (get_uri (tr_storage w))\<lparr>resource_id := ucast rid\<rparr>"

definition get_source_uri :: "'m transport \<Rightarrow> uuri" where
  "get_source_uri w = get_uri (tr_storage w)"

section \<open>Construction and destruction\<close>

definition initialize_vsomeip_app ::
    "up_rust \<Rightarrow> vsomeip_api \<Rightarrow> bool \<Rightarrow> call_env \<Rightarrow> ApplicationName \<Rightarrow> 'm transport \<Rightarrow>
     ApplicationName result outcome \<times> 'm transport" where
  "initialize_vsomeip_app U V oc env app_name w =
     (let client_id = application_id (get_vsomeip_application_config (tr_storage w))
      in case ask_engine U V oc env ''initialize_new_app_internal'' (StartVsomeipApp client_id app_name) w of
           (Panics, w1) \<Rightarrow> (Panics, w1)
         | (Returns (Err err), w1) \<Rightarrow> (Returns (Err (fail_with_code INTERNAL
             ''Unable to start app for app_name: {app_name}, err: {err:?}'')), w1)
         | (Returns (Ok _), w1) \<Rightarrow> (Returns (Ok app_name), w1))"

definition shutdown_vsomeip_app ::
    "up_rust \<Rightarrow> vsomeip_api \<Rightarrow> bool \<Rightarrow> call_env \<Rightarrow> 'm transport \<Rightarrow> unit result outcome \<times> 'm transport" where
  "shutdown_vsomeip_app U V oc env w =
     ask_engine U V oc env ''stop_app'' (StopVsomeipApp (app_name_of w)) w"

fun drop_listeners ::
    "up_rust \<Rightarrow> vsomeip_api \<Rightarrow> 'm config_bimap \<Rightarrow> 'j json_api \<Rightarrow> bool \<Rightarrow> nat \<Rightarrow> (nat \<Rightarrow> nat \<Rightarrow> call_env) \<Rightarrow>
     listener_config list \<Rightarrow> 'm transport \<Rightarrow> unit outcome \<times> 'm transport" where
  "drop_listeners U V B J oc t envs ((src_filter, sink_filter, comp_listener) # configs) w =
     (case unregister_listener U V B J oc t (envs 0) src_filter sink_filter comp_listener w of
        (Panics, w1) \<Rightarrow> (Panics, w1)
      | (Returns unreg_res, w1) \<Rightarrow> drop_listeners U V B J oc t (\<lambda>n. envs (Suc n)) configs w1)"
| "drop_listeners U V B J oc t envs [] w = (Returns (), w)"

text \<open>
  A drop that panics still drops the fields, the sender of the shutdown signal among them.
\<close>

definition drop_fields :: "'m transport \<Rightarrow> 'm transport" where
  "drop_fields w = w\<lparr>tr_runtime := runtime_thread_signal None (tr_runtime w)\<rparr>"

definition drop_transport ::
    "up_rust \<Rightarrow> vsomeip_api \<Rightarrow> 'm config_bimap \<Rightarrow> 'j json_api \<Rightarrow> bool \<Rightarrow> nat \<Rightarrow> (nat \<Rightarrow> nat \<Rightarrow> call_env) \<Rightarrow>
     call_env \<Rightarrow> 'm transport \<Rightarrow> unit outcome \<times> 'm transport" where
  "drop_transport U V B J oc t envs env w =
     (case drop_listeners U V B J oc t envs (storage_get_all_listener_configs B (tr_storage w)) w of
        (Panics, w1) \<Rightarrow> (Panics, drop_fields w1)
      | (Returns _, w1) \<Rightarrow>
          (case shutdown_vsomeip_app U V oc env w1 of
             (Panics, w2) \<Rightarrow> (Panics, drop_fields w2)
           | (Returns res, w2) \<Rightarrow>
               let (out, r) = stop_callback_runtime (tr_runtime w2)
               in (out, drop_fields (w2\<lparr>tr_runtime := r\<rparr>))))"

text \<open>
  \<^verbatim>\<open>new_internal\<close> on the pool, the state handlers and the vsomeip calls of the process so far. A
  transport that could not be started is dropped when \<^verbatim>\<open>?\<close> returns the error: \<open>Inl\<close> then carries
  the error and the state after the drop, which finds no listeners and asks the engine, in the
  environment \<open>denv\<close>, to stop the application.
\<close>

definition new_internal ::
    "up_rust \<Rightarrow> vsomeip_api \<Rightarrow> 'm config_bimap \<Rightarrow> 'j json_api \<Rightarrow> (nat \<Rightarrow> bool) \<Rightarrow> bool \<Rightarrow> nat \<Rightarrow> call_env \<Rightarrow> call_env \<Rightarrow> vsomeip_application_config \<Rightarrow>
     uuri \<Rightarrow> AuthorityName \<Rightarrow> string option \<Rightarrow> runtime_config option \<Rightarrow> handler_statics \<Rightarrow> state_handler_statics \<Rightarrow>
     vsomeip_log \<Rightarrow> (ustatus \<times> 'm transport option + 'm transport) outcome" where
  "new_internal U V B J builds oc t env denv application_config uri remote config_path runtime_config g st log =
     (case try_into_u8 (ue_version_major uri) of
        None \<Rightarrow> Returns (Inl (fail_with_code INVALID_ARGUMENT
          ''uri's ue_version_major doesn't fit allotted 8 bits: uri.ue_version_major: {}'', None))
      | Some _ \<Rightarrow>
          if \<not> verify_rpc_response U uri
          then Returns (Inl (fail_with_code INVALID_ARGUMENT
                 ''uri provided to transport is incorrect: {e:?}'', None))
          else (case get_callback_runtime_handle builds runtime_config of
            Panics \<Rightarrow> Panics
          | Returns runtime_thread \<Rightarrow>
            let (s, st1) = storage_new B application_config uri remote st;
                engine_config_path = None;
                me = \<lparr>tr_handlers = g,
                  tr_engine = \<lparr>engine_storage = s, engine_state_handlers = st1, engine_log = log\<rparr>,
                  tr_running = True, tr_engine_config = engine_config_path,
                  tr_runtime = runtime_thread, point_to_point_listener = None,
                  tr_config_path = config_path\<rparr>
            in (case initialize_vsomeip_app U V oc env
                       (application_name (get_vsomeip_application_config s)) me of
                  (Panics, _) \<Rightarrow> Panics
                | (Returns (Err e), me1) \<Rightarrow>
                    (case drop_transport U V B J oc t (\<lambda>_ _. denv) denv me1 of
                       (Panics, _) \<Rightarrow> Panics
                     | (Returns _, me2) \<Rightarrow> Returns (Inl (e, Some me2)))
                | (Returns (Ok _), me1) \<Rightarrow> Returns (Inr me1))))"

definition transport_new ::
    "up_rust \<Rightarrow> vsomeip_api \<Rightarrow> 'm config_bimap \<Rightarrow> 'j json_api \<Rightarrow> (nat \<Rightarrow> bool) \<Rightarrow> bool \<Rightarrow> nat \<Rightarrow> call_env \<Rightarrow> call_env \<Rightarrow> vsomeip_application_config \<Rightarrow>
     uuri \<Rightarrow> AuthorityName \<Rightarrow> runtime_config option \<Rightarrow> handler_statics \<Rightarrow> state_handler_statics \<Rightarrow>
     vsomeip_log \<Rightarrow> (ustatus \<times> 'm transport option + 'm transport) outcome" where
  "transport_new U V B J builds oc t env denv application_config uri remote runtime_config g st log =
     new_internal U V B J builds oc t env denv application_config uri remote None runtime_config g st log"

text \<open>Whether the configuration file exists is asked of the file system: \<open>exists_path\<close>.\<close>

definition new_with_config ::
    "up_rust \<Rightarrow> vsomeip_api \<Rightarrow> 'm config_bimap \<Rightarrow> 'j json_api \<Rightarrow> (string \<Rightarrow> bool) \<Rightarrow> (nat \<Rightarrow> bool) \<Rightarrow> bool \<Rightarrow> nat \<Rightarrow> call_env \<Rightarrow> call_env \<Rightarrow>
     uuri \<Rightarrow> AuthorityName \<Rightarrow> string \<Rightarrow> runtime_config option \<Rightarrow> handler_statics \<Rightarrow> state_handler_statics \<Rightarrow>
     vsomeip_log \<Rightarrow> (ustatus \<times> 'm transport option + 'm transport) outcome" where
  "new_with_config U V B J exists_path builds oc t env denv uri remote config_path runtime_config g st log =
     (if \<not> exists_path config_path
      then Returns (Inl (fail_with_code NOT_FOUND ''Configuration file not found at: {:?}'', None))
      else case extract_application J config_path of
        Err e \<Rightarrow> Returns (Inl (e, None))
      | Ok application_config \<Rightarrow>
          new_internal U V B J builds oc t env denv application_config uri remote (Some config_path) runtime_config g st log)"

end
