(* ===== verification/Transport_Properties.thy ===== *)
theory Transport_Properties
  imports Transport Engine_Properties
begin

text \<open>
  What a transport guarantees its user: listeners get and lose their handlers as the pool's
  contract says, whatever the engine and other transports do meanwhile; dropping a transport
  gives every handler back; a message that is not valid changes nothing.
\<close>

section \<open>The pool, seen from a transport\<close>

abbreviation tr_used :: "('m, 'c) bimap_api \<Rightarrow> 'm transport \<Rightarrow> nat \<rightharpoonup> 'c" where
  "tr_used B w \<equiv> bm_get_by_left B (message_handler_registry (tr_storage w))"

abbreviation tr_free :: "'m transport \<Rightarrow> nat set" where
  "tr_free w \<equiv> free_message_handler_ids (tr_handlers w)"

definition tr_invar :: "('m, 'c) bimap_api \<Rightarrow> nat \<Rightarrow> 'm transport \<Rightarrow> bool" where
  "tr_invar B t w \<longleftrightarrow> handler_invar B t (tr_handlers w, message_handler_registry (tr_storage w))"

lemma acquire_handler_eq:
  "storage_get_message_handler B ch t c (tr_handlers w, tr_storage w) = (res, g, s) \<Longrightarrow>
   acquire_handler B ch t c w = (res, w\<lparr>tr_handlers := g, tr_engine := (tr_engine w)\<lparr>engine_storage := s\<rparr>\<rparr>)"
  by (simp add: acquire_handler_def)

lemma release_handler_eq:
  "storage_release_message_handler B c (tr_handlers w, tr_storage w) = (res, g, s) \<Longrightarrow>
   release_handler B c w = (res, w\<lparr>tr_handlers := g, tr_engine := (tr_engine w)\<lparr>engine_storage := s\<rparr>\<rparr>)"
  by (simp add: release_handler_def)

lemma transport_same: "w\<lparr>tr_handlers := tr_handlers w, tr_engine := tr_engine w\<lparr>engine_storage := tr_storage w\<rparr>\<rparr> = w"
  by simp

interpretation transport_pool: listener_registry "tr_invar B t" "tr_used B" tr_free
    "\<lambda>ch. acquire_handler B ch t" "release_handler B" for B t
proof unfold_locales
  fix w :: "'a transport" and c :: 'b and i j ch :: nat
  let ?x = "(tr_handlers w, tr_storage w)"
  assume "tr_invar B t w"
  then have inv: "handler_invar B t (storage_handlers ?x)" by (simp add: tr_invar_def)
  show "finite (tr_free w)" using storage_pool.free_finite [OF inv] by simp
  show "tr_used B w i = Some c \<Longrightarrow> tr_used B w j = Some c \<Longrightarrow> i = j"
    using storage_pool.used_inj [OF inv] by simp
  show "tr_used B w i = Some c \<Longrightarrow> i \<notin> tr_free w"
    using storage_pool.used_not_free [OF inv] by simp
  show "tr_free w = {} \<Longrightarrow> \<exists>m. acquire_handler B ch t c w =
      (Returns (Inl (OtherError (fail_with_code RESOURCE_EXHAUSTED m))), w)"
    using storage_pool.acquire_full [OF inv, of ch c] by (auto simp: acquire_handler_eq)
  show "tr_free w \<noteq> {} \<Longrightarrow> c \<in> ran (tr_used B w) \<Longrightarrow>
      \<exists>f. acquire_handler B ch t c w = (Returns (Inl (ListenerConfigAlreadyExists f)), w)"
    using storage_pool.acquire_duplicate [OF inv, of c ch] by (auto simp: acquire_handler_eq)
  show "c \<notin> ran (tr_used B w) \<Longrightarrow> \<exists>m. release_handler B c w = (Err (fail_with_code NOT_FOUND m), w)"
    using storage_pool.release_unknown [OF inv, of c] by (auto simp: release_handler_eq)
  show "\<exists>i w'. acquire_handler B ch t c w = (Returns (Inr (Extern_fn_message_handler i)), w') \<and>
      i \<in> tr_free w \<and> tr_invar B t w' \<and> tr_used B w' = (tr_used B w)(i \<mapsto> c) \<and>
      tr_free w' = tr_free w - {i}"
    if "tr_free w \<noteq> {}" "c \<notin> ran (tr_used B w)"
    using storage_pool.acquire_new [OF inv, of c ch] that
    by (auto simp: acquire_handler_eq tr_invar_def)
  show "\<exists>w'. release_handler B c w = (Ok (), w') \<and> tr_invar B t w' \<and>
      tr_used B w' = (tr_used B w)(i := None) \<and> tr_free w' = insert i (tr_free w)"
    if "tr_used B w i = Some c"
    using storage_pool.release_known [OF inv, of i c] that
    by (auto simp: release_handler_eq tr_invar_def)
qed

section \<open>What the engine leaves alone\<close>

lemma handle_command_frame:
  "handle_command U V oc path env cmd e = (out, e') \<Longrightarrow>
   message_handler_registry (engine_storage e') = message_handler_registry (engine_storage e) \<and>
   vsomeip_application_config (engine_storage e') = vsomeip_application_config (engine_storage e) \<and>
   storage_uri (engine_storage e') = storage_uri (engine_storage e) \<and>
   remote_authority (engine_storage e') = remote_authority (engine_storage e)"
  by (cases cmd) (auto simp: make_application_wrapper_def Let_def split: if_splits prod.splits)

lemma ask_engine_frame:
  assumes "ask_engine U V oc env fid cmd w = (out, w')"
  shows "tr_handlers w' = tr_handlers w" "point_to_point_listener w' = point_to_point_listener w"
    "tr_config_path w' = tr_config_path w"
    "message_handler_registry (tr_storage w') = message_handler_registry (tr_storage w)"
    "vsomeip_application_config (tr_storage w') = vsomeip_application_config (tr_storage w)"
    "storage_uri (tr_storage w') = storage_uri (tr_storage w)" "tr_runtime w' = tr_runtime w"
  using assms
  by (auto simp: ask_engine_def engine_takes_def Let_def dest: handle_command_frame
      split: prod.splits sum.splits outcome.splits)

lemma ask_engine_invar: "ask_engine U V oc env fid cmd w = (out, w') \<Longrightarrow> tr_invar B t w' = tr_invar B t w"
  using ask_engine_frame by (fastforce simp: tr_invar_def)

lemma ask_engine_running:
  assumes "tr_running w" and "\<And>e. handle_command U V oc (tr_engine_config w) (call_engine env) cmd (tr_engine w) \<noteq> (Panics, e)"
  shows "\<exists>res w'. ask_engine U V oc env fid cmd w = (Returns res, w') \<and> tr_running w'"
  using assms
  by (cases "handle_command U V oc (tr_engine_config w) (call_engine env) cmd (tr_engine w)";
      cases "fst (handle_command U V oc (tr_engine_config w) (call_engine env) cmd (tr_engine w))")
    (auto simp: ask_engine_def send_to_engine_with_status_def engine_takes_def)

lemma ask_engine_stopped: "\<not> tr_running w \<Longrightarrow> ask_engine U V oc env fid cmd w = (Panics, w)"
  by (simp add: ask_engine_def send_to_engine_with_status_def)

lemma unregister_command_returns:
  "handle_command U V oc path env (UnregisterListener src sink rt app) e \<noteq> (Panics, e')"
  "handle_command U V oc path env (StopVsomeipApp app) e \<noteq> (Panics, e')"
  "handle_command U V oc path env (RegisterListener src sink rt h app) e \<noteq> (Panics, e')"
  by (auto simp: make_application_wrapper_def Let_def split: prod.splits)

section \<open>What the pool operations leave alone\<close>

lemma acquire_handler_frame:
  assumes "acquire_handler B ch t c w = (res, w')"
  shows "tr_running w' = tr_running w" "point_to_point_listener w' = point_to_point_listener w"
    "tr_config_path w' = tr_config_path w" "storage_uri (tr_storage w') = storage_uri (tr_storage w)"
    "vsomeip_application_config (tr_storage w') = vsomeip_application_config (tr_storage w)"
    "tr_runtime w' = tr_runtime w"
  using assms
  by (auto simp: acquire_handler_def storage_get_message_handler_def Let_def split: prod.splits)

lemma release_handler_frame:
  assumes "release_handler B c w = (res, w')"
  shows "tr_running w' = tr_running w" "point_to_point_listener w' = point_to_point_listener w"
    "tr_config_path w' = tr_config_path w" "storage_uri (tr_storage w') = storage_uri (tr_storage w)"
    "vsomeip_application_config (tr_storage w') = vsomeip_application_config (tr_storage w)"
    "tr_runtime w' = tr_runtime w"
  using assms
  by (auto simp: release_handler_def storage_release_message_handler_def Let_def split: prod.splits)

lemma release_handler_others:
  assumes inv: "tr_invar B t w" and rel: "release_handler B c w = (res, w')" and "t' \<noteq> t"
  shows "message_handler_id_to_transport_storage (tr_handlers w') j = Some t' \<longleftrightarrow>
    message_handler_id_to_transport_storage (tr_handlers w) j = Some t'"
proof (cases "c \<in> ran (tr_used B w)")
  case True
  let ?s = "(tr_handlers w, message_handler_registry (tr_storage w))"
  have inv': "handler_invar B t ?s" using inv by (simp add: tr_invar_def)
  from True obtain i where i: "handler_used B ?s i = Some c" by (auto simp: ran_def)
  from release_message_handler_known [OF inv' i] obtain m' where
    "release_message_handler B c ?s = (Ok (), \<lparr>free_message_handler_ids = insert i (handler_free ?s),
      message_handler_id_to_transport_storage =
        (message_handler_id_to_transport_storage (tr_handlers w))(i := None)\<rparr>, m')" by auto
  with rel have "message_handler_id_to_transport_storage (tr_handlers w') =
      (message_handler_id_to_transport_storage (tr_handlers w))(i := None)"
    by (auto simp: release_handler_def storage_release_message_handler_def)
  with handler_invar_used(1) [OF inv' i] assms(3) show ?thesis by auto
next
  case False
  with transport_pool.release_unknown [OF inv] rel show ?thesis by fastforce
qed

text \<open>Releasing a configuration takes exactly its entry out of the registry.\<close>

lemma release_handler_effect:
  assumes inv: "tr_invar B t w"
  shows "\<exists>res w'. release_handler B c w = (res, w') \<and> tr_invar B t w' \<and>
    (\<forall>i. tr_used B w' i = (if tr_used B w i = Some c then None else tr_used B w i)) \<and>
    tr_free w' = tr_free w \<union> {i. tr_used B w i = Some c}"
proof (cases "c \<in> ran (tr_used B w)")
  case True
  then obtain i where i: "tr_used B w i = Some c" by (auto simp: ran_def)
  have only: "tr_used B w j = Some c \<longleftrightarrow> j = i" for j
    using i transport_pool.used_inj [OF inv, of j c i] by auto
  from transport_pool.release_known [OF inv i] obtain w' where
    w': "release_handler B c w = (Ok (), w')" "tr_invar B t w'"
    "tr_used B w' = (tr_used B w)(i := None)" "tr_free w' = insert i (tr_free w)" by blast
  then show ?thesis by (auto simp: only)
next
  case False
  then have none: "tr_used B w i \<noteq> Some c" for i by (auto simp: ran_def)
  from transport_pool.release_unknown [OF inv False] obtain m where
    "release_handler B c w = (Err (fail_with_code NOT_FOUND m), w)" by blast
  with inv none show ?thesis by auto
qed

section \<open>Registering and unregistering\<close>

definition example_env :: call_env where
  "example_env = \<lparr>call_engine = \<lparr>env_choice = 5, env_states = [ST_REGISTERED]\<rparr>, call_choice = 7,
     call_late = False\<rparr>"

definition example_transport :: "(nat \<times> listener_config) list transport" where
  "example_transport = \<lparr>tr_handlers = handler_statics_init, tr_engine = example_engine,
     tr_running = True, tr_engine_config = None, tr_runtime = Serving 10, point_to_point_listener = None, tr_config_path = None\<rparr>"

definition no_files :: "unit json_api" where
  "no_files = \<lparr>open_and_read = (\<lambda>p. None), json_from_str = (\<lambda>s. None), json_get = (\<lambda>j k. None),
     json_as_array = (\<lambda>j. None), json_string = (\<lambda>j. None), struct_fields = (\<lambda>j fs. None)\<rparr>"

lemma example_transport_used: "tr_used list_bimap example_transport = Map.empty"
  by (simp add: example_transport_def example_engine_def storage_new_def list_bimap_def)

lemma example_transport_ok:
  "tr_invar list_bimap t example_transport" "tr_running example_transport"
  "tr_free example_transport = {..<num_message_handler_fns}"
  using handler_invar_init [OF list_bimap_laws]
  by (simp_all add: tr_invar_def example_transport_def example_engine_def storage_new_def
      handler_statics_init_def)

lemma register_listener_step:
  assumes inv: "tr_invar B t w" and run: "tr_running w"
    and type: "determine_type U src sink = Ok rt" "rt \<noteq> AllPointToPoint"
  shows "\<exists>res w'. register_listener U V B J oc t envs src sink l w = (Returns res, w') \<and>
    tr_invar B t w' \<and> tr_running w' \<and>
    (if tr_free w = {} \<or> (src, sink, l) \<in> ran (tr_used B w)
     then w' = w \<and> (\<exists>m. res = Err (fail_with_code INTERNAL m))
     else \<exists>i. i \<in> tr_free w \<and> tr_used B w' = (tr_used B w)(i \<mapsto> (src, sink, l)) \<and>
       tr_free w' = tr_free w - {i} \<and>
       (if call_late (envs 0) then \<exists>m. res = Err (fail_with_code DEADLINE_EXCEEDED m)
        else if \<not> get_application V (engine_log (tr_engine w)) (app_name_of w)
        then \<exists>m. res = Err (fail_with_code INTERNAL m) else True))"
proof (cases "tr_free w = {} \<or> (src, sink, l) \<in> ran (tr_used B w)")
  case True
  then have "\<exists>e. acquire_handler B (call_choice (envs 0)) t (src, sink, l) w = (Returns (Inl e), w)"
    using transport_pool.acquire_full [OF inv, of "call_choice (envs 0)" "(src, sink, l)"]
      transport_pool.acquire_duplicate [OF inv, of "(src, sink, l)" "call_choice (envs 0)"] by blast
  with True type inv run show ?thesis by (auto simp: register_listener_def)
next
  case False
  then obtain i w1 where w1: "acquire_handler B (call_choice (envs 0)) t (src, sink, l) w =
      (Returns (Inr (Extern_fn_message_handler i)), w1)" "i \<in> tr_free w" "tr_invar B t w1"
    "tr_used B w1 = (tr_used B w)(i \<mapsto> (src, sink, l))" "tr_free w1 = tr_free w - {i}"
    using transport_pool.acquire_new [OF inv, of "(src, sink, l)" "call_choice (envs 0)"] by blast
  have log: "engine_log (tr_engine w1) = engine_log (tr_engine w)"
    using w1(1) by (auto simp: acquire_handler_def split: prod.splits)
  let ?cmd = "RegisterListener src sink rt (Extern_fn_message_handler i) (app_name_of w)"
  have "tr_running w1" using run acquire_handler_frame(1) [OF w1(1)] by simp
  from ask_engine_running [OF this unregister_command_returns(3)] obtain res w2 where
    w2: "ask_engine U V oc (envs 0) ''register'' ?cmd w1 = (Returns res, w2)" "tr_running w2"
    by blast
  have "if call_late (envs 0) then \<exists>m. res = Err (fail_with_code DEADLINE_EXCEEDED m)
      else if \<not> get_application V (engine_log (tr_engine w)) (app_name_of w)
      then \<exists>m. res = Err (fail_with_code INTERNAL m) else True"
    using w2(1) \<open>tr_running w1\<close> log
    by (auto simp: ask_engine_def send_to_engine_with_status_def engine_takes_def await_engine_def
        make_application_wrapper_def Let_def split: prod.splits)
  moreover have "register_listener U V B J oc t envs src sink l w = (Returns res, w2)"
    using type w1(1) w2(1) by (simp add: register_listener_def)
  moreover have "tr_invar B t w2" using w1(3) ask_engine_invar [OF w2(1), of B t] by simp
  moreover have "tr_used B w2 = (tr_used B w)(i \<mapsto> (src, sink, l))" "tr_free w2 = tr_free w - {i}"
    using w1(4,5) ask_engine_frame [OF w2(1)] by simp_all
  ultimately show ?thesis using False w1(2) w2(2) by auto
qed

lemma register_listener_effect:
  assumes "tr_invar B t w" "tr_running w" "determine_type U src sink = Ok rt" "rt \<noteq> AllPointToPoint"
  obtains res w' where "register_listener U V B J oc t envs src sink l w = (Returns res, w')"
    "tr_invar B t w'" "tr_running w'"
    "w' = w \<or> (\<exists>i. i \<in> tr_free w \<and> tr_used B w' = (tr_used B w)(i \<mapsto> (src, sink, l)) \<and>
      tr_free w' = tr_free w - {i})"
proof -
  obtain res w' where "register_listener U V B J oc t envs src sink l w = (Returns res, w')"
    "tr_invar B t w'" "tr_running w'" and
    "if tr_free w = {} \<or> (src, sink, l) \<in> ran (tr_used B w)
     then w' = w \<and> (\<exists>m. res = Err (fail_with_code INTERNAL m))
     else \<exists>i. i \<in> tr_free w \<and> tr_used B w' = (tr_used B w)(i \<mapsto> (src, sink, l)) \<and>
       tr_free w' = tr_free w - {i} \<and>
       (if call_late (envs 0) then \<exists>m. res = Err (fail_with_code DEADLINE_EXCEEDED m)
        else if \<not> get_application V (engine_log (tr_engine w)) (app_name_of w)
        then \<exists>m. res = Err (fail_with_code INTERNAL m) else True)"
    using register_listener_step [OF assms] by blast
  then show ?thesis by (intro that [of res w']) (auto split: if_splits)
qed



lemma unregister_listener_effect:
  assumes inv: "tr_invar B t w" and run: "tr_running w"
    and type: "determine_type U src sink \<noteq> Ok AllPointToPoint"
  shows "\<exists>w'. unregister_listener U V B J oc t envs src sink l w = (Returns (Ok ()), w') \<and>
    tr_invar B t w' \<and> tr_running w' \<and>
    (\<forall>i. tr_used B w' i = (if tr_used B w i = Some (src, sink, l) then None else tr_used B w i)) \<and>
    tr_free w' = tr_free w \<union> {i. tr_used B w i = Some (src, sink, l)} \<and>
    (\<forall>j t'. t' \<noteq> t \<longrightarrow> (message_handler_id_to_transport_storage (tr_handlers w') j = Some t' \<longleftrightarrow>
      message_handler_id_to_transport_storage (tr_handlers w) j = Some t'))"
proof -
  obtain rt where rt: "determine_type U src sink = Ok rt" "rt \<noteq> AllPointToPoint"
    using determine_type_total [of U src sink] type by auto
  let ?cmd = "UnregisterListener src sink rt (app_name_of w)"
  from ask_engine_running [OF run unregister_command_returns(1)] obtain res w1 where
    w1: "ask_engine U V oc (envs 0) ''unregister'' ?cmd w = (Returns res, w1)" "tr_running w1" by blast
  note same = ask_engine_frame [OF w1(1)]
  have inv1: "tr_invar B t w1" using inv ask_engine_invar [OF w1(1), of B t] by simp
  obtain rel w2 where w2: "release_handler B (src, sink, l) w1 = (rel, w2)" "tr_invar B t w2"
    "\<forall>i. tr_used B w2 i = (if tr_used B w1 i = Some (src, sink, l) then None else tr_used B w1 i)"
    "tr_free w2 = tr_free w1 \<union> {i. tr_used B w1 i = Some (src, sink, l)}"
    using release_handler_effect [OF inv1, of "(src, sink, l)"] by blast
  have "unregister_listener U V B J oc t envs src sink l w = (Returns (Ok ()), w2)"
    using rt w1(1) w2(1) by (simp add: unregister_listener_def split: sum.split)
  moreover have "tr_running w2" using w1(2) release_handler_frame(1) [OF w2(1)] by simp
  moreover have "message_handler_id_to_transport_storage (tr_handlers w2) j = Some t' \<longleftrightarrow>
      message_handler_id_to_transport_storage (tr_handlers w) j = Some t'" if "t' \<noteq> t" for j t'
    using release_handler_others [OF inv1 w2(1) that] same by simp
  ultimately show ?thesis using w2(2-4) same by simp
qed

text \<open>
  C30. Unregistering undoes registering: after a listener was registered and unregistered with
  the same filters, the transport's handlers and the pool are what they were, whatever the
  engine answered to either command and whether or not its answers came in time.
\<close>

theorem unregister_undoes_register:
  assumes inv: "tr_invar B t w" and run: "tr_running w"
    and type: "determine_type U src sink \<noteq> Ok AllPointToPoint"
    and new: "(src, sink, l) \<notin> ran (tr_used B w)"
  shows "\<exists>res w1 w2. register_listener U V B J oc t envs src sink l w = (Returns res, w1) \<and>
    unregister_listener U V B J oc t envs' src sink l w1 = (Returns (Ok ()), w2) \<and>
    tr_used B w2 = tr_used B w \<and> tr_free w2 = tr_free w"
proof -
  obtain rt where rt: "determine_type U src sink = Ok rt" "rt \<noteq> AllPointToPoint"
    using determine_type_total [of U src sink] type by auto
  obtain res w1 where w1: "register_listener U V B J oc t envs src sink l w = (Returns res, w1)"
    "tr_invar B t w1" "tr_running w1" and
    eff: "w1 = w \<or> (\<exists>i. i \<in> tr_free w \<and> tr_used B w1 = (tr_used B w)(i \<mapsto> (src, sink, l)) \<and>
      tr_free w1 = tr_free w - {i})"
    using register_listener_effect [OF inv run rt] by metis
  obtain w2 where w2: "unregister_listener U V B J oc t envs' src sink l w1 = (Returns (Ok ()), w2)"
    "\<forall>i. tr_used B w2 i = (if tr_used B w1 i = Some (src, sink, l) then None else tr_used B w1 i)"
    "tr_free w2 = tr_free w1 \<union> {i. tr_used B w1 i = Some (src, sink, l)}"
    using unregister_listener_effect [OF w1(2,3) type, of V J oc envs' l] by blast
  have none: "tr_used B w j \<noteq> Some (src, sink, l)" for j using new by (auto simp: ran_def)
  from eff have "tr_used B w2 = tr_used B w \<and> tr_free w2 = tr_free w"
  proof
    assume "w1 = w"
    then show ?thesis using w2(2,3) none by (auto simp: fun_eq_iff)
  next
    assume "\<exists>i. i \<in> tr_free w \<and> tr_used B w1 = (tr_used B w)(i \<mapsto> (src, sink, l)) \<and>
      tr_free w1 = tr_free w - {i}"
    then obtain i where i: "i \<in> tr_free w" "tr_used B w1 = (tr_used B w)(i \<mapsto> (src, sink, l))"
      "tr_free w1 = tr_free w - {i}" by blast
    have "tr_used B w i = None" using inv i(1) by (rule transport_pool.free_not_used)
    then show ?thesis using w2(2,3) i none by (auto simp: fun_eq_iff)
  qed
  with w1(1) w2(1) show ?thesis by blast
qed

theorem unregister_undoes_register_witness:
  "\<exists>res w1 w2. register_listener permissive_up_rust (example_vsomeip 1) list_bimap no_files True 0
      (\<lambda>n. example_env) (uuri_any permissive_up_rust) None (Listener 3) example_transport =
      (Returns res, w1) \<and>
    unregister_listener permissive_up_rust (example_vsomeip 1) list_bimap no_files True 0
      (\<lambda>n. example_env) (uuri_any permissive_up_rust) None (Listener 3) w1 = (Returns (Ok ()), w2) \<and>
    tr_used list_bimap w2 = tr_used list_bimap example_transport \<and>
    tr_free w2 = tr_free example_transport"
  by (rule unregister_undoes_register [OF example_transport_ok(1,2)])
    (simp_all add: example_transport_used)

section \<open>Which listeners a transport holds\<close>

text \<open>
  No listener in a transport's registry has filters of the point-to-point kind: those are
  registered service by service. Unregistering such filters would unregister something else,
  so this is what makes dropping a transport complete.
\<close>

definition plain_config :: "up_rust \<Rightarrow> listener_config \<Rightarrow> bool" where
  "plain_config U c \<longleftrightarrow> determine_type U (fst c) (fst (snd c)) \<noteq> Ok AllPointToPoint"

definition transport_inv :: "up_rust \<Rightarrow> 'm config_bimap \<Rightarrow> nat \<Rightarrow> 'm transport \<Rightarrow> bool" where
  "transport_inv U B t w \<longleftrightarrow> tr_invar B t w \<and> (\<forall>i c. tr_used B w i = Some c \<longrightarrow> plain_config U c) \<and>
     (\<exists>n. tr_runtime w = Serving n)"

lemma determine_type_swap:
  "determine_type U a (Some b) = Ok AllPointToPoint \<longleftrightarrow> determine_type U b (Some a) = Ok AllPointToPoint"
  by (auto simp: determine_type_def Let_def)

lemma service_filter_plain:
  "wildcard_laws U \<Longrightarrow> determine_type U (uuri_any U) (Some s) \<noteq> Ok AllPointToPoint"
  by (simp add: determine_type_def wildcard_laws_def)

lemma transport_inv_acquire:
  assumes inv: "transport_inv U B t w" and plain: "plain_config U c"
    and acq: "acquire_handler B ch t c w = (res, w')"
  shows "transport_inv U B t w' \<and> res \<noteq> Panics"
proof -
  have inv': "tr_invar B t w" using inv by (simp add: transport_inv_def)
  show ?thesis
  proof (cases "tr_free w \<noteq> {} \<and> c \<notin> ran (tr_used B w)")
    case True
    with transport_pool.acquire_new [OF inv', of c ch] acq obtain i where
      "tr_invar B t w'" "tr_used B w' = (tr_used B w)(i \<mapsto> c)" "res \<noteq> Panics" by auto
    with inv plain acquire_handler_frame(6) [OF acq] show ?thesis
      by (auto simp: transport_inv_def)
  next
    case False
    then have "w' = w \<and> res \<noteq> Panics"
      using acq transport_pool.acquire_duplicate [OF inv', of c ch]
        transport_pool.acquire_full [OF inv', of ch c] by (metis outcome.distinct(1) prod.inject)
    with inv show ?thesis by simp
  qed
qed

lemma transport_inv_release:
  assumes "transport_inv U B t w" "release_handler B c w = (res, w')"
  shows "transport_inv U B t w'"
proof -
  have inv: "tr_invar B t w" using assms(1) by (simp add: transport_inv_def)
  from release_handler_effect [OF inv, of c] assms(2) have "tr_invar B t w'"
    "\<forall>i. tr_used B w' i = (if tr_used B w i = Some c then None else tr_used B w i)" by auto
  with assms(1) release_handler_frame(6) [OF assms(2)] show ?thesis
    by (auto simp: transport_inv_def split: if_splits)
qed

lemma transport_inv_ask:
  assumes "ask_engine U V oc env fid cmd w = (out, w')"
  shows "transport_inv U' B t w' = transport_inv U' B t w"
  using ask_engine_frame(4,7) [OF assms] ask_engine_invar [OF assms, of B t]
  by (simp add: transport_inv_def)

lemma transport_inv_ptp [simp]:
  "transport_inv U B t (w\<lparr>point_to_point_listener := l\<rparr>) = transport_inv U B t w"
  by (simp add: transport_inv_def tr_invar_def)

lemma transport_inv_register_services:
  assumes "transport_inv U B t w" "wildcard_laws U"
  shows "transport_inv U B t (snd (register_services U V B oc t envs l cs w))"
  using assms
proof (induction cs arbitrary: w envs)
  case (Cons c cs)
  let ?sink = "any_uuri_fixed_authority_id (get_local_authority (tr_storage w)) (service_ue_id c)"
  have plain: "plain_config U (uuri_any U, Some ?sink, l)"
    using service_filter_plain [OF Cons.prems(2)] by (simp add: plain_config_def)
  obtain res w1 where acq: "acquire_handler B (call_choice (envs 0)) t (uuri_any U, Some ?sink, l) w = (res, w1)"
    by (cases "acquire_handler B (call_choice (envs 0)) t (uuri_any U, Some ?sink, l) w")
  have inv1: "transport_inv U B t w1" using transport_inv_acquire [OF Cons.prems(1) plain acq] by simp
  have inv2: "transport_inv U B t w2" if "ask_engine U V oc e fid cmd w1 = (out, w2)" for e fid cmd out w2
    using transport_inv_ask [OF that, of U B t] inv1 by simp
  show ?case
    using inv1 inv2 Cons.IH Cons.prems(2)
    by (auto simp: acq Let_def split: outcome.split sum.split prod.split)
qed simp

lemma transport_inv_unregister_services:
  assumes "transport_inv U B t w"
  shows "transport_inv U B t (snd (unregister_services U V B oc t envs l cs w))"
  using assms
proof (induction cs arbitrary: w envs)
  case (Cons c cs)
  have ask: "transport_inv U B t w1" if "ask_engine U V oc e fid cmd w = (out, w1)" for e fid cmd out w1
    using transport_inv_ask [OF that, of U B t] Cons.prems by simp
  have rel: "transport_inv U B t w2"
    if "ask_engine U V oc e fid cmd w = (out, w1)" "release_handler B d w1 = (res, w2)"
    for e fid cmd out w1 d res w2
    using transport_inv_release [OF ask [OF that(1)] that(2)] .
  show ?case
    using Cons.prems Cons.IH ask rel
    by (auto simp: Let_def split: outcome.split sum.split prod.split)
qed simp

lemma transport_inv_register:
  assumes inv: "transport_inv U B t w" and laws: "wildcard_laws U"
  shows "transport_inv U B t (snd (register_listener U V B J oc t envs src sink l w))"
proof -
  obtain rt where rt: "determine_type U src sink = Ok rt" using determine_type_total by blast
  show ?thesis
  proof (cases "rt = AllPointToPoint")
    case True
    with rt inv laws show ?thesis
      by (auto simp: register_listener_def register_point_to_point_listener_def
          intro!: transport_inv_register_services split: option.split sum.split)
  next
    case False
    obtain res w1 where acq: "acquire_handler B (call_choice (envs 0)) t (src, sink, l) w = (res, w1)"
      by (cases "acquire_handler B (call_choice (envs 0)) t (src, sink, l) w")
    have plain: "plain_config U (src, sink, l)" using rt False by (simp add: plain_config_def)
    have inv1: "transport_inv U B t w1" using transport_inv_acquire [OF inv plain acq] by simp
    have inv2: "transport_inv U B t (snd (ask_engine U V oc e fid cmd w1))" for e fid cmd
      using transport_inv_ask [of U V oc e fid cmd w1] inv1 by (metis prod.collapse)
    show ?thesis
      using rt False inv1 inv2 by (simp add: register_listener_def acq split: outcome.split sum.split)
  qed
qed

lemma transport_inv_unregister:
  assumes inv: "transport_inv U B t w"
  shows "transport_inv U B t (snd (unregister_listener U V B J oc t envs src sink l w))"
proof -
  have ask: "transport_inv U B t w1" if "ask_engine U V oc e fid cmd w = (out, w1)" for e fid cmd out w1
    using transport_inv_ask [OF that, of U B t] inv by simp
  have rel: "transport_inv U B t w2"
    if "ask_engine U V oc e fid cmd w = (out, w1)" "release_handler B d w1 = (res, w2)"
    for e fid cmd out w1 d res w2
    using transport_inv_release [OF ask [OF that(1)] that(2)] .
  show ?thesis
    using inv ask rel
    by (auto simp: unregister_listener_def unregister_point_to_point_listener_def Let_def
        intro!: transport_inv_unregister_services split: outcome.split sum.split prod.split option.split)
qed

lemma transport_inv_returning_response:
  assumes inv: "transport_inv U B t w" and type: "determine_type U src sink = Ok rt"
  shows "transport_inv U B t (snd (register_for_returning_response_if_point_to_point_listener_and_sending_request U V B oc t env src sink rt w))"
proof (cases "point_to_point_listener w = None \<or> rt \<noteq> Request \<or> sink = None")
  case True
  with inv show ?thesis
    by (auto simp: register_for_returning_response_if_point_to_point_listener_and_sending_request_def split: option.split)
next
  case False
  then obtain l snk where l: "point_to_point_listener w = Some l" "rt = Request" "sink = Some snk"
    by auto
  have plain: "plain_config U (snk, Some src, l)"
    using type l determine_type_swap [of U src snk] by (auto simp: plain_config_def)
  obtain res w1 where acq: "acquire_handler B (call_choice env) t (snk, Some src, l) w = (res, w1)"
    by (cases "acquire_handler B (call_choice env) t (snk, Some src, l) w")
  have inv1: "transport_inv U B t w1" using transport_inv_acquire [OF inv plain acq] by simp
  have inv2: "transport_inv U B t w2" if "ask_engine U V oc e fid cmd w1 = (out, w2)" for e fid cmd out w2
    using transport_inv_ask [OF that, of U B t] inv1 by simp
  show ?thesis
    using l inv1 inv2
    by (auto simp: register_for_returning_response_if_point_to_point_listener_and_sending_request_def acq Let_def
        split: outcome.split sum.split prod.split get_message_handler_error.split)
qed

lemma transport_inv_send:
  assumes inv: "transport_inv U B t w"
  shows "transport_inv U B t (snd (send U V B oc t env1 env2 m w))"
proof -
  have ask: "transport_inv U B t (snd (ask_engine U V oc e fid cmd w1))" if "transport_inv U B t w1"
    for e fid cmd w1
    using transport_inv_ask [of U V oc e fid cmd w1] that by (metis prod.collapse)
  have resp: "transport_inv U B t w1"
    if "register_for_returning_response_if_point_to_point_listener_and_sending_request U V B oc t env1 src sink rt w = (out, w1)"
      "determine_type U src sink = Ok rt" for src sink rt out w1
    using transport_inv_returning_response [OF inv that(2), of V oc env1] that(1) by simp
  show ?thesis
    using inv by (auto simp: send_def split: option.split sum.split prod.split outcome.split
        intro!: ask dest: resp)
qed

section \<open>A transport among others\<close>

text \<open>
  The calls of a transport's user, in any order, while other transports take handlers from
  the pool and give them back: a step of theirs keeps this transport's part of the invariant.
\<close>

inductive transport_step ::
    "up_rust \<Rightarrow> vsomeip_api \<Rightarrow> 'm config_bimap \<Rightarrow> 'j json_api \<Rightarrow> bool \<Rightarrow> nat \<Rightarrow> 'm transport \<Rightarrow>
     'm transport \<Rightarrow> bool"
  for U V B J oc t where
  register: "transport_step U V B J oc t w (snd (register_listener U V B J oc t envs src sink l w))"
| unregister: "transport_step U V B J oc t w (snd (unregister_listener U V B J oc t envs src sink l w))"
| sending: "transport_step U V B J oc t w (snd (send U V B oc t env1 env2 m w))"
| others: "handler_invar B t (g, message_handler_registry (tr_storage w)) \<Longrightarrow>
    transport_step U V B J oc t w (w\<lparr>tr_handlers := g\<rparr>)"

inductive transport_reachable ::
    "up_rust \<Rightarrow> vsomeip_api \<Rightarrow> 'm config_bimap \<Rightarrow> 'j json_api \<Rightarrow> bool \<Rightarrow> nat \<Rightarrow> 'm transport \<Rightarrow> bool"
  for U V B J oc t where
  created: "new_internal U V B J builds oc t env denv cfg uri remote path rc g st log = Returns (Inr w) \<Longrightarrow>
    handler_invar B t (g, bm_new B) \<Longrightarrow> transport_reachable U V B J oc t w"
| step: "transport_reachable U V B J oc t w \<Longrightarrow> transport_step U V B J oc t w w' \<Longrightarrow>
    transport_reachable U V B J oc t w'"

lemma new_internal_ok:
  assumes "new_internal U V B J builds oc t env denv cfg uri remote path rc g st log = Returns (Inr w)"
  shows "ue_version_major uri \<le> 0xFF" "verify_rpc_response U uri" "tr_handlers w = g"
    "message_handler_registry (tr_storage w) = bm_new B" "storage_uri (tr_storage w) = uri"
    "tr_config_path w = path" "point_to_point_listener w = None" "\<exists>n. tr_runtime w = Serving n"
proof -
  have keeps: "tr_handlers w1 = tr_handlers w0 \<and> tr_config_path w1 = tr_config_path w0 \<and>
      point_to_point_listener w1 = point_to_point_listener w0 \<and> tr_runtime w1 = tr_runtime w0 \<and>
      message_handler_registry (tr_storage w1) = message_handler_registry (tr_storage w0) \<and>
      storage_uri (tr_storage w1) = storage_uri (tr_storage w0)"
    if "initialize_vsomeip_app U V oc env a w0 = (Returns (Ok b), w1)" for a b w0 w1
    using that by (auto simp: initialize_vsomeip_app_def Let_def dest: ask_engine_frame
        split: prod.splits outcome.splits sum.splits)
  show "ue_version_major uri \<le> 0xFF" "verify_rpc_response U uri" "tr_handlers w = g"
    "message_handler_registry (tr_storage w) = bm_new B" "storage_uri (tr_storage w) = uri"
    "tr_config_path w = path" "point_to_point_listener w = None" "\<exists>n. tr_runtime w = Serving n"
    using assms
    by (auto simp: new_internal_def try_into_u8_def storage_new_def Let_def dest!: keeps
          get_callback_runtime_handle_serving split: if_splits prod.splits outcome.splits sum.splits)
qed

lemma transport_inv_others:
  "transport_inv U B t w \<Longrightarrow> handler_invar B t (g, message_handler_registry (tr_storage w)) \<Longrightarrow>
   transport_inv U B t (w\<lparr>tr_handlers := g\<rparr>)"
  by (simp add: transport_inv_def tr_invar_def)

lemma transport_reachable_inv:
  assumes "transport_reachable U V B J oc t w" "wildcard_laws U"
  shows "transport_inv U B t w"
  using assms(1)
proof induction
  case (created builds env denv cfg uri remote path rc g st log w)
  note w = new_internal_ok [OF created(1)]
  have "bimap_laws B" using created(2) by (rule handler_invar_laws)
  then show ?case
    using created(2) by (simp add: transport_inv_def tr_invar_def w bimap_laws_def)
next
  case (step w w')
  from step(2,3) show ?case
    by cases (auto intro: transport_inv_register transport_inv_unregister transport_inv_send
      transport_inv_others assms(2))
qed

text \<open>
  C14. What holds of a transport at all times. After any calls of its user, and whatever other
  transports do, the handlers in its registry are exactly those the process-wide table
  ascribes to it, none of them is free, none has filters of the point-to-point kind, and the
  runtime its listeners run on has not ended.
\<close>

theorem transport_invariant:
  assumes "transport_reachable U V B J oc t w" "wildcard_laws U"
  shows "dom (tr_used B w) = {i. message_handler_id_to_transport_storage (tr_handlers w) i = Some t} \<and>
    dom (tr_used B w) \<subseteq> {..<num_message_handler_fns} - tr_free w \<and>
    (\<forall>src sink l. (src, sink, l) \<in> ran (tr_used B w) \<longrightarrow> determine_type U src sink \<noteq> Ok AllPointToPoint) \<and>
    (\<exists>n. tr_runtime w = Serving n)"
proof -
  have inv: "transport_inv U B t w" using assms by (rule transport_reachable_inv)
  then have "handler_invar B t (tr_handlers w, message_handler_registry (tr_storage w))"
    by (simp add: transport_inv_def tr_invar_def)
  then have "dom (tr_used B w) = {i. message_handler_id_to_transport_storage (tr_handlers w) i = Some t}"
    and "dom (message_handler_id_to_transport_storage (tr_handlers w)) = {..<num_message_handler_fns} - tr_free w"
    by (simp_all add: handler_invar_def)
  moreover from this have "dom (tr_used B w) \<subseteq> {..<num_message_handler_fns} - tr_free w" by blast
  moreover have "determine_type U src sink \<noteq> Ok AllPointToPoint" if "(src, sink, l) \<in> ran (tr_used B w)"
    for src sink l
  proof -
    from that obtain i where "tr_used B w i = Some (src, sink, l)" by (auto simp: ran_def)
    with inv have "plain_config U (src, sink, l)" unfolding transport_inv_def by blast
    then show ?thesis by (simp add: plain_config_def)
  qed
  moreover have "\<exists>n. tr_runtime w = Serving n" using inv by (simp add: transport_inv_def)
  ultimately show ?thesis by blast
qed

section \<open>Dropping a transport\<close>

lemma drop_listeners_inv:
  assumes "transport_inv U B t w"
  shows "transport_inv U B t (snd (drop_listeners U V B J oc t envs cs w))"
  using assms
proof (induction cs arbitrary: w envs)
  case (Cons c cs)
  obtain src sink l where c: "c = (src, sink, l)" by (cases c)
  obtain out w1 where w1: "unregister_listener U V B J oc t (envs 0) src sink l w = (out, w1)"
    by (cases "unregister_listener U V B J oc t (envs 0) src sink l w")
  with transport_inv_unregister [OF Cons.prems, of V J oc "envs 0" src sink l]
  have "transport_inv U B t w1" by simp
  then show ?case using Cons.IH by (simp add: c w1 split: outcome.split)
qed simp

lemma drop_listeners_effect:
  assumes "tr_invar B t w" "tr_running w" "\<And>c. c \<in> set cs \<Longrightarrow> plain_config U c"
  shows "\<exists>w'. drop_listeners U V B J oc t envs cs w = (Returns (), w') \<and> tr_invar B t w' \<and> tr_running w' \<and>
    (\<forall>i. tr_used B w' i = (case tr_used B w i of None \<Rightarrow> None
       | Some c \<Rightarrow> if c \<in> set cs then None else Some c)) \<and>
    tr_free w' = tr_free w \<union> {i. \<exists>c \<in> set cs. tr_used B w i = Some c} \<and>
    (\<forall>j t'. t' \<noteq> t \<longrightarrow> (message_handler_id_to_transport_storage (tr_handlers w') j = Some t' \<longleftrightarrow>
      message_handler_id_to_transport_storage (tr_handlers w) j = Some t'))"
  using assms
proof (induction cs arbitrary: w envs)
  case Nil
  then show ?case by (auto split: option.split)
next
  case (Cons c cs)
  obtain src sink l where c: "c = (src, sink, l)" by (cases c)
  have type: "determine_type U src sink \<noteq> Ok AllPointToPoint"
    using Cons.prems(3) [of c] by (simp add: c plain_config_def)
  obtain w1 where w1: "unregister_listener U V B J oc t (envs 0) src sink l w = (Returns (Ok ()), w1)"
    "tr_invar B t w1" "tr_running w1"
    "\<forall>i. tr_used B w1 i = (if tr_used B w i = Some c then None else tr_used B w i)"
    "tr_free w1 = tr_free w \<union> {i. tr_used B w i = Some c}"
    "\<forall>j t'. t' \<noteq> t \<longrightarrow> (message_handler_id_to_transport_storage (tr_handlers w1) j = Some t' \<longleftrightarrow>
      message_handler_id_to_transport_storage (tr_handlers w) j = Some t')"
    using unregister_listener_effect [OF Cons.prems(1,2) type, of V J oc "envs 0" l] unfolding c by blast
  obtain w2 where w2: "drop_listeners U V B J oc t (\<lambda>n. envs (Suc n)) cs w1 = (Returns (), w2)"
    "tr_invar B t w2" "tr_running w2"
    "\<forall>i. tr_used B w2 i = (case tr_used B w1 i of None \<Rightarrow> None
       | Some c \<Rightarrow> if c \<in> set cs then None else Some c)"
    "tr_free w2 = tr_free w1 \<union> {i. \<exists>c \<in> set cs. tr_used B w1 i = Some c}"
    "\<forall>j t'. t' \<noteq> t \<longrightarrow> (message_handler_id_to_transport_storage (tr_handlers w2) j = Some t' \<longleftrightarrow>
      message_handler_id_to_transport_storage (tr_handlers w1) j = Some t')"
    using Cons.IH [OF w1(2,3), of "\<lambda>n. envs (Suc n)"] Cons.prems(3) by auto
  have "drop_listeners U V B J oc t envs (c # cs) w = (Returns (), w2)"
    using w1(1) w2(1) by (simp add: c)
  moreover have "tr_used B w2 i = (case tr_used B w i of None \<Rightarrow> None
      | Some d \<Rightarrow> if d \<in> set (c # cs) then None else Some d)" for i
    using w1(4) w2(4) by (cases "tr_used B w i") auto
  moreover have "tr_free w2 = tr_free w \<union> {i. \<exists>d \<in> set (c # cs). tr_used B w i = Some d}"
    unfolding w2(5) w1(5) using w1(4) by auto
  ultimately show ?case using w1(6) w2(2,3,6) by simp
qed

lemma all_listener_configs:
  assumes "bimap_laws B"
  shows "set (get_all_listener_configs B m) = ran (bm_get_by_left B m)"
proof -
  have "set (collect_listener_configs B m is) = {c. \<exists>i \<in> set is. bm_get_by_left B m i = Some c}" for "is"
    by (induction "is") (auto simp: get_listener_config_for_message_handler_id_def split: option.split)
  then show ?thesis
    using bimap_left_values(1) [OF assms]
    by (auto simp: get_all_listener_configs_def get_message_handler_ids_def ran_def)
qed

lemma drop_transport_effect:
  assumes inv: "transport_inv U B t w" and run: "tr_running w"
  shows "\<exists>w'. drop_transport U V B J oc t envs env w = (Returns (), w') \<and>
    tr_runtime w' = Shut_down \<and> tr_used B w' = Map.empty \<and> tr_free w' = tr_free w \<union> dom (tr_used B w) \<and>
    (\<forall>j. message_handler_id_to_transport_storage (tr_handlers w') j \<noteq> Some t) \<and>
    (\<forall>j t'. t' \<noteq> t \<longrightarrow> (message_handler_id_to_transport_storage (tr_handlers w') j = Some t' \<longleftrightarrow>
      message_handler_id_to_transport_storage (tr_handlers w) j = Some t'))"
proof -
  let ?cs = "storage_get_all_listener_configs B (tr_storage w)"
  from inv have tr: "tr_invar B t w" by (simp add: transport_inv_def)
  then have "bimap_laws B" unfolding tr_invar_def by (rule handler_invar_laws)
  then have cs: "set ?cs = ran (tr_used B w)"
    by (simp add: storage_get_all_listener_configs_def all_listener_configs)
  have plain: "plain_config U c" if "c \<in> set ?cs" for c
    using that inv unfolding cs transport_inv_def ran_def by blast
  from drop_listeners_effect [where cs = ?cs and U = U, OF tr run plain, of V J oc envs] obtain w1 where
    w1: "drop_listeners U V B J oc t envs ?cs w = (Returns (), w1)" "tr_invar B t w1" "tr_running w1"
    "\<forall>i. tr_used B w1 i = (case tr_used B w i of None \<Rightarrow> None
       | Some c \<Rightarrow> if c \<in> set ?cs then None else Some c)"
    "tr_free w1 = tr_free w \<union> {i. \<exists>c \<in> set ?cs. tr_used B w i = Some c}"
    "\<forall>j t'. t' \<noteq> t \<longrightarrow> (message_handler_id_to_transport_storage (tr_handlers w1) j = Some t' \<longleftrightarrow>
      message_handler_id_to_transport_storage (tr_handlers w) j = Some t')"
    by auto
  from ask_engine_running [OF w1(3) unregister_command_returns(2)] obtain res w2 where
    w2: "shutdown_vsomeip_app U V oc env w1 = (Returns res, w2)"
    unfolding shutdown_vsomeip_app_def by blast
  note same = ask_engine_frame [OF w2 [unfolded shutdown_vsomeip_app_def]]
  have "tr_used B w1 i = None" for i
    using w1(4) unfolding cs by (auto simp: ran_def split: option.split)
  then have empty: "tr_used B w1 = Map.empty" by blast
  have "tr_free w1 = tr_free w \<union> dom (tr_used B w)" unfolding w1(5) cs by (auto simp: ran_def)
  moreover have "message_handler_id_to_transport_storage (tr_handlers w1) j \<noteq> Some t" for j
    using w1(2) empty by (auto simp: tr_invar_def handler_invar_def)
  moreover obtain n where "tr_runtime w2 = Serving n"
    using drop_listeners_inv [OF inv, of V J oc envs ?cs] same(7)
    by (auto simp: w1(1) transport_inv_def)
  then have "drop_transport U V B J oc t envs env w = (Returns (), w2\<lparr>tr_runtime := Shut_down\<rparr>)"
    by (simp add: drop_transport_def drop_fields_def w1(1) w2)
  ultimately show ?thesis using empty w1(6) same by simp
qed

text \<open>
  C4. Dropping a transport gives everything back. In whatever state the calls of its user and
  the other transports have brought it, as long as its engine runs, dropping it does not
  panic, and afterwards its runtime has been shut down, it holds no handler, all handlers it held are free, and no handler of
  another transport has been touched.
\<close>

theorem drop_releases_everything:
  assumes "transport_reachable U V B J oc t w" "wildcard_laws U" "tr_running w"
  shows "\<exists>w'. drop_transport U V B J oc t envs env w = (Returns (), w') \<and>
    tr_runtime w' = Shut_down \<and> tr_used B w' = Map.empty \<and> tr_free w' = tr_free w \<union> dom (tr_used B w) \<and>
    (\<forall>j. message_handler_id_to_transport_storage (tr_handlers w') j \<noteq> Some t) \<and>
    (\<forall>j t'. t' \<noteq> t \<longrightarrow> (message_handler_id_to_transport_storage (tr_handlers w') j = Some t' \<longleftrightarrow>
      message_handler_id_to_transport_storage (tr_handlers w) j = Some t'))"
  using drop_transport_effect [OF transport_reachable_inv [OF assms(1,2)] assms(3)] .

lemma initialize_channels_empty:
  "(\<And>ch. state_channels st ch = []) \<Longrightarrow> state_channels (initialize_sender_receiver st) ch = []"
proof -
  have "(\<And>ch. state_channels st ch = []) \<Longrightarrow> state_channels (fold add_sender_receiver is st) ch = []"
    for "is"
    by (induction "is" arbitrary: st) (auto simp: add_sender_receiver_def bounded_channel_def)
  then show "(\<And>ch. state_channels st ch = []) \<Longrightarrow> state_channels (initialize_sender_receiver st) ch = []"
    unfolding initialize_sender_receiver_def by blast
qed

lemma example_transport_created:
  "\<exists>w. new_internal permissive_up_rust (example_vsomeip 1) list_bimap no_files (\<lambda>n. 0 < n) True 0 example_env example_env
      (vsomeip_application_config_new ''missing'' 1)
      \<lparr>authority_name = ''host'', ue_id = 1, ue_version_major = 1, resource_id = 0\<rparr> ''remote'' None None
      handler_statics_init state_handler_statics_init [] = Returns (Inr w) \<and> tr_running w"
proof -
  let ?st = "new_trait_obj state_handler_statics_init"
  let ?st1 = "?st\<lparr>free_state_handler_ids := free_state_handler_ids ?st - {5}\<rparr>"
  have range: "5 < num_state_handler_fns" by (simp add: num_state_handler_fns_def)
  have st: "free_state_handler_ids ?st = {..<num_state_handler_fns}"
    "available_state_senders ?st 5 = Some (Some 5)" "available_state_receivers ?st 5 = Some (Some 5)"
    "state_channels ?st 5 = []"
    using range initialize_channels_empty [of state_handler_statics_init 5]
    by (simp_all add: new_trait_obj_def initialize_sender_receiver_spec state_handler_statics_init_def)
  have found: "find_available_state_handler_id 5 ?st = (Ok 5, ?st1)"
    using range by (simp add: find_available_state_handler_id_def st(1) hash_next_choice)
  have handler: "get_state_handler 5 ?st1 = Returns (Available_state_handler_extern_fn 5, 5)"
    using range by (simp add: registry_defs st(3))
  have "\<exists>st3. recv_state 5 (deliver_states 5 [ST_REGISTERED] ?st1) = (Some ST_REGISTERED, st3)"
    by (simp add: call_shared_state_fn_def recv_state_def st(2,4) state_channel_capacity_def)
  then obtain st3 log' where "create_app (example_vsomeip 1) (call_engine example_env) ''missing'' None (?st, []) =
      (Returns (Ok ()), st3, log')"
    using create_app_created [where V = "example_vsomeip 1" and log = "[]" and app = "''missing''"
        and env = "call_engine example_env" and st = ?st and i = 5 and ch = 5 and path = None]
      found handler by (auto simp: example_env_def)
  then show ?thesis
    by (simp add: new_internal_def try_into_u8_def storage_new_def initialize_vsomeip_app_def
        ask_engine_def send_to_engine_with_status_def engine_takes_def start_vsomeip_app_internal_def
        vsomeip_application_config_new_def get_vsomeip_application_config_def await_engine_def
        example_env_def get_callback_runtime_handle_def runtime_thread_start_def DEFAULT_NUM_THREADS_def)
qed

theorem drop_releases_everything_witness:
  "\<exists>w w'. transport_reachable permissive_up_rust (example_vsomeip 1) list_bimap no_files True 0 w \<and>
    drop_transport permissive_up_rust (example_vsomeip 1) list_bimap no_files True 0
      (\<lambda>m n. example_env) example_env w = (Returns (), w') \<and> tr_used list_bimap w' = Map.empty"
proof -
  obtain w :: "(nat \<times> listener_config) list transport" where w: "new_internal permissive_up_rust (example_vsomeip 1) list_bimap no_files (\<lambda>n. 0 < n) True 0 example_env example_env
      (vsomeip_application_config_new ''missing'' 1)
      \<lparr>authority_name = ''host'', ue_id = 1, ue_version_major = 1, resource_id = 0\<rparr> ''remote'' None None
      handler_statics_init state_handler_statics_init [] = Returns (Inr w)" "tr_running w"
    using example_transport_created by blast
  have "transport_reachable permissive_up_rust (example_vsomeip 1) list_bimap no_files True 0 w"
    by (rule transport_reachable.created [OF w(1)]) (simp add: handler_invar_init)
  from drop_releases_everything [OF this permissive_laws(1) w(2), of "\<lambda>m n. example_env" example_env] this
  show ?thesis by blast
qed

theorem transport_invariant_witness:
  "\<exists>w. transport_reachable permissive_up_rust (example_vsomeip 1) list_bimap no_files True 0 w \<and>
    dom (tr_used list_bimap w) = {i. message_handler_id_to_transport_storage (tr_handlers w) i = Some 0} \<and>
    (\<exists>n. tr_runtime w = Serving n)"
proof -
  obtain w :: "(nat \<times> listener_config) list transport" where w: "new_internal permissive_up_rust (example_vsomeip 1)
      list_bimap no_files (\<lambda>n. 0 < n) True 0 example_env example_env
      (vsomeip_application_config_new ''missing'' 1)
      \<lparr>authority_name = ''host'', ue_id = 1, ue_version_major = 1, resource_id = 0\<rparr> ''remote'' None None
      handler_statics_init state_handler_statics_init [] = Returns (Inr w)"
    using example_transport_created by blast
  have "transport_reachable permissive_up_rust (example_vsomeip 1) list_bimap no_files True 0 w"
    by (rule transport_reachable.created [OF w]) (simp add: handler_invar_init)
  with transport_invariant [OF this permissive_laws(1)] show ?thesis by blast
qed

end
