(* ===== verification/Point_To_Point.thy ===== *)
theory Point_To_Point
  imports Transport_Properties
begin

text \<open>
  Point-to-point listeners: a listener for everything sent to this host is registered once per
  service of the configuration file. What a successful registration leaves behind, what
  unregistering takes back, and what it does not: the transport's listener itself.
\<close>

section \<open>The configurations of a point-to-point listener\<close>

definition ptp_config :: "up_rust \<Rightarrow> AuthorityName \<Rightarrow> listener \<Rightarrow> service_config \<Rightarrow> listener_config" where
  "ptp_config U authority l s =
     (uuri_any U, Some (any_uuri_fixed_authority_id authority (service_ue_id s)), l)"

abbreviation tr_authority :: "'m transport \<Rightarrow> AuthorityName" where
  "tr_authority w \<equiv> get_local_authority (tr_storage w)"

lemma ask_engine_authority: "ask_engine U V oc env fid cmd w = (out, w') \<Longrightarrow> tr_authority w' = tr_authority w"
  by (simp add: get_local_authority_def ask_engine_frame)

lemma acquire_handler_authority: "acquire_handler B ch t c w = (res, w') \<Longrightarrow> tr_authority w' = tr_authority w"
  by (simp add: get_local_authority_def acquire_handler_frame)

lemma release_handler_authority: "release_handler B c w = (res, w') \<Longrightarrow> tr_authority w' = tr_authority w"
  by (simp add: get_local_authority_def release_handler_frame)

lemma ask_engine_ok_running:
  "ask_engine U V oc env fid cmd w = (Returns (Ok ()), w') \<Longrightarrow> tr_running w \<and> tr_running w'"
  by (auto simp: ask_engine_def send_to_engine_with_status_def engine_takes_def await_engine_def Let_def
      split: if_splits outcome.splits prod.splits)

lemma acquire_handler_ok:
  assumes inv: "tr_invar B t w" and acq: "acquire_handler B ch t c w = (Returns (Inr f), w')"
  shows "\<exists>i. i \<in> tr_free w \<and> c \<notin> ran (tr_used B w) \<and> tr_invar B t w' \<and>
    tr_used B w' = (tr_used B w)(i \<mapsto> c) \<and> tr_free w' = tr_free w - {i}"
proof -
  have "tr_free w \<noteq> {} \<and> c \<notin> ran (tr_used B w)"
    using transport_pool.acquire_ok_iff [OF inv, of ch c] acq by auto
  with transport_pool.acquire_new [OF inv, of c ch] acq show ?thesis by auto
qed

section \<open>Registering\<close>

lemma register_services_Cons:
  assumes "register_services U V B oc t envs l (s # cs) w = (Returns (Ok ()), w')"
  shows "\<exists>f w1 w2. acquire_handler B (call_choice (envs 0)) t (ptp_config U (tr_authority w) l s) w =
      (Returns (Inr f), w1) \<and>
    ask_engine U V oc (envs 0) ''register_listener_internal'' (RegisterListener (uuri_any U)
      (Some (any_uuri_fixed_authority_id (tr_authority w) (service_ue_id s))) Request f (app_name_of w1)) w1 =
      (Returns (Ok ()), w2) \<and>
    register_services U V B oc t (\<lambda>n. envs (Suc n)) l cs w2 = (Returns (Ok ()), w')"
  using assms
  by (auto simp: ptp_config_def Let_def split: prod.splits outcome.splits sum.splits)

text \<open>What a run of successful registrations has added, as a relation between before and after.\<close>

definition registers_all ::
    "('m, 'c) bimap_api \<Rightarrow> 'c list \<Rightarrow> 'm transport \<Rightarrow> 'm transport \<Rightarrow> bool" where
  "registers_all B cs w w' \<longleftrightarrow>
     tr_used B w \<subseteq>\<^sub>m tr_used B w' \<and> ran (tr_used B w') = ran (tr_used B w) \<union> set cs \<and>
     set cs \<inter> ran (tr_used B w) = {} \<and> distinct cs \<and>
     tr_free w = tr_free w' \<union> (dom (tr_used B w') - dom (tr_used B w))"

lemma registers_all_Nil: "registers_all B [] w w"
  by (simp add: registers_all_def)

lemma registers_all_Cons:
  assumes inv: "tr_invar B t w" and acq: "acquire_handler B ch t c w = (Returns (Inr f), w1)"
    and same: "tr_used B w2 = tr_used B w1" "tr_free w2 = tr_free w1"
    and rest: "registers_all B cs w2 w'"
  shows "registers_all B (c # cs) w w'"
proof -
  obtain i where i: "i \<in> tr_free w" "c \<notin> ran (tr_used B w)"
    "tr_used B w2 = (tr_used B w)(i \<mapsto> c)" "tr_free w2 = tr_free w - {i}"
    using acquire_handler_ok [OF inv acq] same by auto
  have none: "tr_used B w i = None" using inv i(1) by (rule transport_pool.free_not_used)
  have sub: "tr_used B w \<subseteq>\<^sub>m tr_used B w2" unfolding i(3) using none by (auto simp: map_le_def)
  have ran2: "ran (tr_used B w2) = insert c (ran (tr_used B w))" unfolding i(3) using none by simp
  have le: "tr_used B w2 \<subseteq>\<^sub>m tr_used B w'" using rest by (simp add: registers_all_def)
  have "tr_used B w' i = Some c" using map_leD [OF le, of i c] i(3) by simp
  then have "dom (tr_used B w') - dom (tr_used B w) = insert i (dom (tr_used B w') - dom (tr_used B w2))"
    using none unfolding i(3) by (auto simp: domIff)
  moreover have "tr_free w = insert i (tr_free w2)" using i(1,4) by blast
  moreover have "tr_free w2 = tr_free w' \<union> (dom (tr_used B w') - dom (tr_used B w2))"
    using rest unfolding registers_all_def by blast
  ultimately have "tr_free w = tr_free w' \<union> (dom (tr_used B w') - dom (tr_used B w))" by simp
  then show ?thesis
    using rest map_le_trans [OF sub le] i(2) unfolding registers_all_def ran2 by auto
qed

lemma register_services_ok:
  assumes "tr_invar B t w" "register_services U V B oc t envs l cs w = (Returns (Ok ()), w')"
  shows "tr_invar B t w' \<and> (tr_running w \<longrightarrow> tr_running w') \<and> tr_authority w' = tr_authority w \<and>
    point_to_point_listener w' = point_to_point_listener w \<and> tr_config_path w' = tr_config_path w \<and>
    app_name_of w' = app_name_of w \<and> registers_all B (map (ptp_config U (tr_authority w) l) cs) w w'"
  using assms
proof (induction cs arbitrary: w envs)
  case Nil
  then show ?case by (simp add: registers_all_Nil)
next
  case (Cons s cs)
  let ?c = "ptp_config U (tr_authority w) l s"
  obtain f w1 w2 cmd where
    acq: "acquire_handler B (call_choice (envs 0)) t ?c w = (Returns (Inr f), w1)" and
    ask: "ask_engine U V oc (envs 0) ''register_listener_internal'' cmd w1 = (Returns (Ok ()), w2)" and
    rest: "register_services U V B oc t (\<lambda>n. envs (Suc n)) l cs w2 = (Returns (Ok ()), w')"
    using register_services_Cons [OF Cons.prems(2)] by blast
  note f1 = acquire_handler_frame [OF acq] and f2 = ask_engine_frame [OF ask]
  have inv1: "tr_invar B t w1" using acquire_handler_ok [OF Cons.prems(1) acq] by blast
  have inv2: "tr_invar B t w2" using ask_engine_invar [OF ask, of B t] inv1 by simp
  have auth: "tr_authority w2 = tr_authority w"
    using ask_engine_authority [OF ask] acquire_handler_authority [OF acq] by simp
  note IH = Cons.IH [OF inv2 rest]
  have "registers_all B (map (ptp_config U (tr_authority w) l) cs) w2 w'" using IH auth by simp
  from registers_all_Cons [OF Cons.prems(1) acq _ _ this] f2
  have "registers_all B (map (ptp_config U (tr_authority w) l) (s # cs)) w w'" by simp
  then show ?case
    using IH auth f1 f2 ask_engine_ok_running [OF ask] by (simp add: get_vsomeip_application_config_def)
qed

section \<open>Unregistering\<close>

text \<open>
  An application that vsomeip knows throughout and an engine that answers in time: then every
  command to unregister succeeds.
\<close>

definition engine_cooperates :: "vsomeip_api \<Rightarrow> (nat \<Rightarrow> call_env) \<Rightarrow> ApplicationName \<Rightarrow> bool" where
  "engine_cooperates V envs app \<longleftrightarrow> (\<forall>log. get_application V log app) \<and> (\<forall>n. \<not> call_late (envs n))"

lemma engine_cooperates_Suc: "engine_cooperates V envs app \<Longrightarrow> engine_cooperates V (\<lambda>n. envs (Suc n)) app"
  by (simp add: engine_cooperates_def)

lemma ask_unregister_ok:
  assumes "engine_cooperates V envs (app_name_of w)" "tr_running w" "rt \<noteq> AllPointToPoint"
  shows "\<exists>w'. ask_engine U V oc (envs 0) fid (UnregisterListener src (Some sink) rt (app_name_of w)) w =
    (Returns (Ok ()), w') \<and> tr_running w'"
  using assms
  by (cases rt) (auto simp: engine_cooperates_def ask_engine_def send_to_engine_with_status_def
      engine_takes_def await_engine_def make_application_wrapper_def unregister_listener_internal_def Let_def
      split: prod.split)

lemma unregister_services_ok:
  assumes "tr_invar B t w" "tr_running w" "wildcard_laws U" "engine_cooperates V envs (app_name_of w)"
  shows "\<exists>w'. unregister_services U V B oc t envs l cs w = (Returns (Ok ()), w') \<and> tr_invar B t w' \<and>
    point_to_point_listener w' = point_to_point_listener w \<and>
    (\<forall>i. tr_used B w' i = (case tr_used B w i of None \<Rightarrow> None
      | Some c \<Rightarrow> if c \<in> ptp_config U (tr_authority w) l ` set cs then None else Some c)) \<and>
    tr_free w' = tr_free w \<union> {i. \<exists>s \<in> set cs. tr_used B w i = Some (ptp_config U (tr_authority w) l s)}"
  using assms
proof (induction cs arbitrary: w envs)
  case Nil
  then show ?case by (auto split: option.split)
next
  case (Cons s cs)
  let ?sink = "any_uuri_fixed_authority_id (tr_authority w) (service_ue_id s)"
  let ?c = "ptp_config U (tr_authority w) l s"
  obtain rt where rt: "determine_type U (uuri_any U) (Some ?sink) = Ok rt" "rt \<noteq> AllPointToPoint"
    using determine_type_total [of U "uuri_any U" "Some ?sink"] service_filter_plain [OF Cons.prems(3)] by metis
  obtain w1 where w1: "ask_engine U V oc (envs 0) ''unregister''
      (UnregisterListener (uuri_any U) (Some ?sink) rt (app_name_of w)) w = (Returns (Ok ()), w1)" "tr_running w1"
    using ask_unregister_ok [OF Cons.prems(4,2) rt(2)] by blast
  note f1 = ask_engine_frame [OF w1(1)]
  have inv1: "tr_invar B t w1" using Cons.prems(1) ask_engine_invar [OF w1(1), of B t] by simp
  obtain rel w2 where w2: "release_handler B ?c w1 = (rel, w2)" "tr_invar B t w2"
    "\<forall>i. tr_used B w2 i = (if tr_used B w1 i = Some ?c then None else tr_used B w1 i)"
    "tr_free w2 = tr_free w1 \<union> {i. tr_used B w1 i = Some ?c}"
    using release_handler_effect [OF inv1, of ?c] by blast
  note f2 = release_handler_frame [OF w2(1)]
  have auth: "tr_authority w2 = tr_authority w"
    using ask_engine_authority [OF w1(1)] release_handler_authority [OF w2(1)] by simp
  have app: "app_name_of w2 = app_name_of w"
    using f1 f2 by (simp add: get_vsomeip_application_config_def)
  have step: "unregister_services U V B oc t envs l (s # cs) w =
      unregister_services U V B oc t (\<lambda>n. envs (Suc n)) l cs w2"
    using rt(1) w1(1) w2(1) by (simp add: ptp_config_def)
  obtain w3 where w3: "unregister_services U V B oc t (\<lambda>n. envs (Suc n)) l cs w2 = (Returns (Ok ()), w3)"
    "tr_invar B t w3" "point_to_point_listener w3 = point_to_point_listener w2"
    "\<forall>i. tr_used B w3 i = (case tr_used B w2 i of None \<Rightarrow> None
      | Some c \<Rightarrow> if c \<in> ptp_config U (tr_authority w) l ` set cs then None else Some c)"
    "tr_free w3 = tr_free w2 \<union> {i. \<exists>s \<in> set cs. tr_used B w2 i = Some (ptp_config U (tr_authority w) l s)}"
    using Cons.IH [OF w2(2) _ Cons.prems(3), of "\<lambda>n. envs (Suc n)"] w1(2) f2(1)
      engine_cooperates_Suc [OF Cons.prems(4)] unfolding auth app by auto
  have used1: "tr_used B w1 = tr_used B w" "tr_free w1 = tr_free w" using f1 by simp_all
  have "tr_used B w3 i = (case tr_used B w i of None \<Rightarrow> None
      | Some c \<Rightarrow> if c \<in> ptp_config U (tr_authority w) l ` set (s # cs) then None else Some c)" for i
    using w3(4) w2(3) unfolding used1 by (cases "tr_used B w i") auto
  moreover have "tr_free w3 =
      tr_free w \<union> {i. \<exists>s \<in> set (s # cs). tr_used B w i = Some (ptp_config U (tr_authority w) l s)}"
    unfolding w3(5) w2(4) used1 using w2(3) unfolding used1 by auto
  ultimately show ?case using step w3(1-3) f1 f2 by simp
qed

section \<open>When registering succeeds\<close>

lemma ask_register_ok:
  assumes "engine_cooperates V envs (app_name_of w)" "tr_running w"
  shows "\<exists>w'. ask_engine U V oc (envs 0) fid (RegisterListener src (Some sink) Request h (app_name_of w)) w =
    (Returns (Ok ()), w')"
  using assms
  by (auto simp: engine_cooperates_def ask_engine_def send_to_engine_with_status_def
      engine_takes_def await_engine_def make_application_wrapper_def register_listener_internal_def Let_def
      split: prod.split)

lemma register_services_succeeds:
  assumes "tr_invar B t w" "tr_running w" "engine_cooperates V envs (app_name_of w)"
    "distinct (map (ptp_config U (tr_authority w) l) cs)"
    "ptp_config U (tr_authority w) l ` set cs \<inter> ran (tr_used B w) = {}" "length cs \<le> card (tr_free w)"
  shows "\<exists>w'. register_services U V B oc t envs l cs w = (Returns (Ok ()), w')"
  using assms
proof (induction cs arbitrary: w envs)
  case (Cons s cs)
  let ?c = "ptp_config U (tr_authority w) l s"
  let ?sink = "any_uuri_fixed_authority_id (tr_authority w) (service_ue_id s)"
  have fin: "finite (tr_free w)" using Cons.prems(1) by (rule transport_pool.free_finite)
  have "tr_free w \<noteq> {}" "?c \<notin> ran (tr_used B w)" using Cons.prems(5,6) by auto
  then obtain i w1 where w1: "acquire_handler B (call_choice (envs 0)) t ?c w =
      (Returns (Inr (Extern_fn_message_handler i)), w1)" "i \<in> tr_free w" "tr_invar B t w1"
    "tr_used B w1 = (tr_used B w)(i \<mapsto> ?c)" "tr_free w1 = tr_free w - {i}"
    using transport_pool.acquire_new [OF Cons.prems(1), of ?c "call_choice (envs 0)"] by blast
  note f1 = acquire_handler_frame [OF w1(1)]
  have none: "tr_used B w i = None" using Cons.prems(1) w1(2) by (rule transport_pool.free_not_used)
  have "engine_cooperates V envs (app_name_of w1)" "tr_running w1"
    using Cons.prems(2,3) f1 by (simp_all add: get_vsomeip_application_config_def)
  from ask_register_ok [OF this] obtain w2 where w2: "ask_engine U V oc (envs 0) ''register_listener_internal''
      (RegisterListener (uuri_any U) (Some ?sink) Request (Extern_fn_message_handler i) (app_name_of w1)) w1 =
      (Returns (Ok ()), w2)" by blast
  note f2 = ask_engine_frame [OF w2]
  have auth: "tr_authority w2 = tr_authority w"
    using acquire_handler_authority [OF w1(1)] ask_engine_authority [OF w2] by simp
  have app: "app_name_of w2 = app_name_of w" using f1 f2 by (simp add: get_vsomeip_application_config_def)
  have "ran (tr_used B w2) = insert ?c (ran (tr_used B w))" using none f2(4) w1(4) by simp
  then have fresh: "ptp_config U (tr_authority w) l ` set cs \<inter> ran (tr_used B w2) = {}"
    using Cons.prems(4,5) by auto
  have room: "length cs \<le> card (tr_free w2)" using Cons.prems(6) w1(2,5) f2(1) fin by simp
  have "\<exists>w'. register_services U V B oc t (\<lambda>n. envs (Suc n)) l cs w2 = (Returns (Ok ()), w')"
    using w1(3) ask_engine_invar [OF w2, of B t] ask_engine_ok_running [OF w2]
      engine_cooperates_Suc [OF Cons.prems(3)] Cons.prems(4) fresh room
    by (intro Cons.IH) (simp_all add: auth app)
  moreover have "register_services U V B oc t envs l (s # cs) w =
      register_services U V B oc t (\<lambda>n. envs (Suc n)) l cs w2"
    using w1(1) w2 by (simp add: ptp_config_def)
  ultimately show ?case by simp
qed simp

section \<open>Properties\<close>



definition example_services :: json where
  "example_services = JObject [(''services'', JArray [JObject [(''service'', JString ''0x0010''),
     (''instance'', JString ''0x0001'')], JObject [(''service'', JString ''0x0011''),
     (''instance'', JString ''0x0001'')]])]"

lemma example_services_extracted:
  "extract_services (tree_json [''vsomeip.json'' \<mapsto> example_services]) ''vsomeip.json'' =
     Ok [\<lparr>service_id_of = 0x10, instance_id_of = 1\<rparr>, \<lparr>service_id_of = 0x11, instance_id_of = 1\<rparr>]"
  by (simp add: extract_services_def read_json_file_def tree_json_def example_services_def
      service_from_value_def deserialize_hex_u16_def trim_start_0x_prefix [of "[_, _, _, _]", simplified]
      trim_start_0x_other u16_from_str_radix_16_def hex_digit_def)


lemma service_ue_id_inject [simp]: "service_ue_id s = service_ue_id s' \<longleftrightarrow> s = s'"
proof -
  have "service_ue_id s = create_request_id (instance_id_of s) (service_id_of s)" for s
    by (simp add: service_ue_id_def create_request_id_def)
  then show ?thesis by (cases s; cases s') auto
qed

lemma ptp_config_inject [simp]: "ptp_config U auth l s = ptp_config U auth l s' \<longleftrightarrow> s = s'"
  by (simp add: ptp_config_def any_uuri_fixed_authority_id_def)

text \<open>
  A point-to-point listener can be registered whenever there is room. When a transport
  has none yet, its configuration file lists services, no two alike, there are handlers for
  all of them, none is taken by the same listener already, vsomeip knows the application and
  the engine answers in time, then registering succeeds and the listener is in place.
\<close>

theorem point_to_point_registration_succeeds:
  assumes inv: "tr_invar B t w" and run: "tr_running w" "point_to_point_listener w = None"
    and type: "determine_type U src sink = Ok AllPointToPoint"
    and services: "tr_config_path w = Some path" "extract_services J path = Ok services" "distinct services"
      "length services \<le> card (tr_free w)"
    and free: "ptp_config U (tr_authority w) l ` set services \<inter> ran (tr_used B w) = {}"
    and coop: "engine_cooperates V envs (app_name_of w)"
  shows "\<exists>w'. register_listener U V B J oc t envs src sink l w = (Returns (Ok ()), w') \<and>
    point_to_point_listener w' = Some l \<and>
    ran (tr_used B w') = ran (tr_used B w) \<union> ptp_config U (tr_authority w) l ` set services"
proof -
  let ?w = "w\<lparr>point_to_point_listener := Some l\<rparr>"
  have invw: "tr_invar B t ?w" using inv by (simp add: tr_invar_def)
  have dist: "distinct (map (ptp_config U (tr_authority w) l) services)"
    using services(3) by (simp add: distinct_map inj_on_def)
  obtain w' where w': "register_services U V B oc t envs l services ?w = (Returns (Ok ()), w')"
    using register_services_succeeds [OF invw, of V envs U l services oc] run(1) coop dist free services(4)
    by auto
  have "register_listener U V B J oc t envs src sink l w = (Returns (Ok ()), w')"
    using type run(2) services(1,2) w'
    by (simp add: register_listener_def register_point_to_point_listener_def)
  moreover have "point_to_point_listener w' = Some l"
    "ran (tr_used B w') = ran (tr_used B w) \<union> ptp_config U (tr_authority w) l ` set services"
    using register_services_ok [OF invw w'] by (auto simp: registers_all_def)
  ultimately show ?thesis by blast
qed

theorem point_to_point_registration_succeeds_witness:
  "\<exists>w'. register_listener permissive_up_rust (example_vsomeip 1) list_bimap
      (tree_json [''vsomeip.json'' \<mapsto> example_services]) True 0 (\<lambda>n. example_env)
      (any_uuri_fixed_authority_id ''a'' 0xFFFFFFFF) (Some (any_uuri_fixed_authority_id ''b'' 0xFFFFFFFF))
      (Listener 4) (example_transport\<lparr>tr_config_path := Some ''vsomeip.json''\<rparr>) = (Returns (Ok ()), w') \<and>
    point_to_point_listener w' = Some (Listener 4)"
proof -
  let ?w = "example_transport\<lparr>tr_config_path := Some ''vsomeip.json''\<rparr>"
  have w: "tr_invar list_bimap 0 ?w" "tr_running ?w" "point_to_point_listener ?w = None"
    "tr_config_path ?w = Some ''vsomeip.json''"
    using example_transport_ok(1) [of 0] example_transport_ok(2)
    by (simp_all add: tr_invar_def example_transport_def)
  have coop: "engine_cooperates (example_vsomeip 1) (\<lambda>n. example_env) (app_name_of ?w)"
    by (simp add: engine_cooperates_def example_env_def example_transport_def example_engine_def
        storage_new_def get_vsomeip_application_config_def vsomeip_application_config_new_def)
  have type: "determine_type permissive_up_rust (any_uuri_fixed_authority_id ''a'' 0xFFFFFFFF)
      (Some (any_uuri_fixed_authority_id ''b'' 0xFFFFFFFF)) = Ok AllPointToPoint"
    by (simp add: determine_type_def any_uuri_fixed_authority_id_def permissive_up_rust_def)
  have room: "2 \<le> card (tr_free ?w)" "tr_used list_bimap ?w = Map.empty"
    using example_transport_used by (simp_all add: example_transport_ok(3) num_message_handler_fns_def)
  from point_to_point_registration_succeeds [where l = "Listener 4" and oc = True,
      OF w(1,2,3) type w(4) example_services_extracted _ _ _ coop] room
  show ?thesis by auto
qed

section \<open>The listener stays\<close>

text \<open>The two fields of a transport that only a point-to-point registration reads.\<close>

abbreviation tr_slot :: "'m transport \<Rightarrow> listener option \<times> string option" where
  "tr_slot w \<equiv> (point_to_point_listener w, tr_config_path w)"

lemma ask_engine_slot [simp]:
  "point_to_point_listener (snd (ask_engine U V oc env fid cmd w)) = point_to_point_listener w"
  "tr_config_path (snd (ask_engine U V oc env fid cmd w)) = tr_config_path w"
  by (cases "ask_engine U V oc env fid cmd w"; simp add: ask_engine_frame)+

lemma register_services_slot: "tr_slot (snd (register_services U V B oc t envs l cs w)) = tr_slot w"
proof (induction cs arbitrary: w envs)
  case (Cons c cs)
  then show ?case
    by (auto simp: Let_def acquire_handler_frame ask_engine_frame
        split: outcome.split sum.split prod.split)
qed simp

lemma unregister_services_slot: "tr_slot (snd (unregister_services U V B oc t envs l cs w)) = tr_slot w"
proof (induction cs arbitrary: w envs)
  case (Cons c cs)
  then show ?case
    by (auto simp: Let_def release_handler_frame ask_engine_frame
        split: outcome.split sum.split prod.split)
qed simp

lemma unregister_listener_slot: "tr_slot (snd (unregister_listener U V B J oc t envs src sink l w)) = tr_slot w"
  using unregister_services_slot [where U = U and V = V and B = B and oc = oc and t = t and w = w]
  by (auto simp: unregister_listener_def unregister_point_to_point_listener_def Let_def
      release_handler_frame ask_engine_frame split: outcome.split sum.split prod.split option.split)

lemma returning_response_slot:
  "register_for_returning_response_if_point_to_point_listener_and_sending_request U V B oc t env src sink rt w =
     (out, w') \<Longrightarrow> tr_slot w' = tr_slot w"
  by (auto simp: register_for_returning_response_if_point_to_point_listener_and_sending_request_def Let_def
      acquire_handler_frame ask_engine_frame
      split: if_splits outcome.splits sum.splits prod.splits option.splits get_message_handler_error.splits)

lemma send_slot: "tr_slot (snd (send U V B oc t env1 env2 m w)) = tr_slot w"
  by (auto simp: send_def dest: returning_response_slot
      split: outcome.split sum.split prod.split option.split)

lemma register_listener_slot:
  "point_to_point_listener w = Some l' \<Longrightarrow>
   tr_slot (snd (register_listener U V B J oc t envs src sink l w)) = tr_slot w"
  by (auto simp: register_listener_def register_point_to_point_listener_def Let_def
      acquire_handler_frame split: outcome.split sum.split prod.split option.split)

lemma transport_step_slot:
  assumes "transport_step U V B J oc t w w'" "point_to_point_listener w = Some l"
  shows "tr_slot w' = tr_slot w"
  using assms
  by cases (simp_all add: register_listener_slot unregister_listener_slot send_slot del: prod.inject)

text \<open>
  C40. A transport's point-to-point listener is there for good. Once one is set, it is the same
  after any further calls, of this transport and of others, unregistering it included; and
  every later attempt to register a point-to-point listener fails with \<open>ALREADY_EXISTS\<close> and
  changes nothing.
\<close>

theorem point_to_point_listener_stays:
  assumes "(transport_step U V B J oc t)\<^sup>*\<^sup>* w w'" and "point_to_point_listener w = Some l"
    and "determine_type U src sink = Ok AllPointToPoint"
    and "tr_config_path w = Some path" "extract_services J path = Ok services"
  shows "point_to_point_listener w' = Some l \<and>
    register_listener U V B J oc t envs src sink l' w' =
      (Returns (Err (fail_with_code ALREADY_EXISTS ''We already have a point-to-point UListener registered'')), w')"
proof -
  have "tr_slot w' = tr_slot w"
    using assms(1)
  proof induction
    case (step w1 w2)
    then have "point_to_point_listener w1 = Some l" using assms(2) by simp
    from transport_step_slot [OF step(2) this] step(3) show ?case by simp
  qed simp
  with assms(2-5) show ?thesis
    by (simp add: register_listener_def register_point_to_point_listener_def)
qed

theorem point_to_point_listener_stays_witness:
  "\<exists>w'. unregister_listener permissive_up_rust (example_vsomeip 1) list_bimap
      (tree_json [''vsomeip.json'' \<mapsto> example_services]) True 0 (\<lambda>n. example_env)
      (any_uuri_fixed_authority_id ''a'' 0xFFFFFFFF) (Some (any_uuri_fixed_authority_id ''b'' 0xFFFFFFFF))
      (Listener 3) (example_transport\<lparr>tr_config_path := Some ''vsomeip.json'',
        point_to_point_listener := Some (Listener 3)\<rparr>) = (Returns (Ok ()), w') \<and>
    fst (register_listener permissive_up_rust (example_vsomeip 1) list_bimap
      (tree_json [''vsomeip.json'' \<mapsto> example_services]) True 0 (\<lambda>n. example_env)
      (any_uuri_fixed_authority_id ''a'' 0xFFFFFFFF) (Some (any_uuri_fixed_authority_id ''b'' 0xFFFFFFFF))
      (Listener 4) w') =
    Returns (Err (fail_with_code ALREADY_EXISTS ''We already have a point-to-point UListener registered''))"
proof -
  let ?w = "example_transport\<lparr>tr_config_path := Some ''vsomeip.json'', point_to_point_listener := Some (Listener 3)\<rparr>"
  let ?J = "tree_json [''vsomeip.json'' \<mapsto> example_services]"
  let ?src = "any_uuri_fixed_authority_id ''a'' 0xFFFFFFFF"
  let ?snk = "any_uuri_fixed_authority_id ''b'' 0xFFFFFFFF"
  have inv: "tr_invar list_bimap 0 ?w" "tr_running ?w"
    using example_transport_ok(1) [of 0] example_transport_ok(2) by (simp_all add: tr_invar_def)
  have coop: "engine_cooperates (example_vsomeip 1) (\<lambda>n. example_env) (app_name_of ?w)"
    by (simp add: engine_cooperates_def example_env_def example_transport_def example_engine_def
        storage_new_def get_vsomeip_application_config_def vsomeip_application_config_new_def)
  have type: "determine_type permissive_up_rust ?src (Some ?snk) = Ok AllPointToPoint"
    by (simp add: determine_type_def any_uuri_fixed_authority_id_def permissive_up_rust_def)
  let ?services = "[\<lparr>service_id_of = 0x10, instance_id_of = 1\<rparr>, \<lparr>service_id_of = 0x11, instance_id_of = 1\<rparr>]"
  obtain w' where w': "unregister_services permissive_up_rust (example_vsomeip 1) list_bimap True 0
      (\<lambda>n. example_env) (Listener 3) ?services ?w = (Returns (Ok ()), w')"
    using unregister_services_ok [OF inv permissive_laws(1) coop, of True "Listener 3" ?services] by blast
  have un: "unregister_listener permissive_up_rust (example_vsomeip 1) list_bimap ?J True 0
      (\<lambda>n. example_env) ?src (Some ?snk) (Listener 3) ?w = (Returns (Ok ()), w')"
    by (simp only: unregister_listener_def type sum.case if_True simp_thms)
      (simp del: unregister_services.simps
        add: unregister_point_to_point_listener_def example_services_extracted w')
  have "transport_step permissive_up_rust (example_vsomeip 1) list_bimap ?J True 0 ?w w'"
    using transport_step.unregister [of permissive_up_rust "example_vsomeip 1" list_bimap ?J True 0 ?w
        "\<lambda>n. example_env" ?src "Some ?snk" "Listener 3"] un by simp
  from point_to_point_listener_stays [OF r_into_rtranclp [of "transport_step permissive_up_rust
      (example_vsomeip 1) list_bimap ?J True 0", OF this] _ type _ example_services_extracted,
      of "Listener 3" "\<lambda>n. example_env" "Listener 4"] un
  show ?thesis by auto
qed

end
