(* ===== verification/Handler_Directory.thy ===== *)
theory Handler_Directory
  imports Handler_Sharing
begin

text \<open>
  What the pool of message handlers promises, without handlers: all transports together keep
  one directory of listener configurations, each transport its own, with room for as many as
  there are extern handlers. The registries and statics of
  \<^verbatim>\<open>message_handler_registry.rs\<close> implement it: \<open>directory\<close> maps a state of theirs to the directory
  it stands for, and every operation answers and changes it as the specification says.
\<close>

section \<open>Specification\<close>

datatype 'c pool_op = Acquire nat nat 'c | Release nat 'c

datatype pool_answer = Granted | Already_registered | Exhausted | Released | Not_registered | Failed

fun directory_op :: "'c pool_op \<Rightarrow> (nat \<times> 'c) set \<Rightarrow> pool_answer \<times> (nat \<times> 'c) set" where
  "directory_op (Acquire choice t c) D =
     (if num_message_handler_fns \<le> card D then (Exhausted, D)
      else if (t, c) \<in> D then (Already_registered, D)
      else (Granted, insert (t, c) D))"
| "directory_op (Release t c) D =
     (if (t, c) \<in> D then (Released, D - {(t, c)}) else (Not_registered, D))"

fun run_ops :: "('o \<Rightarrow> 's \<Rightarrow> 'a \<times> 's) \<Rightarrow> 'o list \<Rightarrow> 's \<Rightarrow> 'a list \<times> 's" where
  "run_ops f [] s = ([], s)"
| "run_ops f (x # xs) s = (let (a, s1) = f x s; (as, s2) = run_ops f xs s1 in (a # as, s2))"

section \<open>The implementation\<close>

definition acquire_answer ::
    "(get_message_handler_error + message_handler_fn_ptr) outcome \<Rightarrow> pool_answer" where
  "acquire_answer res =
     (case res of
        Returns (Inr f) \<Rightarrow> Granted
      | Returns (Inl (ListenerConfigAlreadyExists f)) \<Rightarrow> Already_registered
      | Returns (Inl (OtherError e)) \<Rightarrow> if status_code e = RESOURCE_EXHAUSTED then Exhausted else Failed
      | _ \<Rightarrow> Failed)"

definition release_answer :: "unit result \<Rightarrow> pool_answer" where
  "release_answer res =
     (case res of
        Ok _ \<Rightarrow> Released
      | Err e \<Rightarrow> if status_code e = NOT_FOUND then Not_registered else Failed)"

fun world_op :: "('m, 'c) bimap_api \<Rightarrow> 'c pool_op \<Rightarrow> 'm handler_world \<Rightarrow> pool_answer \<times> 'm handler_world" where
  "world_op B (Acquire choice t c) w =
     (let (res, g, m) = get_message_handler B choice t c (world_statics w, world_registries w t)
      in (acquire_answer res, w\<lparr>world_statics := g, world_registries := (world_registries w)(t := m)\<rparr>))"
| "world_op B (Release t c) w =
     (let (res, g, m) = release_message_handler B c (world_statics w, world_registries w t)
      in (release_answer res, w\<lparr>world_statics := g, world_registries := (world_registries w)(t := m)\<rparr>))"

definition directory :: "('m, 'c) bimap_api \<Rightarrow> 'm handler_world \<Rightarrow> (nat \<times> 'c) set" where
  "directory B w = {(t, c). c \<in> ran (bm_get_by_left B (world_registries w t))}"

section \<open>Lemmas\<close>

lemma directory_update:
  "(t', c) \<in> directory B (w\<lparr>world_statics := g, world_registries := (world_registries w)(t := m)\<rparr>) \<longleftrightarrow>
     (if t' = t then c \<in> ran (bm_get_by_left B m) else (t', c) \<in> directory B w)"
  by (simp add: directory_def)

lemma world_op_step: "handler_step B w (snd (world_op B x w))"
  by (cases x) (auto simp: Let_def split: prod.split
      intro: handler_step.acquire handler_step.release)

text \<open>Who has handler \<open>i\<close>: as many pairs are in the directory as handlers are in use.\<close>

definition handler_owner :: "('m, 'c) bimap_api \<Rightarrow> 'm handler_world \<Rightarrow> nat \<rightharpoonup> nat \<times> 'c" where
  "handler_owner B w i =
     (case message_handler_id_to_transport_storage (world_statics w) i of
        None \<Rightarrow> None
      | Some t \<Rightarrow> map_option (Pair t) (bm_get_by_left B (world_registries w t) i))"

lemma card_ran_inj:
  assumes "\<And>i j x. f i = Some x \<Longrightarrow> f j = Some x \<Longrightarrow> i = j"
  shows "card (ran f) = card (dom f)"
proof -
  have "inj_on (the \<circ> f) (dom f)" using assms by (auto intro!: inj_onI)
  moreover have "ran f = (the \<circ> f) ` dom f" by (force simp: ran_def dom_def image_def)
  ultimately show ?thesis using card_image by metis
qed

lemma directory_card:
  assumes inv: "handler_world_inv B w"
  shows "finite (directory B w)"
    "card (directory B w) + card (free_message_handler_ids (world_statics w)) = num_message_handler_fns"
proof -
  let ?ids = "message_handler_id_to_transport_storage (world_statics w)"
  let ?free = "free_message_handler_ids (world_statics w)"
  have own: "handler_invar B t (world_statics w, world_registries w t)" for t
    using inv by (simp add: handler_world_inv_def)
  have entry: "?ids i = Some t \<longleftrightarrow> (\<exists>c. bm_get_by_left B (world_registries w t) i = Some c)" for i t
    using own [of t] by (auto simp: handler_invar_def)
  have owner: "handler_owner B w i = Some (t, c) \<longleftrightarrow> bm_get_by_left B (world_registries w t) i = Some c" for i t c
    using entry [of i t] by (auto simp: handler_owner_def split: option.split)
  have ran: "ran (handler_owner B w) = directory B w"
    by (auto simp: ran_def directory_def owner)
  have dom: "dom (handler_owner B w) = {..<num_message_handler_fns} - ?free"
    using own [of 0] owner entry by (auto simp: handler_invar_def dom_def set_eq_iff)
  have "card (directory B w) = card (dom (handler_owner B w))"
    unfolding ran [symmetric]
    by (rule card_ran_inj) (use owner bimap_left_inj handler_invar_laws [OF own] in \<open>metis surj_pair\<close>)
  moreover have "finite (dom (handler_owner B w))" by (simp add: dom)
  moreover have sub: "?free \<subseteq> {..<num_message_handler_fns}" using own [of 0] by (simp add: handler_invar_def)
  moreover have "card ?free \<le> num_message_handler_fns"
    using card_mono [OF _ sub] by simp
  ultimately show "finite (directory B w)"
    "card (directory B w) + card ?free = num_message_handler_fns"
    by (simp_all add: dom ran [symmetric] card_Diff_subset finite_subset finite_ran)
qed

lemma directory_full:
  assumes "handler_world_inv B w"
  shows "num_message_handler_fns \<le> card (directory B w) \<longleftrightarrow> free_message_handler_ids (world_statics w) = {}"
proof -
  have "handler_invar B 0 (world_statics w, world_registries w 0)"
    using assms by (simp add: handler_world_inv_def)
  then have "finite (free_message_handler_ids (world_statics w))"
    using handler_invar_finite by fastforce
  with directory_card(2) [OF assms] show ?thesis
    by (metis add_cancel_left_right card_0_eq le_add1 le_antisym linorder_linear)
qed

lemma world_op_refines:
  assumes inv: "handler_world_inv B w" and run: "world_op B x w = (a, w')"
  shows "directory_op x (directory B w) = (a, directory B w')"
proof (cases x)
  case (Acquire choice t c)
  let ?s = "(world_statics w, world_registries w t)"
  have own: "handler_invar B t ?s" using inv by (simp add: handler_world_inv_def)
  have mem: "(t, c) \<in> directory B w \<longleftrightarrow> c \<in> ran (handler_used B ?s)" by (simp add: directory_def)
  have full: "num_message_handler_fns \<le> card (directory B w) \<longleftrightarrow> handler_free ?s = {}"
    using directory_full [OF inv] by simp
  consider "handler_free ?s = {}" | "handler_free ?s \<noteq> {}" "c \<in> ran (handler_used B ?s)"
    | "handler_free ?s \<noteq> {}" "c \<notin> ran (handler_used B ?s)" by blast
  then show ?thesis
  proof cases
    case 1
    with handler_pool.acquire_full [OF own, of choice c] run full Acquire show ?thesis
      by (auto simp: acquire_answer_def)
  next
    case 2
    with handler_pool.acquire_duplicate [OF own, of c choice] run full mem Acquire show ?thesis
      by (auto simp: acquire_answer_def)
  next
    case 3
    then obtain i g m where get: "get_message_handler B choice t c ?s =
        (Returns (Inr (Extern_fn_message_handler i)), g, m)" "i \<in> handler_free ?s"
      "bm_get_by_left B m = (handler_used B ?s)(i \<mapsto> c)"
      using handler_pool.acquire_new [OF own, of c choice] by auto
    have "handler_used B ?s i = None" using own get(2) by (rule handler_pool.free_not_used)
    then have "ran (bm_get_by_left B m) = insert c (ran (handler_used B ?s))" unfolding get(3) by simp
    then have "directory B w' = insert (t, c) (directory B w)"
      using run get(1) unfolding Acquire by (auto simp: directory_def split: if_splits)
    moreover have "a = Granted" using run get(1) unfolding Acquire by (auto simp: acquire_answer_def)
    ultimately show ?thesis using 3 full mem Acquire by simp
  qed
next
  case (Release t c)
  let ?s = "(world_statics w, world_registries w t)"
  have own: "handler_invar B t ?s" using inv by (simp add: handler_world_inv_def)
  have mem: "(t, c) \<in> directory B w \<longleftrightarrow> c \<in> ran (handler_used B ?s)" by (simp add: directory_def)
  show ?thesis
  proof (cases "c \<in> ran (handler_used B ?s)")
    case True
    then obtain i where i: "handler_used B ?s i = Some c" by (auto simp: ran_def)
    then obtain g m where rel: "release_message_handler B c ?s = (Ok (), g, m)"
      "bm_get_by_left B m = (handler_used B ?s)(i := None)"
      using handler_pool.release_known [OF own i] by auto
    have only: "handler_used B ?s j = Some c \<longleftrightarrow> j = i" for j
      using i handler_pool.used_inj [OF own, of j c i] by auto
    have "ran (bm_get_by_left B m) = ran (handler_used B ?s) - {c}"
      unfolding rel(2) using only i by (auto simp: ran_def) (metis option.inject)
    moreover have w': "w' = w\<lparr>world_statics := g, world_registries := (world_registries w)(t := m)\<rparr>"
      using run rel(1) by (simp add: Release)
    ultimately have "x \<in> directory B w' \<longleftrightarrow> x \<in> directory B w - {(t, c)}" for x
      by (cases x) (simp only: directory_update w', simp add: directory_def)
    then have "directory B w' = directory B w - {(t, c)}" by blast
    with True run rel(1) mem show ?thesis by (auto simp: Release release_answer_def)
  next
    case False
    with handler_pool.release_unknown [OF own, of c] run mem show ?thesis
      by (auto simp: Release release_answer_def)
  qed
qed

section \<open>Properties\<close>

text \<open>
  C5. The pool of message handlers implements the directory: however the requests and
  releases of all transports interleave, and whichever free handlers are picked, each of them
  is answered as the directory answers it, and the listener configurations registered at the
  end are those of the directory.
\<close>

theorem handler_pool_refines_directory:
  assumes "bimap_laws B"
  shows "run_ops directory_op ops {} =
    map_prod id (directory B) (run_ops (world_op B) ops (handler_world_init B))"
proof -
  have "run_ops directory_op ops (directory B w) = map_prod id (directory B) (run_ops (world_op B) ops w)"
    if "handler_world_inv B w" for w
    using that
  proof (induction ops arbitrary: w)
    case (Cons x ops)
    obtain a w' where step: "world_op B x w = (a, w')" by (cases "world_op B x w")
    have "handler_world_inv B w'" using handler_step_inv [OF world_op_step Cons.prems, of x] step by simp
    with Cons.IH world_op_refines [OF Cons.prems step] step show ?case
      by (simp add: map_prod_def split: prod.split)
  qed simp
  moreover have "directory B (handler_world_init B) = {}"
    using assms by (simp add: directory_def handler_world_init_def bimap_laws_def ran_def)
  ultimately show ?thesis using handler_world_inv_init [OF assms] by metis
qed

theorem handler_pool_refines_directory_witness:
  "fst (run_ops (world_op list_bimap) [Acquire 7 0 True, Acquire 7 1 True, Acquire 3 0 True, Release 0 True,
     Release 0 True] (handler_world_init list_bimap)) =
   [Granted, Granted, Already_registered, Released, Not_registered]"
proof -
  have "fst (run_ops directory_op [Acquire 7 0 True, Acquire 7 1 True, Acquire 3 0 True, Release 0 True,
      Release 0 True] {}) = [Granted, Granted, Already_registered, Released, Not_registered]"
    by (simp add: num_message_handler_fns_def)
  then show ?thesis unfolding handler_pool_refines_directory [OF list_bimap_laws] by simp
qed

end
