(* ===== verification/Construction.thy ===== *)
theory Construction
  imports Transport_Properties
begin

text \<open>
  Creating a transport (\<^verbatim>\<open>new\<close>, \<^verbatim>\<open>new_with_config\<close>, \<^verbatim>\<open>new_internal\<close> of
  \<^verbatim>\<open>up-transport-vsomeip/src/lib.rs\<close>): it is ready for use, or it has been cleaned up.
\<close>

section \<open>Starting the application\<close>





section \<open>Dropping a transport without listeners\<close>


section \<open>Properties\<close>



end
