(* ===== verification/Transport_Calls.thy ===== *)
theory Transport_Calls
  imports Transport_Properties
begin

text \<open>
  The remaining calls of a transport, end to end: what a send hands to vsomeip, what
  point-to-point registration does, and what a newly created transport looks like.
\<close>

section \<open>Sending\<close>

abbreviation tr_log :: "'m transport \<Rightarrow> vsomeip_log" where
  "tr_log w \<equiv> engine_log (tr_engine w)"

lemma register_internal_log:
  "\<exists>calls. snd (snd (register_listener_internal V src sink rt h app (reg, log))) = log @ calls \<and>
    filter is_transmission calls = []"
  by (auto simp: register_listener_internal_def vsomeip_call_defs
      register_message_handler_fn_ptr_safe_def register_message_handler_fn_ptr_def Let_def split: registration_type.split prod.split option.split)

lemma handle_register_log:
  assumes "handle_command U V oc path env (RegisterListener src sink rt h app) e = (out, e')"
  shows "\<exists>calls. engine_log e' = engine_log e @ calls \<and> filter is_transmission calls = []"
  using assms register_internal_log [of V src sink rt h app
      "vsomeip_offered_requested (engine_storage e)" "engine_log e"]
  by (auto simp: make_application_wrapper_def Let_def split: if_splits prod.splits)

lemma ask_register_log:
  assumes "ask_engine U V oc env fid (RegisterListener src sink rt h app) w = (out, w')"
  shows "\<exists>calls. tr_log w' = tr_log w @ calls \<and> filter is_transmission calls = []"
proof (cases "tr_running w")
  case True
  obtain r e where "handle_command U V oc (tr_engine_config w) (call_engine env) (RegisterListener src sink rt h app)
      (tr_engine w) = (r, e)"
    by (cases "handle_command U V oc (tr_engine_config w) (call_engine env) (RegisterListener src sink rt h app) (tr_engine w)")
  with handle_register_log [OF this] assms True show ?thesis
    by (auto simp del: handle_command.simps
        simp: ask_engine_def send_to_engine_with_status_def engine_takes_def split: outcome.splits)
next
  case False
  with assms show ?thesis by (simp add: ask_engine_stopped)
qed

lemma acquire_handler_log: "acquire_handler B ch t c w = (res, w') \<Longrightarrow> tr_log w' = tr_log w"
  by (auto simp: acquire_handler_def split: prod.splits)

lemma returning_response_log:
  assumes "register_for_returning_response_if_point_to_point_listener_and_sending_request
    U V B oc t env src sink rt w = (out, w')"
  shows "\<exists>calls. tr_log w' = tr_log w @ calls \<and> filter is_transmission calls = []"
proof (cases "point_to_point_listener w = None \<or> rt \<noteq> Request \<or> sink = None")
  case True
  with assms show ?thesis
    by (auto simp: register_for_returning_response_if_point_to_point_listener_and_sending_request_def
        split: option.splits if_splits)
next
  case False
  then obtain l snk where l: "point_to_point_listener w = Some l" "rt = Request" "sink = Some snk"
    by auto
  obtain res w1 where acq: "acquire_handler B (call_choice env) t (snk, Some src, l) w = (res, w1)"
    by (cases "acquire_handler B (call_choice env) t (snk, Some src, l) w")
  show ?thesis
    using assms l acquire_handler_log [OF acq]
    by (auto simp: register_for_returning_response_if_point_to_point_listener_and_sending_request_def
        acq Let_def dest: ask_register_log
        split: outcome.splits sum.splits prod.splits get_message_handler_error.splits)
qed

text \<open>
  What is new in the log after the engine was asked to send: the message, once, when the answer
  is success; nothing but at most one transmission, in the case of a late answer, otherwise.
\<close>

definition sent_once :: "ApplicationName \<Rightarrow> umessage \<Rightarrow> vsomeip_log \<Rightarrow> bool" where
  "sent_once app m calls \<longleftrightarrow> (\<exists>c. filter is_transmission calls = [(app, c)] \<and> last calls = (app, c) \<and>
     transmitted_payload c = Some (set_data_safe (case umsg_payload m of None \<Rightarrow> [] | Some bytes \<Rightarrow> bytes)))"

definition send_report ::
    "ApplicationName \<Rightarrow> umessage \<Rightarrow> unit result outcome \<Rightarrow> vsomeip_log \<Rightarrow> bool" where
  "send_report app m out calls =
     (case out of
        Returns (Ok _) \<Rightarrow> sent_once app m calls
      | Returns (Err e) \<Rightarrow> filter is_transmission calls = [] \<or>
          status_code e = DEADLINE_EXCEEDED \<and> sent_once app m calls
      | Panics \<Rightarrow> filter is_transmission calls = [])"

lemma send_report_silent:
  "filter is_transmission calls = [] \<Longrightarrow> send_report app m (Returns (Err e)) calls"
  "filter is_transmission calls = [] \<Longrightarrow> send_report app m Panics calls"
  by (simp_all add: send_report_def)

lemma send_report_prefix:
  assumes "filter is_transmission calls = []" "send_report app m out calls'"
  shows "send_report app m out (calls @ calls')"
proof -
  have "sent_once app m (calls @ calls')" if "sent_once app m calls'"
  proof -
    have "calls' \<noteq> []" using that by (auto simp: sent_once_def)
    with that assms(1) show ?thesis by (simp add: sent_once_def)
  qed
  with assms show ?thesis by (auto simp: send_report_def split: outcome.splits sum.splits)
qed

lemma handle_send_report:
  assumes "handle_command U V oc path env (SendMessage m rt app) e = (out, e')"
  shows "\<exists>calls. engine_log e' = engine_log e @ calls \<and>
    (case out of Returns (Ok _) \<Rightarrow> sent_once app m calls | _ \<Rightarrow> calls = [])"
proof (cases "get_application V (engine_log e) app")
  case True
  obtain r rpc reg log where send: "send_internal U V oc m app (rpc_correlation (engine_storage e),
      vsomeip_offered_requested (engine_storage e), engine_log e) = (r, rpc, reg, log)"
    by (cases "send_internal U V oc m app (rpc_correlation (engine_storage e),
      vsomeip_offered_requested (engine_storage e), engine_log e)")
  then have out: "r = out" "log = engine_log e'"
    using assms True by (auto simp: make_application_wrapper_def)
  show ?thesis
    using send_internal_transmission [where U = U and V = V and oc = oc and umsg = m and app = app
        and rpc = "rpc_correlation (engine_storage e)"
        and reg = "vsomeip_offered_requested (engine_storage e)" and log = "engine_log e"]
    unfolding send out by (auto simp: sent_once_def split: outcome.splits sum.splits)
next
  case False
  with assms show ?thesis by (auto simp: make_application_wrapper_def)
qed

lemma ask_send_report:
  assumes "ask_engine U V oc env fid (SendMessage m rt app) w = (out, w')"
  shows "\<exists>calls. tr_log w' = tr_log w @ calls \<and> send_report app m out calls"
proof (cases "tr_running w")
  case True
  obtain r e where run: "handle_command U V oc (tr_engine_config w) (call_engine env) (SendMessage m rt app) (tr_engine w) = (r, e)"
    by (cases "handle_command U V oc (tr_engine_config w) (call_engine env) (SendMessage m rt app) (tr_engine w)")
  with handle_send_report [OF run] assms True show ?thesis
    by (auto simp del: handle_command.simps simp: ask_engine_def send_to_engine_with_status_def
        engine_takes_def await_engine_def send_report_def split: outcome.splits sum.splits if_splits)
next
  case False
  with assms show ?thesis by (simp add: ask_engine_stopped send_report_def)
qed

text \<open>
  C8. A send reports what it did. When it succeeds, exactly one message was handed to vsomeip
  during the call, last of all, on this transport's application and with the payload of the
  message. When it fails or panics, none was, unless the engine's answer came too late, in
  which case the message may have been sent once. Registering for the response to a request,
  which a send does on a transport with a point-to-point listener, transmits nothing.
\<close>

theorem send_reports_transmission:
  "case send U V B oc t env1 env2 m w of (out, w') \<Rightarrow>
     \<exists>calls. tr_log w' = tr_log w @ calls \<and> send_report (app_name_of w) m out calls"
proof -
  have silent: "\<exists>calls. tr_log w = tr_log w @ calls \<and> send_report a m (Returns (Err e)) calls" for a e
    by (intro exI [of _ "[]"]) (simp add: send_report_silent)
  show ?thesis
  proof (cases "umsg_attributes m")
    case None
    then show ?thesis using silent by (simp add: send_def)
  next
    case (Some attrs)
    show ?thesis
    proof (cases "validate_attributes U attrs \<and> attr_source attrs \<noteq> None")
      case False
      then show ?thesis using silent Some by (auto simp: send_def split: option.split)
    next
      case True
      then obtain src where src: "attr_source attrs = Some src" by auto
      obtain rt where rt: "determine_type U src (attr_sink attrs) = Ok rt" using determine_type_total by blast
      obtain r w1 where w1: "register_for_returning_response_if_point_to_point_listener_and_sending_request
          U V B oc t env1 src (attr_sink attrs) rt w = (r, w1)"
        by (cases "register_for_returning_response_if_point_to_point_listener_and_sending_request
          U V B oc t env1 src (attr_sink attrs) rt w")
      obtain calls where calls: "tr_log w1 = tr_log w @ calls" "filter is_transmission calls = []"
        using returning_response_log [OF w1] by blast
      obtain out w2 where w2: "ask_engine U V oc env2 ''send_internal'' (SendMessage m rt (app_name_of w)) w1 =
          (out, w2)"
        by (cases "ask_engine U V oc env2 ''send_internal'' (SendMessage m rt (app_name_of w)) w1")
      from ask_send_report [OF w2] obtain calls' where
        calls': "tr_log w2 = tr_log w1 @ calls'" "send_report (app_name_of w) m out calls'" by blast
      have "send U V B oc t env1 env2 m w =
          (case r of Panics \<Rightarrow> (Panics, w1) | Returns (Err e) \<Rightarrow> (Returns (Err e), w1)
           | Returns (Ok _) \<Rightarrow> (out, w2))"
        using Some True src rt w1 w2 by (simp add: send_def split: outcome.split sum.split)
      then show ?thesis
        using calls calls' send_report_prefix [OF calls(2) calls'(2)]
        by (auto simp: send_report_silent split: outcome.split sum.split)
    qed
  qed
qed

end
