(* ===== verification/Rpc_Roundtrip.thy ===== *)
theory Rpc_Roundtrip
  imports Message_Conversions
begin

text \<open>
  What the conversions of \<^verbatim>\<open>message_conversions.rs\<close> guarantee together with the correlation
  registry: a request that came in is answered to the client and session it came from, a
  response that comes in reaches the request it answers, and the status survives the way
  through SOME/IP as far as SOME/IP can express it.
\<close>

section \<open>What a successful conversion has done\<close>

lemma request_law_get: "request_law V \<Longrightarrow> get_request V m = create_request_id (msg_client m) (msg_session m)"
  by (simp add: request_law_def create_request_id_def)

lemma build_request_attributes:
  "builder_laws U \<Longrightarrow> build_request U sink source ttl i p = Some m \<Longrightarrow>
   attributes_of U m = \<lparr>attr_id = Some i, attr_type = Known UMESSAGE_TYPE_REQUEST,
     attr_source = Some source, attr_sink = Some sink, attr_ttl = Some ttl,
     attr_reqid = None, attr_commstatus = None\<rparr> \<and> umsg_payload m = Some p"
  unfolding builder_laws_def by (auto intro!: attributes_of_Some)


lemma build_publish_attributes:
  "builder_laws U \<Longrightarrow> build_publish U source i p = Some m \<Longrightarrow>
   attributes_of U m = \<lparr>attr_id = Some i, attr_type = Known UMESSAGE_TYPE_PUBLISH,
     attr_source = Some source, attr_sink = None, attr_ttl = None,
     attr_reqid = None, attr_commstatus = None\<rparr> \<and> umsg_payload m = Some p"
  unfolding builder_laws_def by (auto intro!: attributes_of_Some)

lemma convert_request_ok:
  assumes laws: "parts_law U" "builder_laws U"
    and ok: "convert_vsomeip_msg_to_umsg U V fresh auth self mech v r = (Returns (Ok q), r1)"
    and type: "msg_message_type v = MT_REQUEST"
  shows "attr_id (attributes_of U q) = Some fresh"
    "attr_sink (attributes_of U q) = Some \<lparr>authority_name = auth, ue_id = ucast (msg_service v),
       ue_version_major = ucast (msg_interface_version v), resource_id = ucast (msg_method v)\<rparr>"
    "insert_me_request_correlation fresh (get_request V v) r = (Ok (), r1)"
proof -
  from ok type obtain sink source version p where
    sink: "try_from_parts U auth (ucast (msg_service v)) (msg_interface_version v) (msg_method v) = Some sink"
    and "try_from_parts U mech (ucast (fst (split_u32_to_u16 (get_request V v)))) version 0 = Some source"
    and q: "build_request U sink source 1000 fresh p = Some q"
    and ins: "\<And>i. attr_id (attributes_of U q) = Some i \<Longrightarrow>
      insert_me_request_correlation i (get_request V v) r = (Ok (), r1)"
    by (auto simp: convert_vsomeip_msg_to_umsg_def convert_vsomeip_mt_request_to_umsg_def Let_def
        split: option.splits prod.splits sum.splits)
  note attrs = build_request_attributes [OF laws(2) q]
  show "attr_id (attributes_of U q) = Some fresh" using attrs by simp
  then show "insert_me_request_correlation fresh (get_request V v) r = (Ok (), r1)" by (rule ins)
  show "attr_sink (attributes_of U q) = Some \<lparr>authority_name = auth, ue_id = ucast (msg_service v),
       ue_version_major = ucast (msg_interface_version v), resource_id = ucast (msg_method v)\<rparr>"
    using attrs parts_lawD [OF laws(1) sink] by simp
qed

lemma convert_request_payload:
  assumes "builder_laws U"
    and "convert_vsomeip_msg_to_umsg U V fresh auth self mech v r = (Returns (Ok q), r1)"
    and "msg_message_type v = MT_REQUEST"
  shows "\<exists>p. get_message_payload v = Some p \<and> umsg_payload q = Some (get_data_safe p)"
  using assms(2,3) build_request_attributes [OF assms(1)]
  by (fastforce simp: convert_vsomeip_msg_to_umsg_def convert_vsomeip_mt_request_to_umsg_def Let_def
      split: option.splits prod.splits sum.splits)

lemma response_conversion:
  assumes "attr_source (attributes_of U resp) = Some source"
    and "attr_reqid (attributes_of U resp) = Some i"
    and "fst (remove_me_request_correlation i r) = Ok request_id"
  shows "umsg_response_to_vsomeip_message U V resp r =
    (Ok ((create_message V True)\<lparr>msg_service := ucast (ue_id source), msg_instance := 1,
       msg_method := ucast (resource_id source),
       msg_interface_version := ucast (ue_version_major source),
       msg_client := fst (split_u32_to_u16 request_id),
       msg_session := snd (split_u32_to_u16 request_id),
       msg_return_code := (case attr_commstatus (attributes_of U resp) of None \<Rightarrow> E_OK
         | Some c \<Rightarrow> ucode_to_vsomeip_err_code (enum_value_or c UNIMPLEMENTED)),
       msg_message_type := (case attr_commstatus (attributes_of U resp) of None \<Rightarrow> MT_RESPONSE
         | Some c \<Rightarrow> if enum_value_or c UNIMPLEMENTED = OK then MT_RESPONSE else MT_ERROR)\<rparr>),
     snd (remove_me_request_correlation i r))"
  using assms
  by (cases "remove_me_request_correlation i r")
    (auto simp: umsg_response_to_vsomeip_message_def split_u32_to_u16_eq split_u32_to_u8_low Let_def
      split: option.split)




section \<open>Example messages\<close>

definition example_method :: uuri where
  "example_method = \<lparr>authority_name = ''host'', ue_id = 0x10, ue_version_major = 1, resource_id = 2\<rparr>"

definition example_request :: vsomeip_message where
  "example_request = (blank_message MT_REQUEST)\<lparr>msg_service := 0x10, msg_method := 2,
     msg_client := 0x44, msg_session := 3, msg_interface_version := 1,
     msg_payload := Some (Some [1])\<rparr>"

definition example_umsg :: umessage where
  "example_umsg = \<lparr>umsg_attributes = Some (plain_attributes\<lparr>attr_id := Some (UUID 7),
     attr_type := Known UMESSAGE_TYPE_REQUEST, attr_sink := Some example_method,
     attr_source := Some \<lparr>authority_name = ''here'', ue_id = 1, ue_version_major = 1, resource_id = 0\<rparr>\<rparr>),
   umsg_payload = Some [1]\<rparr>"

lemmas example_defs =
  example_method_def example_request_def example_umsg_def blank_message_def
  get_message_payload_def get_data_safe_def try_into_u8_def

lemma example_request_converted:
  "convert_vsomeip_msg_to_umsg permissive_up_rust (example_vsomeip 5) (UUID 7) ''host''
      example_method ''remote'' example_request rpc_correlation_new =
    (Returns (Ok \<lparr>umsg_attributes = Some (plain_attributes\<lparr>attr_id := Some (UUID 7),
       attr_type := Known UMESSAGE_TYPE_REQUEST, attr_source := Some \<lparr>authority_name = ''remote'',
         ue_id = 0x44, ue_version_major = 1, resource_id = 0\<rparr>,
       attr_sink := Some example_method, attr_ttl := Some 1000\<rparr>), umsg_payload = Some [1]\<rparr>),
     rpc_correlation_new\<lparr>me_request_correlation := [UUID 7 \<mapsto> 0x440003]\<rparr>)"
    by (simp add: convert_vsomeip_msg_to_umsg_def conversion_defs registry_defs example_defs
        split_u32_to_u16_eq rpc_correlation_new_def)

section \<open>Properties\<close>

lemma request_then_response:
  assumes laws: "parts_law U" "builder_laws U" "request_law V"
    and request: "convert_vsomeip_msg_to_umsg U V fresh auth self mech v r = (Returns (Ok q), r1)"
      "msg_message_type v = MT_REQUEST"
    and others: "Remove_me fresh \<notin> set ops"
    and response: "attr_reqid (attributes_of U resp) = attr_id (attributes_of U q)"
      "attr_source (attributes_of U resp) = attr_sink (attributes_of U q)"
      "attr_commstatus (attributes_of U resp) = Some (Known status)"
  shows "\<exists>w r2 m. umsg_response_to_vsomeip_message U V resp (fold rpc_apply ops r1) = (Ok w, r2) \<and>
    msg_client w = msg_client v \<and> msg_session w = msg_session v \<and>
    msg_service w = msg_service v \<and> msg_method w = msg_method v \<and>
    msg_interface_version w = msg_interface_version v \<and>
    msg_message_type w = (if status = OK then MT_RESPONSE else MT_ERROR) \<and>
    msg_return_code w = ucode_to_vsomeip_err_code status \<and>
    umsg_response_to_vsomeip_message U V resp r2 = (Err (fail_with_code NOT_FOUND m), r2)"
proof -
  note q = convert_request_ok [OF laws(1,2) request]
  let ?r = "fold rpc_apply ops r1"
  have taken: "fst (remove_me_request_correlation fresh ?r) = Ok (get_request V v)"
    using q(3) others
    by (intro me_table.take_after_steps [of fresh "get_request V v" r r1])
      (auto intro: rpc_apply_keeps_me)
  then obtain r2 where r2: "remove_me_request_correlation fresh ?r = (Ok (get_request V v), r2)"
    by (metis prod.collapse)
  from me_table.take_once [OF r2] obtain m where
    again: "remove_me_request_correlation fresh r2 = (Err (fail_with_code NOT_FOUND m), r2)"
    by blast
  have "umsg_response_to_vsomeip_message U V resp r2 = (Err (fail_with_code NOT_FOUND m), r2)"
    using response q(1,2) again
    by (simp add: umsg_response_to_vsomeip_message_def split_u32_to_u16_eq split_u32_to_u8_low)
  moreover have "split_u32_to_u16 (get_request V v) = (msg_client v, msg_session v)"
    by (simp add: request_law_get [OF laws(3)])
  ultimately show ?thesis
    using response_conversion [OF _ _ taken, of U resp _ V] response q(1,2) by (simp add: r2)
qed

text \<open>
  C11. A request from the SOME/IP network is answered to where it came from. Once it has been
  handed to uProtocol, and whatever other correlations are made or taken in between, a
  response that carries its id and comes from the method it was sent to becomes a SOME/IP
  message with the client id, session id, service, method and interface version of the
  request; it is a response for status \<open>OK\<close> and an error message otherwise; and a second
  response to the same request is refused with \<open>NOT_FOUND\<close>.
\<close>

theorem incoming_request_answered:
  assumes laws: "parts_law U" "builder_laws U" "request_law V"
    and request: "convert_vsomeip_msg_to_umsg U V fresh auth self mech v r = (Returns (Ok q), r1)"
      "msg_message_type v = MT_REQUEST"
    and others: "Remove_me fresh \<notin> set ops"
    and response: "attr_reqid (attributes_of U resp) = attr_id (attributes_of U q)"
      "attr_source (attributes_of U resp) = attr_sink (attributes_of U q)"
      "attr_commstatus (attributes_of U resp) = Some (Known status)"
  shows "\<exists>w r2 m. umsg_response_to_vsomeip_message U V resp (fold rpc_apply ops r1) = (Ok w, r2) \<and>
    msg_client w = msg_client v \<and> msg_session w = msg_session v \<and>
    msg_service w = msg_service v \<and> msg_method w = msg_method v \<and>
    msg_interface_version w = msg_interface_version v \<and>
    msg_message_type w = (if status = OK then MT_RESPONSE else MT_ERROR) \<and>
    msg_return_code w = ucode_to_vsomeip_err_code status \<and>
    umsg_response_to_vsomeip_message U V resp r2 = (Err (fail_with_code NOT_FOUND m), r2)"
  by (rule request_then_response [OF laws request others response])

theorem incoming_request_answered_witness:
  "\<exists>w r2. umsg_response_to_vsomeip_message permissive_up_rust (example_vsomeip 5)
      \<lparr>umsg_attributes = Some (plain_attributes\<lparr>attr_reqid := Some (UUID 7),
         attr_source := Some example_method, attr_commstatus := Some (Known NOT_FOUND)\<rparr>),
       umsg_payload = None\<rparr>
      (snd (convert_vsomeip_msg_to_umsg permissive_up_rust (example_vsomeip 5) (UUID 7) ''host''
        example_method ''remote'' example_request rpc_correlation_new)) = (Ok w, r2) \<and>
    msg_client w = 0x44 \<and> msg_session w = 3 \<and> msg_message_type w = MT_ERROR"
proof -
  from incoming_request_answered [OF permissive_laws(2,3) example_request_law example_request_converted, of "[]"
      "\<lparr>umsg_attributes = Some (plain_attributes\<lparr>attr_reqid := Some (UUID 7),
         attr_source := Some example_method, attr_commstatus := Some (Known NOT_FOUND)\<rparr>),
       umsg_payload = None\<rparr>" NOT_FOUND]
  show ?thesis unfolding example_request_converted by (auto simp: example_request_def blank_message_def plain_attributes_def)
qed




text \<open>
  Status codes on the way through SOME/IP. Eight codes arrive as they were sent;
  \<open>UNAVAILABLE\<close> arrives as \<open>NOT_FOUND\<close>, and every other code as \<open>UNKNOWN\<close>. Success is
  never confused with failure, in either direction.
\<close>

theorem status_through_someip:
  "vsomeip_err_code_to_ucode (ucode_to_vsomeip_err_code c) =
     (if c \<in> {OK, INVALID_ARGUMENT, DEADLINE_EXCEEDED, NOT_FOUND, DATA_LOSS, INTERNAL, UNKNOWN,
         FAILED_PRECONDITION} then c
      else if c = UNAVAILABLE then NOT_FOUND else UNKNOWN) \<and>
   (ucode_to_vsomeip_err_code c = E_OK \<longleftrightarrow> c = OK) \<and>
   (vsomeip_err_code_to_ucode e = OK \<longleftrightarrow> e = E_OK)"
  by (cases c; cases e) simp_all

text \<open>
  C36. Converting an incoming message never panics, for a transport whose major version fits
  8 bits (which its constructor checks), and a message that is refused leaves no trace: a
  message without payload is \<open>INTERNAL\<close>, one of an unhandled type \<open>OUT_OF_RANGE\<close>; a refused
  request or notification changes no correlation; an accepted request adds exactly the entry
  of its own id; and a response or error message touches no entry but that of its request id.
\<close>

theorem conversion_total:
  assumes "ue_version_major self \<le> 0xFF"
  shows "\<exists>res r'. convert_vsomeip_msg_to_umsg U V fresh auth self mech v r = (Returns res, r') \<and>
    (get_message_payload v = None \<longrightarrow> (\<exists>m. res = Err (fail_with_code INTERNAL m)) \<and> r' = r) \<and>
    (get_message_payload v \<noteq> None \<longrightarrow>
      (case msg_message_type v of
         MT_REQUEST \<Rightarrow> if is_ok res
           then \<exists>i. me_request_correlation r i = None \<and> r' = r\<lparr>me_request_correlation :=
             (me_request_correlation r)(i \<mapsto> get_request V v)\<rparr>
           else r' = r
       | MT_NOTIFICATION \<Rightarrow> r' = r
       | MT_RESPONSE \<Rightarrow> r' = r \<or> r' = r\<lparr>ue_request_correlation :=
           (ue_request_correlation r)(get_request V v := None)\<rparr>
       | MT_ERROR \<Rightarrow> r' = r \<or> r' = r\<lparr>ue_request_correlation :=
           (ue_request_correlation r)(get_request V v := None)\<rparr>
       | _ \<Rightarrow> (\<exists>m. res = Err (fail_with_code OUT_OF_RANGE m)) \<and> r' = r))"
proof (cases "get_message_payload v")
  case None
  then show ?thesis by (simp add: convert_vsomeip_msg_to_umsg_def)
next
  case (Some p)
  obtain version where version: "try_into_u8 (ue_version_major self) = Some version"
    using assms by (simp add: try_into_u8_def)
  show ?thesis
  proof (cases "msg_message_type v")
    case MT_REQUEST
    obtain out r' where conv: "convert_vsomeip_msg_to_umsg U V fresh auth self mech v r = (out, r')"
      by (cases "convert_vsomeip_msg_to_umsg U V fresh auth self mech v r")
    with MT_REQUEST Some version have "\<exists>res. out = Returns res \<and>
        (if is_ok res then \<exists>i. me_request_correlation r i = None \<and> r' = r\<lparr>me_request_correlation :=
           (me_request_correlation r)(i \<mapsto> get_request V v)\<rparr> else r' = r)"
      by (auto simp: convert_vsomeip_msg_to_umsg_def convert_vsomeip_mt_request_to_umsg_def Let_def
          insert_me_request_correlation_def split: option.splits prod.splits)
    with conv MT_REQUEST Some show ?thesis by auto
  qed (use Some in \<open>auto simp: convert_vsomeip_msg_to_umsg_def convert_vsomeip_mt_response_to_umsg_def
      convert_vsomeip_mt_error_to_umsg_def remove_ue_request_correlation_def Let_def
      split: option.splits prod.splits\<close>)
qed

theorem conversion_total_witness:
  "\<exists>res r'. convert_vsomeip_msg_to_umsg permissive_up_rust (example_vsomeip 5) (UUID 1) ''host''
     example_method ''remote'' (blank_message MT_UNKNOWN\<lparr>msg_payload := Some None\<rparr>)
     rpc_correlation_new = (Returns res, r') \<and> (\<exists>m. res = Err (fail_with_code OUT_OF_RANGE m))"
proof -
  have "ue_version_major example_method \<le> 0xFF" by (simp add: example_method_def)
  from conversion_total [OF this, of permissive_up_rust "example_vsomeip 5" "UUID 1" "''host''"
      "''remote''" "blank_message MT_UNKNOWN\<lparr>msg_payload := Some None\<rparr>" rpc_correlation_new]
  show ?thesis by (auto simp: blank_message_def get_message_payload_def)
qed

end
