(* ===== verification/Extern_Handlers.thy ===== *)
theory Extern_Handlers
  imports Transport_Calls Rpc_Roundtrip
begin

text \<open>
  The extern "C" message handlers \<^verbatim>\<open>generate_message_handler_extern_c_fns!(10000)\<close> generates
  (\<^verbatim>\<open>vsomeip-proc-macro/src/lib.rs\<close>): vsomeip calls handler \<open>i\<close> with a message; the handler
  finds the transport it belongs to, converts the message and hands it to the listener.

  \<open>live\<close> are the transports that have not been dropped, which a \<^verbatim>\<open>Weak\<close> reference can upgrade
  to. The conversion runs in a task of its own whose result comes back through a channel: when
  the task ends early, by an error or a panic, the channel is closed and nothing is delivered.
  The delivery itself is the pair of listener and message that \<^verbatim>\<open>on_receive\<close> is called with.
\<close>

section \<open>Definitions\<close>

definition call_shared_extern_fn ::
    "up_rust \<Rightarrow> vsomeip_api \<Rightarrow> 'm config_bimap \<Rightarrow> uuid \<Rightarrow> nat set \<Rightarrow> MessageHandlerId \<Rightarrow>
     vsomeip_message \<Rightarrow> handler_statics \<Rightarrow> (nat \<Rightarrow> 'm storage) \<Rightarrow>
     (listener \<times> umessage) option \<times> (nat \<Rightarrow> 'm storage)" where
  "call_shared_extern_fn U V B fresh live message_handler_id vsomeip_msg g stores =
     (case get_message_handler_id_transport live g message_handler_id of
        None \<Rightarrow> (None, stores)
      | Some t \<Rightarrow>
          let transport_storage = stores t;
              (res, rpc) = convert_vsomeip_msg_to_umsg U V fresh
                (get_local_authority transport_storage) (get_uri transport_storage)
                (get_remote_authority transport_storage) vsomeip_msg (rpc_correlation transport_storage);
              transport_storage1 = transport_storage\<lparr>rpc_correlation := rpc\<rparr>;
              stores1 = stores(t := transport_storage1)
          in (case res of
                Panics \<Rightarrow> (None, stores1)
              | Returns (Err err) \<Rightarrow> (None, stores1)
              | Returns (Ok umsg) \<Rightarrow>
                  (case storage_get_listener_for_message_handler_id B transport_storage1 message_handler_id of
                     Some listener \<Rightarrow> (Some (listener, umsg), stores1)
                   | None \<Rightarrow> (None, stores1))))"

section \<open>An example\<close>

text \<open>Handler 7 belongs to a listener of transport 0.\<close>

definition example_stores :: "(nat \<times> listener_config) list \<Rightarrow> nat \<Rightarrow> (nat \<times> listener_config) list storage" where
  "example_stores m t = (fst (storage_new list_bimap (vsomeip_application_config_new ''app'' 1) example_method
     ''remote'' state_handler_statics_init))\<lparr>message_handler_registry := if t = 0 then m else bm_new list_bimap\<rparr>"

lemma example_pool:
  obtains g m where "handler_reachable list_bimap
      \<lparr>world_statics = g, world_registries = (\<lambda>t. message_handler_registry (example_stores m t))\<rparr>"
    "message_handler_id_to_transport_storage g 7 = Some 0"
    "bm_get_by_left list_bimap m = [7 \<mapsto> (example_method, None, Listener 5)]"
proof -
  let ?w = "handler_world_init list_bimap :: (nat \<times> listener_config) list handler_world"
  let ?s = "(world_statics ?w, world_registries ?w 0)"
  let ?c = "(example_method, None, Listener 5) :: listener_config"
  have inv: "handler_invar list_bimap 0 ?s"
    by (simp add: handler_world_init_def handler_invar_init)
  have next_id: "hash_next 7 (handler_free ?s) = Some 7"
    by (simp add: hash_next_choice handler_world_init_def handler_statics_init_def
        num_message_handler_fns_def)
  have empty: "handler_used list_bimap ?s = Map.empty"
    by (simp add: handler_world_init_def list_bimap_def)
  then have "?c \<notin> ran (handler_used list_bimap ?s)" by simp
  from get_message_handler_new [OF inv next_id this] empty obtain g m where
    get: "get_message_handler list_bimap 7 0 ?c ?s = (Returns (Inr (Extern_fn_message_handler 7)), g, m)"
    and gm: "message_handler_id_to_transport_storage g 7 = Some 0" "bm_get_by_left list_bimap m = [7 \<mapsto> ?c]"
    by auto
  have "(\<lambda>t. message_handler_registry (example_stores m t)) = (world_registries ?w)(0 := m)"
    by (auto simp: example_stores_def handler_world_init_def)
  with handler_reachable.step [OF handler_reachable.start handler_step.acquire [OF get]] gm show ?thesis
    by (intro that [of g m]) (simp_all add: handler_world_init_def)
qed

lemma example_stores_conversion:
  "convert_vsomeip_msg_to_umsg permissive_up_rust (example_vsomeip 5) (UUID 7)
      (authority_name (storage_uri (example_stores m 0))) (storage_uri (example_stores m 0))
      (remote_authority (example_stores m 0)) example_request (rpc_correlation (example_stores m 0)) =
    (Returns (Ok \<lparr>umsg_attributes = Some (plain_attributes\<lparr>attr_id := Some (UUID 7),
       attr_type := Known UMESSAGE_TYPE_REQUEST, attr_source := Some \<lparr>authority_name = ''remote'',
         ue_id = 0x44, ue_version_major = 1, resource_id = 0\<rparr>,
       attr_sink := Some example_method, attr_ttl := Some 1000\<rparr>), umsg_payload = Some [1]\<rparr>),
     rpc_correlation_new\<lparr>me_request_correlation := [UUID 7 \<mapsto> 0x440003]\<rparr>)"
  using example_request_converted by (simp add: example_stores_def storage_new_def example_method_def)

section \<open>Properties\<close>

text \<open>
  C9. A message vsomeip passes to a handler reaches the listener the handler was given out
  for, and no other. In every reachable state of the pool, a handler that belongs to a
  transport has a listener there. A message that arrives at handler \<open>i\<close> is delivered exactly when
  the handler belongs to a transport that is alive and the message can be converted for that
  transport; it goes, as the converted message, to the listener registered under \<open>i\<close> there; and
  no transport but that one is changed, and of it the correlations only.
\<close>

theorem message_reaches_its_listener:
  assumes "bimap_laws B"
    and "handler_reachable B \<lparr>world_statics = g, world_registries = (\<lambda>t. message_handler_registry (stores t))\<rparr>"
  shows "case message_handler_id_to_transport_storage g i of
      None \<Rightarrow> call_shared_extern_fn U V B fresh live i v g stores = (None, stores)
    | Some t \<Rightarrow> \<exists>src sink l.
        bm_get_by_left B (message_handler_registry (stores t)) i = Some (src, sink, l) \<and>
        call_shared_extern_fn U V B fresh live i v g stores =
          (if t \<notin> live then (None, stores)
           else case convert_vsomeip_msg_to_umsg U V fresh (authority_name (storage_uri (stores t)))
                       (storage_uri (stores t)) (remote_authority (stores t)) v
                       (rpc_correlation (stores t)) of
                  (out, rpc) \<Rightarrow>
                    (case out of Returns (Ok umsg) \<Rightarrow> Some (l, umsg) | _ \<Rightarrow> None,
                     stores(t := (stores t)\<lparr>rpc_correlation := rpc\<rparr>)))"
proof (cases "message_handler_id_to_transport_storage g i")
  case None
  then show ?thesis by (simp add: call_shared_extern_fn_def get_message_handler_id_transport_def)
next
  case (Some t)
  from handler_reachable_invar [OF assms(2,1), of t]
  have "handler_invar B t (g, message_handler_registry (stores t))" by simp
  then have "i \<in> dom (bm_get_by_left B (message_handler_registry (stores t)))"
    using Some unfolding handler_invar_def by blast
  then obtain src sink l where
    reg: "bm_get_by_left B (message_handler_registry (stores t)) i = Some (src, sink, l)" by auto
  obtain out rpc where conv: "convert_vsomeip_msg_to_umsg U V fresh (authority_name (storage_uri (stores t)))
      (storage_uri (stores t)) (remote_authority (stores t)) v (rpc_correlation (stores t)) = (out, rpc)"
    by (cases "convert_vsomeip_msg_to_umsg U V fresh (authority_name (storage_uri (stores t)))
      (storage_uri (stores t)) (remote_authority (stores t)) v (rpc_correlation (stores t))")
  have "call_shared_extern_fn U V B fresh live i v g stores =
      (if t \<notin> live then (None, stores)
       else (case out of Returns (Ok umsg) \<Rightarrow> Some (l, umsg) | _ \<Rightarrow> None,
             stores(t := (stores t)\<lparr>rpc_correlation := rpc\<rparr>)))"
    using Some reg
    by (simp add: call_shared_extern_fn_def get_message_handler_id_transport_def conv
        get_local_authority_def get_uri_def get_remote_authority_def
        storage_get_listener_for_message_handler_id_def get_listener_for_message_handler_id_def
        split: outcome.split sum.split)
  then show ?thesis using Some reg conv by auto
qed

theorem message_reaches_its_listener_witness:
  "\<exists>g stores umsg. fst (call_shared_extern_fn permissive_up_rust (example_vsomeip 5) list_bimap (UUID 7) {0}
      7 example_request g stores) = Some (Listener 5, umsg) \<and> umsg_payload umsg = Some [1]"
proof -
  obtain g m where ex: "handler_reachable list_bimap
      \<lparr>world_statics = g, world_registries = (\<lambda>t. message_handler_registry (example_stores m t))\<rparr>"
    "message_handler_id_to_transport_storage g 7 = Some 0"
    "bm_get_by_left list_bimap m = [7 \<mapsto> (example_method, None, Listener 5)]"
    by (rule example_pool)
  have "message_handler_registry (example_stores m 0) = m" by (simp add: example_stores_def)
  with message_reaches_its_listener [OF list_bimap_laws ex(1), where i = 7 and U = permissive_up_rust
        and V = "example_vsomeip 5" and fresh = "UUID 7" and live = "{0}" and v = example_request] ex(3)
  show ?thesis
    unfolding ex(2) option.case example_stores_conversion
    by (intro exI [of _ g] exI [of _ "example_stores m"]) auto
qed

end
