(* ===== verification/Call_Invariants.thy ===== *)
theory Call_Invariants
  imports Transport_Properties
begin

text \<open>
  What all calls of a transport keep. Every call of \<^verbatim>\<open>lib.rs\<close> and \<^verbatim>\<open>transport.rs\<close> is made of four things: taking
  a message handler, giving one back, asking the engine, and setting fields of the transport. The
  interface \<open>call_invariant\<close> says that a predicate survives these four; then it survives every call, and
  the drop. It is interpreted for what a transport is configured with, for an engine that has stopped,
  and for the way a transport moves the shared pool.
\<close>

section \<open>The interface\<close>

locale call_invariant =
  fixes U :: up_rust and V :: vsomeip_api and B :: "'m config_bimap" and oc :: bool and t :: nat
    and P :: "'m transport \<Rightarrow> bool"
  assumes acquire: "P w \<Longrightarrow> acquire_handler B ch t c w = (res, w') \<Longrightarrow> P w'"
    and release: "P w \<Longrightarrow> release_handler B c w = (rres, w') \<Longrightarrow> P w'"
    and ask: "P w \<Longrightarrow> ask_engine U V oc env fid cmd w = (out, w') \<Longrightarrow> P w'"
    and set_ptp: "P w \<Longrightarrow> P (w\<lparr>point_to_point_listener := l\<rparr>)"
    and set_runtime: "P w \<Longrightarrow> P (w\<lparr>tr_runtime := rt\<rparr>)"
begin

lemma ask_snd: "P w \<Longrightarrow> P (snd (ask_engine U V oc env fid cmd w))"
  by (metis ask prod.collapse)

lemma register_services: "P w \<Longrightarrow> P (snd (register_services U V B oc t envs l cs w))"
proof (induction cs arbitrary: w envs)
  case (Cons c cs)
  then show ?case
    by (auto simp: Let_def split: outcome.split sum.split prod.split)
      (blast intro: Cons.IH Cons.prems dest: acquire ask)+
qed simp

lemma unregister_services: "P w \<Longrightarrow> P (snd (unregister_services U V B oc t envs l cs w))"
proof (induction cs arbitrary: w envs)
  case (Cons c cs)
  then show ?case
    by (auto simp: Let_def split: outcome.split sum.split prod.split)
      (blast intro: Cons.IH Cons.prems dest: release ask)+
qed simp

lemma register: "P w \<Longrightarrow> P (snd (register_listener U V B J oc t envs src sink l w))"
  by (auto simp: register_listener_def register_point_to_point_listener_def
      intro!: register_services set_ptp ask_snd dest: acquire
      split: outcome.split sum.split prod.split option.split)

lemma unregister: "P w \<Longrightarrow> P (snd (unregister_listener U V B J oc t envs src sink l w))"
  by (auto simp: unregister_listener_def unregister_point_to_point_listener_def Let_def
      intro!: unregister_services dest: ask release
      split: outcome.split sum.split prod.split option.split)

lemma returning_response:
  "P w \<Longrightarrow> P (snd (register_for_returning_response_if_point_to_point_listener_and_sending_request U V B oc t env src sink rt w))"
  by (auto simp: register_for_returning_response_if_point_to_point_listener_and_sending_request_def Let_def
      dest: acquire ask split: outcome.split sum.split prod.split option.split get_message_handler_error.split)

lemma send: "P w \<Longrightarrow> P (snd (send U V B oc t env1 env2 m w))"
  by (auto simp: send_def intro!: ask_snd split: outcome.split sum.split prod.split option.split)
    (metis returning_response snd_conv)+

lemma drop_listeners: "P w \<Longrightarrow> P (snd (drop_listeners U V B J oc t envs cs w))"
proof (induction cs arbitrary: w envs)
  case (Cons c cs)
  obtain src sink l where c: "c = (src, sink, l)" by (cases c)
  obtain out w1 where w1: "unregister_listener U V B J oc t (envs 0) src sink l w = (out, w1)"
    by (cases "unregister_listener U V B J oc t (envs 0) src sink l w")
  have "P w1" using unregister [OF Cons.prems, of J "envs 0" src sink l] w1 by simp
  then show ?case using Cons.IH by (simp add: c w1 split: outcome.split)
qed simp

lemma drop_fields: "P w \<Longrightarrow> P (drop_fields w)"
  by (simp add: drop_fields_def set_runtime)

lemma drop: "P w \<Longrightarrow> P (snd (drop_transport U V B J oc t envs env w))"
  using drop_listeners [of w J envs "storage_get_all_listener_configs B (tr_storage w)"]
  by (auto simp: drop_transport_def shutdown_vsomeip_app_def split: prod.split outcome.split
      intro!: drop_fields set_runtime dest: ask)

lemma initialize: "P w \<Longrightarrow> P (snd (initialize_vsomeip_app U V oc env app w))"
  by (auto simp: initialize_vsomeip_app_def Let_def split: prod.split outcome.split sum.split dest: ask)

end

section \<open>What a transport is configured with\<close>

text \<open>The URI, the application and the remote authority of a transport are those it was created with.\<close>

definition configured :: "uuri \<Rightarrow> vsomeip_application_config \<Rightarrow> AuthorityName \<Rightarrow> 'm transport \<Rightarrow> bool" where
  "configured u cfg remote w \<longleftrightarrow> storage_uri (tr_storage w) = u \<and>
     vsomeip_application_config (tr_storage w) = cfg \<and> remote_authority (tr_storage w) = remote"

lemma ask_engine_remote:
  "ask_engine U V oc env fid cmd w = (out, w') \<Longrightarrow> remote_authority (tr_storage w') = remote_authority (tr_storage w)"
  by (auto simp: ask_engine_def engine_takes_def Let_def dest: handle_command_frame
      split: prod.splits sum.splits outcome.splits)

interpretation configuration: call_invariant U V B oc t "configured u cfg remote" for U V B oc t u cfg remote
  by unfold_locales
    (auto simp: configured_def acquire_handler_def release_handler_def storage_get_message_handler_def
      storage_release_message_handler_def Let_def ask_engine_frame ask_engine_remote split: prod.splits)

section \<open>An engine that has stopped\<close>

interpretation stopped: call_invariant U V B oc t "\<lambda>w. \<not> tr_running w" for U V B oc t
  by unfold_locales (auto simp: acquire_handler_frame release_handler_frame ask_engine_stopped)

section \<open>How a transport moves the pool\<close>

abbreviation pool_part :: "'m transport \<Rightarrow> handler_statics \<times> 'm" where
  "pool_part w \<equiv> (tr_handlers w, message_handler_registry (tr_storage w))"

inductive pool_move ::
    "('m, 'c) bimap_api \<Rightarrow> nat \<Rightarrow> handler_statics \<times> 'm \<Rightarrow> handler_statics \<times> 'm \<Rightarrow> bool"
  for B t where
  taken: "get_message_handler B ch t c s = (res, s') \<Longrightarrow> pool_move B t s s'"
| given_back: "release_message_handler B c s = (res', s') \<Longrightarrow> pool_move B t s s'"

lemma acquire_handler_move:
  "acquire_handler B ch t c w = (res, w') \<Longrightarrow> pool_move B t (pool_part w) (pool_part w')"
  by (auto simp: acquire_handler_def storage_get_message_handler_def Let_def split: prod.splits
      intro: pool_move.taken)

lemma release_handler_move:
  "release_handler B c w = (res, w') \<Longrightarrow> pool_move B t (pool_part w) (pool_part w')"
  by (auto simp: release_handler_def storage_release_message_handler_def Let_def split: prod.splits
      intro: pool_move.given_back)

interpretation pool_path: call_invariant U V B oc t "\<lambda>w. (pool_move B t)\<^sup>*\<^sup>* s (pool_part w)" for U V B oc t s
  by unfold_locales
    (auto simp: ask_engine_frame intro: acquire_handler_move release_handler_move rtranclp.rtrancl_into_rtrancl)

text \<open>Moving the pool in the name of one transport is a run of all transports.\<close>

lemma pool_move_reachable:
  assumes "pool_move B t (g, m) (g', m')" "handler_reachable B \<lparr>world_statics = g, world_registries = regs\<rparr>"
    and "regs t = m"
  shows "handler_reachable B \<lparr>world_statics = g', world_registries = regs(t := m')\<rparr>"
  using assms(1)
proof cases
  case (taken ch c res)
  from handler_reachable.step [OF assms(2) handler_step.acquire, of ch t c res g' m'] taken assms(3)
  show ?thesis by simp
next
  case (given_back c res')
  from handler_reachable.step [OF assms(2) handler_step.release, of c t res' g' m'] given_back assms(3)
  show ?thesis by simp
qed

lemma pool_path_reachable:
  assumes "(pool_move B t)\<^sup>*\<^sup>* s s'" "handler_reachable B \<lparr>world_statics = fst s, world_registries = regs\<rparr>"
    and "regs t = snd s"
  shows "handler_reachable B \<lparr>world_statics = fst s', world_registries = regs(t := snd s')\<rparr>"
  using assms(1)
proof induction
  case base
  have "regs(t := snd s) = regs" using assms(3) by auto
  then show ?case using assms(2) by simp
next
  case (step s1 s2)
  then show ?case
    using pool_move_reachable [of B t "fst s1" "snd s1" "fst s2" "snd s2" "regs(t := snd s1)"]
    by (simp del: fun_upd_apply add: fun_upd_same)
qed

end
