(* ===== verification/Engine_Failure.thy ===== *)
theory Engine_Failure
  imports Transport_Calls Call_Invariants
begin

text \<open>
  What becomes of a transport whose engine has stopped. The engine's thread ends by a panic
  when a session counter overflows; the transport notices at its next call, and panics too.
\<close>

section \<open>Calls to an engine that has stopped\<close>

lemma drop_stopped:
  assumes "\<not> tr_running w"
  shows "fst (drop_transport U V B J oc t envs env w) = Panics"
proof -
  obtain out w1 where w1: "drop_listeners U V B J oc t envs (storage_get_all_listener_configs B (tr_storage w)) w =
      (out, w1)"
    by (cases "drop_listeners U V B J oc t envs (storage_get_all_listener_configs B (tr_storage w)) w")
  have "\<not> tr_running w1"
    using stopped.drop_listeners [OF assms, where U = U and V = V and B = B and oc = oc and t = t and J = J and envs = envs] w1 by (metis snd_conv)
  then show ?thesis
    by (simp add: drop_transport_def w1 shutdown_vsomeip_app_def ask_engine_stopped split: outcome.split)
qed

text \<open>A message that \<^verbatim>\<open>send\<close> hands to the engine.\<close>

definition sendable :: "up_rust \<Rightarrow> umessage \<Rightarrow> bool" where
  "sendable U m \<longleftrightarrow> (\<exists>a src. umsg_attributes m = Some a \<and> validate_attributes U a \<and> attr_source a = Some src)"

lemma returning_response_none:
  "point_to_point_listener w = None \<Longrightarrow>
   register_for_returning_response_if_point_to_point_listener_and_sending_request U V B oc t env src sink rt w =
     (Returns (Ok False), w)"
  by (simp add: register_for_returning_response_if_point_to_point_listener_and_sending_request_def)

lemma send_stopped:
  assumes "\<not> tr_running w" "point_to_point_listener w = None" "sendable U m"
  shows "send U V B oc t env1 env2 m w = (Panics, w)"
proof -
  obtain a src where a: "umsg_attributes m = Some a" "validate_attributes U a" "attr_source a = Some src"
    using assms(3) by (auto simp: sendable_def)
  obtain rt where "determine_type U src (attr_sink a) = Ok rt" using determine_type_total by blast
  with a assms(1,2) show ?thesis by (simp add: send_def returning_response_none ask_engine_stopped)
qed

section \<open>Properties\<close>

lemma request_command_overflow:
  assumes "umsg_attributes m = Some a" "attr_type a = Known UMESSAGE_TYPE_REQUEST" "attr_id a = Some i"
    "attr_source a = Some src" "attr_sink a = Some snk" "get_application V (engine_log e) app"
    "next_session (get_client V (engine_log e) app) (rpc_correlation (engine_storage e)) = 0xFFFF"
  shows "\<exists>e'. handle_command U V True path env (SendMessage m rt app) e = (Panics, e') \<and>
    engine_log e' = engine_log e"
proof -
  let ?r = "rpc_correlation (engine_storage e)"
  have attrs: "attributes_of U m = a" using assms(1) by (simp add: attributes_of_def)
  have panic: "fst (retrieve_session_id True (get_client V (engine_log e) app) ?r) = Panics"
    using assms(7) by (simp add: retrieve_session_id_def next_session_def Let_def)
  then obtain r1 where r1: "retrieve_session_id True (get_client V (engine_log e) app) ?r = (Panics, r1)"
    by (metis prod.collapse)
  have "umsg_request_to_vsomeip_message U V True m app (engine_log e) ?r = (Panics, r1)"
    using assms(3-5) r1 by (simp add: umsg_request_to_vsomeip_message_def attrs Let_def split: prod.split)
  with assms(2,6) show ?thesis
    by (simp add: make_application_wrapper_def send_internal_def attrs)
qed

text \<open>
  C29. A session overflow ends a transport. In a build with overflow checks, sending the
  request that finds its client's session counter at 65535 fails with \<open>INTERNAL\<close>, transmits
  nothing and leaves the transport without an engine; every message sent after that, and
  dropping the transport, panics.
\<close>

theorem session_overflow_ends_transport:
  assumes run: "tr_running w" "point_to_point_listener w = None" "\<not> call_late env2"
    and m: "umsg_attributes m = Some a" "attr_type a = Known UMESSAGE_TYPE_REQUEST" "attr_id a = Some i"
      "attr_source a = Some src" "attr_sink a = Some snk" "validate_attributes U a"
    and app: "get_application V (tr_log w) (app_name_of w)"
    and full: "next_session (get_client V (tr_log w) (app_name_of w)) (rpc_correlation (tr_storage w)) = 0xFFFF"
  shows "\<exists>w1 text. send U V B True t env1 env2 m w = (Returns (Err (fail_with_code INTERNAL text)), w1) \<and>
    tr_log w1 = tr_log w \<and>
    (\<forall>m' env3 env4. sendable U m' \<longrightarrow> send U V B True t env3 env4 m' w1 = (Panics, w1)) \<and>
    (\<forall>envs env. fst (drop_transport U V B J True t envs env w1) = Panics)"
proof -
  obtain rt where rt: "determine_type U src (attr_sink a) = Ok rt" using determine_type_total by blast
  obtain e where e: "handle_command U V True (tr_engine_config w) (call_engine env2)
      (SendMessage m rt (app_name_of w)) (tr_engine w) = (Panics, e)" "engine_log e = tr_log w"
    using request_command_overflow [OF m(1-5) app full] by blast
  let ?w = "w\<lparr>tr_engine := e, tr_running := False\<rparr>"
  have "send U V B True t env1 env2 m w = (Returns (Err (fail_with_code INTERNAL
      ''Unable to receive status back from internal function: {}'')), ?w)"
    using run m rt e(1)
    by (simp del: handle_command.simps add: send_def returning_response_none ask_engine_def
        send_to_engine_with_status_def engine_takes_def await_engine_def)
  moreover have "send U V B True t env3 env4 m' ?w = (Panics, ?w)" if "sendable U m'" for m' env3 env4
    using that run(2) by (intro send_stopped) simp_all
  moreover have "fst (drop_transport U V B J True t envs env ?w) = Panics" for envs env
    by (rule drop_stopped) simp
  moreover have "tr_log ?w = tr_log w" using e(2) by simp
  ultimately show ?thesis by blast
qed

theorem session_overflow_ends_transport_witness:
  "\<exists>w1 text. send permissive_up_rust (example_vsomeip 0x44) list_bimap True 0 example_env example_env
      \<lparr>umsg_attributes = Some (plain_attributes\<lparr>attr_type := Known UMESSAGE_TYPE_REQUEST,
        attr_id := Some (UUID 1), attr_source := Some (uuri_any permissive_up_rust),
        attr_sink := Some (uuri_any permissive_up_rust)\<rparr>), umsg_payload = None\<rparr>
      (example_transport\<lparr>tr_engine := example_engine\<lparr>engine_storage := (engine_storage example_engine)\<lparr>rpc_correlation :=
        rpc_correlation_new\<lparr>client_id_session_id_tracking := [0x44 \<mapsto> 0xFFFF]\<rparr>\<rparr>\<rparr>\<rparr>) =
      (Returns (Err (fail_with_code INTERNAL text)), w1) \<and>
    fst (drop_transport permissive_up_rust (example_vsomeip 0x44) list_bimap no_files True 0
      (\<lambda>m n. example_env) example_env w1) = Panics"
proof -
  let ?w = "example_transport\<lparr>tr_engine := example_engine\<lparr>engine_storage := (engine_storage example_engine)\<lparr>rpc_correlation :=
        rpc_correlation_new\<lparr>client_id_session_id_tracking := [0x44 \<mapsto> 0xFFFF]\<rparr>\<rparr>\<rparr>\<rparr>"
  let ?a = "plain_attributes\<lparr>attr_type := Known UMESSAGE_TYPE_REQUEST,
        attr_id := Some (UUID 1), attr_source := Some (uuri_any permissive_up_rust),
        attr_sink := Some (uuri_any permissive_up_rust)\<rparr>"
  have w: "tr_running ?w" "point_to_point_listener ?w = None" "\<not> call_late example_env"
    by (simp_all add: example_transport_def example_env_def)
  have "app_name_of ?w \<noteq> ''missing''"
    by (simp add: example_engine_def storage_new_def get_vsomeip_application_config_def
        vsomeip_application_config_new_def)
  then have app: "get_application (example_vsomeip 0x44) (tr_log ?w) (app_name_of ?w)" by simp
  have full: "next_session (get_client (example_vsomeip 0x44) (tr_log ?w) (app_name_of ?w))
      (rpc_correlation (tr_storage ?w)) = 0xFFFF"
    by (simp add: next_session_def)
  from session_overflow_ends_transport [where m = "\<lparr>umsg_attributes = Some ?a, umsg_payload = None\<rparr>"
      and a = ?a and U = permissive_up_rust and B = list_bimap and J = no_files and t = 0,
      OF w _ _ _ _ _ _ app full]
  show ?thesis by force
qed

end
