(* ===== verification/Process.thy ===== *)
theory Process
  imports Construction Extern_Handlers Engine_Failure
begin

text \<open>
  A whole process: any number of transports are created, called, dropped and given messages, one
  after the other in any order. They share the statics of \<^verbatim>\<open>message_handler_registry.rs\<close>, those of the
  state handlers, and the vsomeip library (\<open>pr_handlers\<close>, \<open>pr_state_handlers\<close>, \<open>pr_log\<close>). \<open>pr_live\<close> are the
  transports that have not been dropped; the last state of a dropped one is kept, but nothing
  reaches it: its storage can be reached through \<^verbatim>\<open>Weak\<close> references only. A number is not used twice.
\<close>

section \<open>Definitions\<close>

record 'm process =
  pr_handlers :: handler_statics
  pr_state_handlers :: state_handler_statics
  pr_log :: vsomeip_log
  pr_transports :: "nat \<Rightarrow> 'm transport option"
  pr_live :: "nat set"

definition process_init :: "'m process" where
  "process_init = \<lparr>pr_handlers = handler_statics_init, pr_state_handlers = state_handler_statics_init,
     pr_log = [], pr_transports = Map.empty, pr_live = {}\<rparr>"

text \<open>A transport with the statics as they are now, and the process after a call on it.\<close>

definition load_statics :: "'m process \<Rightarrow> 'm transport \<Rightarrow> 'm transport" where
  "load_statics p w = w\<lparr>tr_handlers := pr_handlers p,
     tr_engine := (tr_engine w)\<lparr>engine_state_handlers := pr_state_handlers p, engine_log := pr_log p\<rparr>\<rparr>"

definition store_transport :: "nat \<Rightarrow> 'm transport \<Rightarrow> 'm process \<Rightarrow> 'm process" where
  "store_transport t w p = p\<lparr>pr_handlers := tr_handlers w,
     pr_state_handlers := engine_state_handlers (tr_engine w), pr_log := engine_log (tr_engine w),
     pr_transports := (pr_transports p)(t \<mapsto> w)\<rparr>"

inductive process_step ::
    "up_rust \<Rightarrow> vsomeip_api \<Rightarrow> 'm config_bimap \<Rightarrow> 'j json_api \<Rightarrow> bool \<Rightarrow> 'm process \<Rightarrow> 'm process \<Rightarrow> bool"
  for U V B J oc where
  created: "pr_transports p t = None \<Longrightarrow>
    new_internal U V B J builds oc t env denv cfg uri remote path rc (pr_handlers p) (pr_state_handlers p) (pr_log p) =
      Returns (Inr w) \<Longrightarrow>
    process_step U V B J oc p ((store_transport t w p)\<lparr>pr_live := insert t (pr_live p)\<rparr>)"
| creation_failed: "pr_transports p t = None \<Longrightarrow>
    new_internal U V B J builds oc t env denv cfg uri remote path rc (pr_handlers p) (pr_state_handlers p) (pr_log p) =
      Returns (Inl (e, Some w)) \<Longrightarrow>
    process_step U V B J oc p (store_transport t w p)"
| registers: "t \<in> pr_live p \<Longrightarrow> pr_transports p t = Some w \<Longrightarrow>
    process_step U V B J oc p
      (store_transport t (snd (register_listener U V B J oc t envs src sink l (load_statics p w))) p)"
| unregisters: "t \<in> pr_live p \<Longrightarrow> pr_transports p t = Some w \<Longrightarrow>
    process_step U V B J oc p
      (store_transport t (snd (unregister_listener U V B J oc t envs src sink l (load_statics p w))) p)"
| sends: "t \<in> pr_live p \<Longrightarrow> pr_transports p t = Some w \<Longrightarrow>
    process_step U V B J oc p (store_transport t (snd (send U V B oc t env1 env2 m (load_statics p w))) p)"
| drops: "t \<in> pr_live p \<Longrightarrow> pr_transports p t = Some w \<Longrightarrow>
    process_step U V B J oc p
      ((store_transport t (snd (drop_transport U V B J oc t envss env (load_statics p w))) p)
        \<lparr>pr_live := pr_live p - {t}\<rparr>)"
| receives: "call_shared_extern_fn U V B fresh (pr_live p) i msg (pr_handlers p)
      (\<lambda>t. case pr_transports p t of Some w \<Rightarrow> tr_storage w | None \<Rightarrow> nothing) = (delivery, stores) \<Longrightarrow>
    process_step U V B J oc p
      (p\<lparr>pr_transports := (\<lambda>t. map_option
        (\<lambda>w. w\<lparr>tr_engine := (tr_engine w)\<lparr>engine_storage := stores t\<rparr>\<rparr>) (pr_transports p t))\<rparr>)"

inductive_cases process_stepE: "process_step U V B J oc p p'"

definition process_reachable ::
    "up_rust \<Rightarrow> vsomeip_api \<Rightarrow> 'm config_bimap \<Rightarrow> 'j json_api \<Rightarrow> bool \<Rightarrow> 'm process \<Rightarrow> bool" where
  "process_reachable U V B J oc p \<longleftrightarrow> (process_step U V B J oc)\<^sup>*\<^sup>* process_init p"

text \<open>The pool of the process and the registries of its transports, as \<open>Handler_Sharing\<close> has them.\<close>

definition pool_of :: "'m config_bimap \<Rightarrow> 'm process \<Rightarrow> 'm handler_world" where
  "pool_of B p = \<lparr>world_statics = pr_handlers p, world_registries = (\<lambda>t.
     case pr_transports p t of Some w \<Rightarrow> message_handler_registry (tr_storage w) | None \<Rightarrow> bm_new B)\<rparr>"

definition process_inv :: "up_rust \<Rightarrow> 'm config_bimap \<Rightarrow> 'm process \<Rightarrow> bool" where
  "process_inv U B p \<longleftrightarrow> handler_reachable B (pool_of B p) \<and>
     (\<forall>t \<in> pr_live p. \<exists>w. pr_transports p t = Some w \<and> transport_inv U B t (load_statics p w)) \<and>
     (\<forall>t w. pr_transports p t = Some w \<and> t \<notin> pr_live p \<and> tr_running w \<longrightarrow> tr_used B w = Map.empty)"

section \<open>One transport's call among the others\<close>

lemma load_store [simp]: "load_statics (store_transport t w p) w = w"
  by (simp add: load_statics_def store_transport_def)

lemma load_statics_simps [simp]:
  "tr_handlers (load_statics p w) = pr_handlers p" "tr_running (load_statics p w) = tr_running w"
  "tr_storage (load_statics p w) = tr_storage w" "tr_runtime (load_statics p w) = tr_runtime w"
  by (simp_all add: load_statics_def)

lemma process_live_simps [simp]:
  "pool_of B (p\<lparr>pr_live := L\<rparr>) = pool_of B p" "load_statics (p\<lparr>pr_live := L\<rparr>) w = load_statics p w"
  "pr_transports (store_transport t w p) = (pr_transports p)(t \<mapsto> w)"
  "pr_live (store_transport t w p) = pr_live p"
  by (simp_all add: pool_of_def load_statics_def store_transport_def)

lemma pool_of_store:
  "pool_of B (store_transport t w p) = \<lparr>world_statics = tr_handlers w,
     world_registries = (world_registries (pool_of B p))(t := message_handler_registry (tr_storage w))\<rparr>"
  by (auto simp: pool_of_def store_transport_def)

text \<open>After anything that keeps the pool reachable, the other transports still hold what they held.\<close>

lemma transport_inv_load:
  assumes "handler_reachable B (pool_of B p')" "bimap_laws B" "pr_transports p' t = Some w"
    and "transport_inv U B t (load_statics p w)"
  shows "transport_inv U B t (load_statics p' w)"
proof -
  have "handler_invar B t (pr_handlers p', message_handler_registry (tr_storage w))"
    using handler_reachable_invar [OF assms(1,2), of t] assms(3) by (simp add: pool_of_def)
  with assms(4) show ?thesis by (simp add: transport_inv_def tr_invar_def)
qed

lemma process_invI:
  assumes inv: "process_inv U B p" and laws: "bimap_laws B"
    and path: "(pool_move B t)\<^sup>*\<^sup>* (pr_handlers p, world_registries (pool_of B p) t) (pool_part w')"
    and live: "t \<in> L \<Longrightarrow> transport_inv U B t w'"
    and dropped: "t \<notin> L \<Longrightarrow> tr_running w' \<Longrightarrow> tr_used B w' = Map.empty"
    and L: "L - {t} = pr_live p - {t}"
  shows "process_inv U B ((store_transport t w' p)\<lparr>pr_live := L\<rparr>)" (is "process_inv U B ?p")
proof -
  have reach: "handler_reachable B (pool_of B ?p)"
    using pool_path_reachable [OF path, of "world_registries (pool_of B p)"] inv
    by (simp add: process_inv_def pool_of_store del: fun_upd_apply) (simp add: pool_of_def)
  have mem: "t' \<in> L \<longleftrightarrow> t' \<in> pr_live p" if "t' \<noteq> t" for t' using L that by blast
  have "\<exists>w. pr_transports ?p t' = Some w \<and> transport_inv U B t' (load_statics ?p w)" if "t' \<in> pr_live ?p" for t'
  proof (cases "t' = t")
    case True
    with that live show ?thesis by simp
  next
    case False
    with that mem [OF False] have "t' \<in> pr_live p" by simp
    with inv obtain w where w: "pr_transports p t' = Some w" "transport_inv U B t' (load_statics p w)"
      unfolding process_inv_def by blast
    with False have "pr_transports ?p t' = Some w" by simp
    with transport_inv_load [OF reach laws this w(2)] show ?thesis by blast
  qed
  moreover have "tr_used B w = Map.empty"
    if "pr_transports ?p t1 = Some w" "t1 \<notin> pr_live ?p" "tr_running w" for t1 w
    using that mem dropped inv unfolding process_inv_def by (cases "t1 = t") auto
  ultimately show ?thesis using reach unfolding process_inv_def by blast
qed

section \<open>Every step keeps the invariant\<close>

lemma created_inv:
  assumes inv: "process_inv U B p" and laws: "bimap_laws B" "wildcard_laws U" and none: "pr_transports p t = None"
    and new: "new_internal U V B J builds oc t env denv cfg uri remote path rc (pr_handlers p) st log = Returns (Inr w)"
  shows "process_inv U B ((store_transport t w p)\<lparr>pr_live := insert t (pr_live p)\<rparr>)"
proof (rule process_invI [OF inv laws(1)])
  note ok = new_internal_ok [OF new]
  have "handler_invar B t (pr_handlers p, bm_new B)"
    using handler_reachable_invar [OF _ laws(1), of "pool_of B p" t] inv none
    by (simp add: process_inv_def pool_of_def)
  from transport_reachable_inv [OF transport_reachable.created [OF new this] laws(2)]
  show "transport_inv U B t w" .
  show "(pool_move B t)\<^sup>*\<^sup>* (pr_handlers p, world_registries (pool_of B p) t) (pool_part w)"
    using none ok(3,4) by (simp add: pool_of_def)
qed auto

lemma new_internal_failed:
  assumes "new_internal U V B J builds oc t env denv cfg uri remote path rc g st log = Returns (Inl (e, Some w))"
    and inv: "handler_invar B t (g, bm_new B)"
  shows "(pool_move B t)\<^sup>*\<^sup>* (g, bm_new B) (pool_part w) \<and> (tr_running w \<longrightarrow> tr_used B w = Map.empty)"
proof -
  obtain rt where rt: "get_callback_runtime_handle builds rc = Returns rt"
    using assms(1) by (auto simp: new_internal_def split: option.splits if_splits outcome.splits)
  define me where "me = \<lparr>tr_handlers = g, tr_engine = \<lparr>engine_storage = fst (storage_new B cfg uri remote st),
      engine_state_handlers = snd (storage_new B cfg uri remote st), engine_log = log\<rparr>, tr_running = True,
    tr_engine_config = None, tr_runtime = rt, point_to_point_listener = None, tr_config_path = path\<rparr>"
  define app where "app = application_name (get_vsomeip_application_config (fst (storage_new B cfg uri remote st)))"
  have me: "pool_part me = (g, bm_new B)" "\<exists>n. tr_runtime me = Serving n"
    using get_callback_runtime_handle_serving [OF rt] by (auto simp: me_def storage_new_def)
  have w: "w = snd (drop_transport U V B J oc t (\<lambda>_ _. denv) denv (snd (initialize_vsomeip_app U V oc env app me)))"
    using assms(1) unfolding new_internal_def rt
    by (auto simp: Let_def me_def app_def split: option.splits if_splits prod.splits outcome.splits sum.splits)
  let ?me1 = "snd (initialize_vsomeip_app U V oc env app me)"
  have "bm_get_by_left B (bm_new B) = Map.empty"
    using handler_invar_laws [OF inv] by (auto simp: bimap_laws_def)
  with me inv have "transport_inv U B t me" by (auto simp: transport_inv_def tr_invar_def)
  then have inv1: "transport_inv U B t ?me1"
    by (auto simp: initialize_vsomeip_app_def Let_def transport_inv_ask split: prod.split outcome.split sum.split)
  have "(pool_move B t)\<^sup>*\<^sup>* (pool_part me) (pool_part w)"
    unfolding w by (intro pool_path.drop pool_path.initialize) simp
  moreover have "tr_used B w = Map.empty" if "tr_running w"
  proof -
    have "tr_running ?me1" using stopped.drop that unfolding w by blast
    from drop_transport_effect [OF inv1 this] show ?thesis unfolding w by (metis snd_conv)
  qed
  ultimately show ?thesis by (simp add: me(1))
qed

lemma creation_failed_inv:
  assumes inv: "process_inv U B p" and laws: "bimap_laws B" and none: "pr_transports p t = None"
    and new: "new_internal U V B J builds oc t env denv cfg uri remote path rc (pr_handlers p) st log =
      Returns (Inl (e, Some w))"
  shows "process_inv U B (store_transport t w p)"
proof -
  have reg: "world_registries (pool_of B p) t = bm_new B" using none by (simp add: pool_of_def)
  have "handler_invar B t (pr_handlers p, bm_new B)"
    using handler_reachable_invar [OF _ laws, of "pool_of B p" t] inv reg
    by (simp add: process_inv_def) (simp add: pool_of_def)
  note failed = new_internal_failed [OF new this]
  have "t \<notin> pr_live p" using inv none unfolding process_inv_def by fastforce
  with failed reg have "process_inv U B ((store_transport t w p)\<lparr>pr_live := pr_live p\<rparr>)"
    by (intro process_invI [OF inv laws]) auto
  then show ?thesis by (simp add: store_transport_def)
qed

text \<open>A call of a live transport's user, by what it does to the pool and to the transport.\<close>

lemma call_inv:
  assumes inv: "process_inv U B p" and laws: "bimap_laws B" and t: "t \<in> pr_live p" "pr_transports p t = Some w"
    and path: "(pool_move B t)\<^sup>*\<^sup>* (pool_part (load_statics p w)) (pool_part w')"
    and keeps: "transport_inv U B t (load_statics p w) \<Longrightarrow> transport_inv U B t w'"
  shows "process_inv U B (store_transport t w' p)"
proof -
  have "transport_inv U B t (load_statics p w)" using inv t unfolding process_inv_def by fastforce
  with t path keeps have "process_inv U B ((store_transport t w' p)\<lparr>pr_live := pr_live p\<rparr>)"
    by (intro process_invI [OF inv laws]) (auto simp: pool_of_def)
  then show ?thesis by (simp add: store_transport_def)
qed

lemma drop_inv:
  assumes inv: "process_inv U B p" and laws: "bimap_laws B" and t: "t \<in> pr_live p" "pr_transports p t = Some w"
  shows "process_inv U B ((store_transport t (snd (drop_transport U V B J oc t envss env (load_statics p w))) p)
    \<lparr>pr_live := pr_live p - {t}\<rparr>)"
proof (rule process_invI [OF inv laws])
  let ?w = "load_statics p w" and ?w' = "snd (drop_transport U V B J oc t envss env (load_statics p w))"
  have ti: "transport_inv U B t ?w" using inv t unfolding process_inv_def by fastforce
  show "tr_used B ?w' = Map.empty" if "tr_running ?w'"
  proof -
    have "tr_running ?w" using stopped.drop that by blast
    from drop_transport_effect [OF ti this] show ?thesis by (metis snd_conv)
  qed
  have "(pool_move B t)\<^sup>*\<^sup>* (pool_part ?w) (pool_part ?w')" by (intro pool_path.drop) simp
  then show "(pool_move B t)\<^sup>*\<^sup>* (pr_handlers p, world_registries (pool_of B p) t) (pool_part ?w')"
    using t(2) by (simp add: pool_of_def)
qed auto

text \<open>A message that comes in changes the correlations of one storage, and nothing else.\<close>

lemma extern_fn_frame:
  "call_shared_extern_fn U V B fresh live i msg g stores = (delivery, stores') \<Longrightarrow>
   message_handler_registry (stores' t) = message_handler_registry (stores t)"
  by (auto simp: call_shared_extern_fn_def Let_def split: option.splits prod.splits outcome.splits sum.splits)

lemma receive_inv:
  assumes inv: "process_inv U B p"
    and msg: "call_shared_extern_fn U V B fresh live i msg g
      (\<lambda>t. case pr_transports p t of Some w \<Rightarrow> tr_storage w | None \<Rightarrow> nothing) = (delivery, stores)"
  shows "process_inv U B (p\<lparr>pr_transports := (\<lambda>t. map_option
    (\<lambda>w. w\<lparr>tr_engine := (tr_engine w)\<lparr>engine_storage := stores t\<rparr>\<rparr>) (pr_transports p t))\<rparr>)" (is "process_inv U B ?p")
proof -
  have reg: "message_handler_registry (stores t) = message_handler_registry (tr_storage w)"
    if "pr_transports p t = Some w" for t w
    using extern_fn_frame [OF msg, of t] that by auto
  have "pool_of B ?p = pool_of B p"
    using reg by (auto simp: pool_of_def split: option.split)
  with inv reg show ?thesis
    by (fastforce simp: process_inv_def transport_inv_def tr_invar_def load_statics_def)
qed

lemma process_step_inv:
  assumes "process_step U V B J oc p p'" "process_inv U B p" "bimap_laws B" "wildcard_laws U"
  shows "process_inv U B p'"
  using assms(1)
proof cases
  case (registers t w envs src sink l)
  show ?thesis unfolding registers(1)
    by (rule call_inv [OF assms(2,3) registers(2,3)])
      (simp_all add: pool_path.register transport_inv_register assms(4))
next
  case (unregisters t w envs src sink l)
  show ?thesis unfolding unregisters(1)
    by (rule call_inv [OF assms(2,3) unregisters(2,3)])
      (simp_all add: pool_path.unregister transport_inv_unregister)
next
  case (sends t w env1 env2 m)
  show ?thesis unfolding sends(1)
    by (rule call_inv [OF assms(2,3) sends(2,3)]) (simp_all add: pool_path.send transport_inv_send)
qed (use assms(2-4) in \<open>auto intro: created_inv creation_failed_inv drop_inv receive_inv\<close>)

lemma process_reachable_inv:
  assumes "process_reachable U V B J oc p" "bimap_laws B" "wildcard_laws U"
  shows "process_inv U B p"
  using assms(1) unfolding process_reachable_def
proof induction
  case base
  have "pool_of B process_init = handler_world_init B"
    by (simp add: pool_of_def process_init_def handler_world_init_def)
  then show ?case
    using handler_reachable.start [of B] by (simp add: process_inv_def) (simp add: process_init_def)
next
  case (step p p')
  then show ?case using assms(2,3) by (blast intro: process_step_inv)
qed

lemma process_handler_owner:
  assumes inv: "process_inv U B p" and laws: "bimap_laws B"
    and i: "i < num_message_handler_fns" "i \<notin> free_message_handler_ids (pr_handlers p)"
  shows "\<exists>t w. pr_transports p t = Some w \<and> tr_used B w i \<noteq> None \<and> (t \<in> pr_live p \<or> \<not> tr_running w)"
proof -
  have reach: "handler_reachable B (pool_of B p)" using inv by (simp add: process_inv_def)
  note hi = handler_reachable_invar [OF reach laws]
  have dom: "dom (message_handler_id_to_transport_storage (pr_handlers p)) =
      {..<num_message_handler_fns} - free_message_handler_ids (pr_handlers p)"
    using hi [of 0] by (simp add: handler_invar_def pool_of_def)
  have "i \<in> dom (message_handler_id_to_transport_storage (pr_handlers p))"
    using i unfolding dom by simp
  then obtain t where t: "message_handler_id_to_transport_storage (pr_handlers p) i = Some t" by blast
  have "{i. message_handler_id_to_transport_storage (world_statics (pool_of B p)) i = Some t} =
      dom (bm_get_by_left B (world_registries (pool_of B p) t))"
    using hi [of t] by (simp add: handler_invar_def)
  moreover have "world_statics (pool_of B p) = pr_handlers p" by (simp add: pool_of_def)
  ultimately have "i \<in> dom (bm_get_by_left B (world_registries (pool_of B p) t))"
    using t by (metis mem_Collect_eq)
  then have "bm_get_by_left B (world_registries (pool_of B p) t) i \<noteq> None" by blast
  moreover have "bm_get_by_left B (bm_new B) i = None" using laws by (simp add: bimap_laws_def)
  ultimately obtain w where w: "pr_transports p t = Some w" "tr_used B w i \<noteq> None"
    by (auto simp: pool_of_def split: option.splits)
  with inv show ?thesis unfolding process_inv_def by fastforce
qed

section \<open>Properties\<close>

text \<open>
  C6. No handler is lost in a process, whatever its transports do. After any transports have been created,
  called, dropped and given messages in any order, the pool with all registries is in a state
  reachable by single registry operations, so what is proved of such states holds; a live
  transport's runtime is running and its listeners are of the kinds it can unregister; a handler
  that is not free belongs to a transport that is live or whose engine has stopped; and once all transports
  are dropped, all handlers are free unless an engine stopped.
\<close>

theorem process_keeps_the_pool:
  assumes "process_reachable U V B J oc p" "bimap_laws B" "wildcard_laws U"
  shows "handler_reachable B (pool_of B p) \<and>
    (\<forall>t \<in> pr_live p. \<exists>w n. pr_transports p t = Some w \<and> tr_runtime w = Serving n \<and>
      (\<forall>i src sink l. tr_used B w i = Some (src, sink, l) \<longrightarrow> determine_type U src sink \<noteq> Ok AllPointToPoint)) \<and>
    (\<forall>i < num_message_handler_fns. i \<notin> free_message_handler_ids (pr_handlers p) \<longrightarrow>
      (\<exists>t w. pr_transports p t = Some w \<and> tr_used B w i \<noteq> None \<and> (t \<in> pr_live p \<or> \<not> tr_running w))) \<and>
    (pr_live p = {} \<and> (\<forall>t w. pr_transports p t = Some w \<longrightarrow> tr_running w) \<longrightarrow>
      free_message_handler_ids (pr_handlers p) = {..<num_message_handler_fns})"
proof -
  have inv: "process_inv U B p" using assms by (rule process_reachable_inv)
  then have reach: "handler_reachable B (pool_of B p)" by (simp add: process_inv_def)
  have sub: "free_message_handler_ids (pr_handlers p) \<subseteq> {..<num_message_handler_fns}"
    using handler_reachable_invar [OF reach assms(2), of 0] by (auto simp: handler_invar_def pool_of_def)
  note owner = process_handler_owner [OF inv assms(2)]
  have "\<exists>w n. pr_transports p t = Some w \<and> tr_runtime w = Serving n \<and>
      (\<forall>i src sink l. tr_used B w i = Some (src, sink, l) \<longrightarrow> determine_type U src sink \<noteq> Ok AllPointToPoint)"
    if "t \<in> pr_live p" for t
    using inv that unfolding process_inv_def by (fastforce simp: transport_inv_def plain_config_def)
  moreover have "free_message_handler_ids (pr_handlers p) = {..<num_message_handler_fns}"
    if "pr_live p = {}" "\<forall>t w. pr_transports p t = Some w \<longrightarrow> tr_running w"
    using owner that sub by blast
  ultimately show ?thesis using reach owner by blast
qed

theorem process_keeps_the_pool_witness:
  "\<exists>p. process_reachable permissive_up_rust (example_vsomeip 1) list_bimap no_files True p \<and> pr_live p = {0} \<and>
    handler_reachable list_bimap (pool_of list_bimap p)"
proof -
  obtain w :: "(nat \<times> listener_config) list transport" where w: "new_internal permissive_up_rust (example_vsomeip 1)
      list_bimap no_files (\<lambda>n. 0 < n) True 0 example_env example_env
      (vsomeip_application_config_new ''missing'' 1)
      \<lparr>authority_name = ''host'', ue_id = 1, ue_version_major = 1, resource_id = 0\<rparr> ''remote'' None None
      handler_statics_init state_handler_statics_init [] = Returns (Inr w)"
    using example_transport_created by blast
  define p where "p = (store_transport 0 w process_init)\<lparr>pr_live := insert 0 (pr_live (process_init :: (nat \<times> listener_config) list process))\<rparr>"
  have "process_step permissive_up_rust (example_vsomeip 1) list_bimap no_files True process_init p"
    unfolding p_def
    by (rule process_step.created [where p = process_init and t = 0])
      (use w in \<open>simp_all add: process_init_def\<close>)
  then have reach: "process_reachable permissive_up_rust (example_vsomeip 1) list_bimap no_files True p"
    by (simp add: process_reachable_def)
  from process_keeps_the_pool [OF this list_bimap_laws permissive_laws(1)] reach show ?thesis
    by (intro exI [of _ p]) (simp add: p_def process_init_def)
qed

end
