(* ===== verification/Glue_Heap.thy ===== *)
theory Glue_Heap
  imports Vsomeip_Sys "HOL-Library.Multiset"
begin

text \<open>
  The memory behind the wrappers of \<^verbatim>\<open>vsomeip-sys\<close>: the payloads and messages of vsomeip are C++
  objects that live as long as an owning \<^verbatim>\<open>std::shared_ptr\<close> to them does, and the wrappers
  (\<^verbatim>\<open>vsomeip-sys/src/glue/include/*.h\<close>) hold such pointers. The Rust side reaches the objects
  through raw pointers taken from the wrappers (\<^verbatim>\<open>vsomeip-sys/src/glue_additions.rs\<close>).

  \<open>Vsomeip_Sys\<close> has these messages and payloads as values. Here they have addresses: two
  wrappers can lead to one object, and an object can be gone while a pointer to it is left.
  Which address the allocator gives a new object is an argument. Calling a function on an
  object that does not exist any more is \<open>Undefined\<close>; unwrapping a null pointer is \<open>Panicked\<close>.
\<close>

section \<open>Shared pointers and objects\<close>

type_synonym addr = nat

text \<open>
  A \<open>Borrowing\<close> pointer is one made with a deleter that does nothing: it has a count of its own,
  and keeps nothing alive.
\<close>

datatype shared_ptr = Null_ptr | Owning addr | Borrowing addr

fun ptr_get :: "shared_ptr \<Rightarrow> addr option" where
  "ptr_get Null_ptr = None"
| "ptr_get (Owning a) = Some a"
| "ptr_get (Borrowing a) = Some a"

text \<open>A message object is its header fields, with the payload field unset, and a pointer.\<close>

record message_object =
  mo_header :: vsomeip_message
  mo_payload :: shared_ptr

record cpp_heap =
  payloads :: "addr \<Rightarrow> vsomeip_payload option"
  payload_owners :: "addr \<Rightarrow> nat"
  messages :: "addr \<Rightarrow> message_object option"
  message_owners :: "addr \<Rightarrow> nat"

definition empty_heap :: cpp_heap where
  "empty_heap = \<lparr>payloads = (\<lambda>a. None), payload_owners = (\<lambda>a. 0), messages = (\<lambda>a. None), message_owners = (\<lambda>a. 0)\<rparr>"

datatype 'a glue = Done 'a | Panicked | Undefined

text \<open>The constructors and destructors of \<^verbatim>\<open>std::shared_ptr\<close>; the last owner deletes the object.\<close>

definition new_payload :: "addr \<Rightarrow> vsomeip_payload \<Rightarrow> cpp_heap \<Rightarrow> cpp_heap" where
  "new_payload a v h = h\<lparr>payloads := (payloads h)(a := Some v), payload_owners := (payload_owners h)(a := 1)\<rparr>"

definition new_message :: "addr \<Rightarrow> message_object \<Rightarrow> cpp_heap \<Rightarrow> cpp_heap" where
  "new_message a obj h = h\<lparr>messages := (messages h)(a := Some obj), message_owners := (message_owners h)(a := 1)\<rparr>"

fun copy_payload_ptr :: "shared_ptr \<Rightarrow> cpp_heap \<Rightarrow> cpp_heap" where
  "copy_payload_ptr (Owning a) h = h\<lparr>payload_owners := (payload_owners h)(a := Suc (payload_owners h a))\<rparr>"
| "copy_payload_ptr p h = h"

fun drop_payload_ptr :: "shared_ptr \<Rightarrow> cpp_heap \<Rightarrow> cpp_heap" where
  "drop_payload_ptr (Owning a) h =
     h\<lparr>payload_owners := (payload_owners h)(a := payload_owners h a - 1),
       payloads := (if payload_owners h a \<le> 1 then (payloads h)(a := None) else payloads h)\<rparr>"
| "drop_payload_ptr p h = h"

fun copy_message_ptr :: "shared_ptr \<Rightarrow> cpp_heap \<Rightarrow> cpp_heap" where
  "copy_message_ptr (Owning a) h = h\<lparr>message_owners := (message_owners h)(a := Suc (message_owners h a))\<rparr>"
| "copy_message_ptr p h = h"

text \<open>Deleting a message destroys its pointer to the payload.\<close>

fun drop_message_ptr :: "shared_ptr \<Rightarrow> cpp_heap \<Rightarrow> cpp_heap" where
  "drop_message_ptr (Owning a) h =
     (let h1 = h\<lparr>message_owners := (message_owners h)(a := message_owners h a - 1)\<rparr>
      in if message_owners h a \<le> 1
         then (case messages h a of
                 None \<Rightarrow> h1
               | Some obj \<Rightarrow> drop_payload_ptr (mo_payload obj) (h1\<lparr>messages := (messages h)(a := None)\<rparr>))
         else h1)"
| "drop_message_ptr p h = h"

section \<open>The wrappers\<close>

datatype payload_wrapper = PayloadWrapper (payload_ptr: shared_ptr)

datatype message_wrapper = MessageWrapper (message_ptr: shared_ptr)

text \<open>\<^verbatim>\<open>get_shared_ptr\<close> returns a copy of the pointer; dropping a wrapper destroys its pointer.\<close>

definition payload_get_shared_ptr :: "payload_wrapper \<Rightarrow> cpp_heap \<Rightarrow> shared_ptr \<times> cpp_heap" where
  "payload_get_shared_ptr w h = (payload_ptr w, copy_payload_ptr (payload_ptr w) h)"

definition message_get_shared_ptr :: "message_wrapper \<Rightarrow> cpp_heap \<Rightarrow> shared_ptr \<times> cpp_heap" where
  "message_get_shared_ptr w h = (message_ptr w, copy_message_ptr (message_ptr w) h)"

definition drop_payload_wrapper :: "payload_wrapper \<Rightarrow> cpp_heap \<Rightarrow> cpp_heap" where
  "drop_payload_wrapper w h = drop_payload_ptr (payload_ptr w) h"

definition drop_message_wrapper :: "message_wrapper \<Rightarrow> cpp_heap \<Rightarrow> cpp_heap" where
  "drop_message_wrapper w h = drop_message_ptr (message_ptr w) h"

definition payload_get_pinned :: "payload_wrapper \<Rightarrow> cpp_heap \<Rightarrow> addr glue" where
  "payload_get_pinned w h =
     (case ptr_get (payload_ptr w) of
        None \<Rightarrow> Panicked
      | Some a \<Rightarrow> if payloads h a = None then Undefined else Done a)"

definition message_get_pinned :: "message_wrapper \<Rightarrow> cpp_heap \<Rightarrow> addr glue" where
  "message_get_pinned w h =
     (case ptr_get (message_ptr w) of
        None \<Rightarrow> Panicked
      | Some a \<Rightarrow> if messages h a = None then Undefined else Done a)"

text \<open>
  \<^verbatim>\<open>get_message_base_pinned\<close> panics for a null pointer of its own accord; the upcast is the same
  address, and what is done there is an access to the header.
\<close>

definition get_message_base_pinned :: "message_wrapper \<Rightarrow> cpp_heap \<Rightarrow> addr glue" where
  "get_message_base_pinned w h =
     (case ptr_get (message_ptr w) of
        None \<Rightarrow> Panicked
      | Some a \<Rightarrow> if messages h a = None then Undefined else Done a)"

definition update_message_base :: "message_wrapper \<Rightarrow> (vsomeip_message \<Rightarrow> vsomeip_message) \<Rightarrow> cpp_heap \<Rightarrow> cpp_heap glue" where
  "update_message_base w f h =
     (case get_message_base_pinned w h of
        Panicked \<Rightarrow> Panicked
      | Undefined \<Rightarrow> Undefined
      | Done a \<Rightarrow> (case messages h a of
          None \<Rightarrow> Undefined
        | Some obj \<Rightarrow> Done (h\<lparr>messages := (messages h)(a := Some (obj\<lparr>mo_header := f (mo_header obj)\<rparr>))\<rparr>)))"

definition read_message_base :: "message_wrapper \<Rightarrow> cpp_heap \<Rightarrow> vsomeip_message glue" where
  "read_message_base w h =
     (case get_message_base_pinned w h of
        Panicked \<Rightarrow> Panicked
      | Undefined \<Rightarrow> Undefined
      | Done a \<Rightarrow> (case messages h a of None \<Rightarrow> Undefined | Some obj \<Rightarrow> Done (mo_header obj)))"

definition payload_set_data_safe :: "payload_wrapper \<Rightarrow> u8 list \<Rightarrow> cpp_heap \<Rightarrow> cpp_heap glue" where
  "payload_set_data_safe w data h =
     (case payload_get_pinned w h of
        Panicked \<Rightarrow> Panicked
      | Undefined \<Rightarrow> Undefined
      | Done a \<Rightarrow> Done (h\<lparr>payloads := (payloads h)(a := Some (set_data_safe data))\<rparr>))"

definition payload_get_data_safe :: "payload_wrapper \<Rightarrow> cpp_heap \<Rightarrow> u8 list glue" where
  "payload_get_data_safe w h =
     (case payload_get_pinned w h of
        Panicked \<Rightarrow> Panicked
      | Undefined \<Rightarrow> Undefined
      | Done a \<Rightarrow> (case payloads h a of None \<Rightarrow> Undefined | Some v \<Rightarrow> Done (get_data_safe v)))"

text \<open>
  \<^verbatim>\<open>set_payload_raw\<close> gives the message a pointer that owns nothing, without looking whether the
  message pointer is null; the pointer the message had before is destroyed.
\<close>

fun borrow :: "addr option \<Rightarrow> shared_ptr" where
  "borrow None = Null_ptr"
| "borrow (Some a) = Borrowing a"

definition set_payload_raw :: "addr option \<Rightarrow> addr option \<Rightarrow> cpp_heap \<Rightarrow> cpp_heap glue" where
  "set_payload_raw message_at payload_at h =
     (case message_at of
        None \<Rightarrow> Undefined
      | Some a \<Rightarrow> (case messages h a of
          None \<Rightarrow> Undefined
        | Some obj \<Rightarrow> Done (drop_payload_ptr (mo_payload obj)
            (h\<lparr>messages := (messages h)(a := Some (obj\<lparr>mo_payload := borrow payload_at\<rparr>))\<rparr>))))"

definition message_set_payload :: "message_wrapper \<Rightarrow> payload_wrapper \<Rightarrow> cpp_heap \<Rightarrow> cpp_heap glue" where
  "message_set_payload w payload h =
     set_payload_raw (ptr_get (message_ptr w)) (ptr_get (payload_ptr payload)) h"

definition create_payload_wrapper :: "addr \<Rightarrow> payload_wrapper" where
  "create_payload_wrapper payload_at = PayloadWrapper (Borrowing payload_at)"

definition message_get_payload :: "message_wrapper \<Rightarrow> cpp_heap \<Rightarrow> payload_wrapper option glue" where
  "message_get_payload w h =
     (case ptr_get (message_ptr w) of
        None \<Rightarrow> Done None
      | Some a \<Rightarrow> (case messages h a of
          None \<Rightarrow> Undefined
        | Some obj \<Rightarrow> (case ptr_get (mo_payload obj) of
            None \<Rightarrow> Done None
          | Some b \<Rightarrow> Done (Some (create_payload_wrapper b)))))"

text \<open>The value a message at an address is: \<open>None\<close> when it or its payload is gone.\<close>

definition message_value :: "cpp_heap \<Rightarrow> addr \<Rightarrow> vsomeip_message option" where
  "message_value h a =
     (case messages h a of
        None \<Rightarrow> None
      | Some obj \<Rightarrow> (case ptr_get (mo_payload obj) of
          None \<Rightarrow> Some ((mo_header obj)\<lparr>msg_payload := None\<rparr>)
        | Some b \<Rightarrow> (case payloads h b of
            None \<Rightarrow> None
          | Some v \<Rightarrow> Some ((mo_header obj)\<lparr>msg_payload := Some v\<rparr>))))"

text \<open>An object exists exactly as long as it has an owner.\<close>

definition heap_ok :: "cpp_heap \<Rightarrow> bool" where
  "heap_ok h \<longleftrightarrow> (\<forall>a. payloads h a = None \<longleftrightarrow> payload_owners h a = 0) \<and>
     (\<forall>a. messages h a = None \<longleftrightarrow> message_owners h a = 0)"

named_theorems glue_defs \<open>definitions of the operations on the heap\<close>

lemmas glue_operations [glue_defs] =
  new_payload_def new_message_def payload_get_shared_ptr_def message_get_shared_ptr_def
  drop_payload_wrapper_def drop_message_wrapper_def payload_get_pinned_def get_message_base_pinned_def
  message_get_pinned_def update_message_base_def read_message_base_def payload_set_data_safe_def
  payload_get_data_safe_def set_payload_raw_def message_set_payload_def create_payload_wrapper_def
  message_get_payload_def message_value_def Let_def

end
