(* ===== verification/Glue_Clients.thy ===== *)
theory Glue_Clients
  imports Glue_Heap
begin

text \<open>
  What Rust code can do with the safe wrappers of \<^verbatim>\<open>vsomeip-sys\<close>, in any order and with any number
  of wrappers at once: a step relation on the heap and the wrappers that exist. It uses the public
  functions of \<open>Glue_Heap\<close> only. Which objects live in its reachable states, and who can still
  reach an object that does not.
\<close>

section \<open>Definitions\<close>

record glue_world =
  gw_heap :: cpp_heap
  gw_payloads :: "payload_wrapper multiset"
  gw_messages :: "message_wrapper multiset"

definition glue_world_init :: glue_world where
  "glue_world_init = \<lparr>gw_heap = empty_heap, gw_payloads = {#}, gw_messages = {#}\<rparr>"

text \<open>
  A message that comes from vsomeip owns its payload (\<open>receive\<close>); one that the program creates has
  none yet. Wrappers are dropped in any order: nothing in their types connects a payload taken
  from a message with that message.
\<close>

inductive glue_step :: "glue_world \<Rightarrow> glue_world \<Rightarrow> bool" where
  create_payload: "payloads (gw_heap w) a = None \<Longrightarrow>
    glue_step w (w\<lparr>gw_heap := new_payload a v (gw_heap w),
      gw_payloads := add_mset (PayloadWrapper (Owning a)) (gw_payloads w)\<rparr>)"
| create_message: "messages (gw_heap w) a = None \<Longrightarrow>
    glue_step w (w\<lparr>gw_heap := new_message a \<lparr>mo_header = m, mo_payload = Null_ptr\<rparr> (gw_heap w),
      gw_messages := add_mset (MessageWrapper (Owning a)) (gw_messages w)\<rparr>)"
| receive: "messages (gw_heap w) a = None \<Longrightarrow> payloads (gw_heap w) b = None \<Longrightarrow>
    glue_step w (w\<lparr>gw_heap := new_message a \<lparr>mo_header = m, mo_payload = Owning b\<rparr> (new_payload b v (gw_heap w)),
      gw_messages := add_mset (MessageWrapper (Owning a)) (gw_messages w)\<rparr>)"
| clone_payload: "p \<in># gw_payloads w \<Longrightarrow> payload_get_shared_ptr p (gw_heap w) = (q, h) \<Longrightarrow>
    glue_step w (w\<lparr>gw_heap := h, gw_payloads := add_mset (PayloadWrapper q) (gw_payloads w)\<rparr>)"
| clone_message: "m \<in># gw_messages w \<Longrightarrow> message_get_shared_ptr m (gw_heap w) = (q, h) \<Longrightarrow>
    glue_step w (w\<lparr>gw_heap := h, gw_messages := add_mset (MessageWrapper q) (gw_messages w)\<rparr>)"
| write_header: "m \<in># gw_messages w \<Longrightarrow> update_message_base m f (gw_heap w) = Done h \<Longrightarrow>
    glue_step w (w\<lparr>gw_heap := h\<rparr>)"
| set_data: "p \<in># gw_payloads w \<Longrightarrow> payload_set_data_safe p data (gw_heap w) = Done h \<Longrightarrow>
    glue_step w (w\<lparr>gw_heap := h\<rparr>)"
| set_payload: "m \<in># gw_messages w \<Longrightarrow> p \<in># gw_payloads w \<Longrightarrow> message_set_payload m p (gw_heap w) = Done h \<Longrightarrow>
    glue_step w (w\<lparr>gw_heap := h\<rparr>)"
| get_payload: "m \<in># gw_messages w \<Longrightarrow> message_get_payload m (gw_heap w) = Done (Some p) \<Longrightarrow>
    glue_step w (w\<lparr>gw_payloads := add_mset p (gw_payloads w)\<rparr>)"
| drop_payload: "p \<in># gw_payloads w \<Longrightarrow>
    glue_step w (w\<lparr>gw_heap := drop_payload_wrapper p (gw_heap w), gw_payloads := gw_payloads w - {#p#}\<rparr>)"
| drop_message: "m \<in># gw_messages w \<Longrightarrow>
    glue_step w (w\<lparr>gw_heap := drop_message_wrapper m (gw_heap w), gw_messages := gw_messages w - {#m#}\<rparr>)"

inductive_cases glue_stepE: "glue_step w w'"

definition glue_reachable :: "glue_world \<Rightarrow> bool" where
  "glue_reachable w \<longleftrightarrow> glue_step\<^sup>*\<^sup>* glue_world_init w"

text \<open>
  \<open>owning_messages\<close> are the messages whose pointer owns the payload at an address. The invariant
  says that the counts are the numbers of owners, and that a message wrapper always owns.
\<close>

definition owning_messages :: "(addr \<Rightarrow> message_object option) \<Rightarrow> addr \<Rightarrow> addr set" where
  "owning_messages ms b = {a. \<exists>obj. ms a = Some obj \<and> mo_payload obj = Owning b}"

definition heap_counts :: "cpp_heap \<Rightarrow> (addr \<Rightarrow> nat) \<Rightarrow> (addr \<Rightarrow> nat) \<Rightarrow> bool" where
  "heap_counts h P M \<longleftrightarrow> heap_ok h \<and> finite (dom (messages h)) \<and>
     (\<forall>b. payload_owners h b = P b + card (owning_messages (messages h) b)) \<and> (\<forall>a. message_owners h a = M a)"

definition glue_inv :: "glue_world \<Rightarrow> bool" where
  "glue_inv w \<longleftrightarrow>
     heap_counts (gw_heap w) (\<lambda>b. count (gw_payloads w) (PayloadWrapper (Owning b)))
       (\<lambda>a. count (gw_messages w) (MessageWrapper (Owning a))) \<and>
     (\<forall>m \<in># gw_messages w. \<exists>a. message_ptr m = Owning a)"

section \<open>The counts are right\<close>

text \<open>Replacing one message moves the count of the payload it owned to the one it owns now.\<close>

fun ptr_owns :: "shared_ptr \<Rightarrow> addr \<Rightarrow> nat" where
  "ptr_owns (Owning a) b = (if a = b then 1 else 0)"
| "ptr_owns p b = 0"

definition owns :: "message_object option \<Rightarrow> addr \<Rightarrow> nat" where
  "owns obj b = (case obj of Some m \<Rightarrow> ptr_owns (mo_payload m) b | None \<Rightarrow> 0)"

lemma ptr_owns_iff: "ptr_owns p b = (if p = Owning b then 1 else 0)"
  by (cases p) auto

lemma owning_messages_update:
  assumes "finite (dom ms)"
  shows "card (owning_messages (ms(a := obj)) b) + owns (ms a) b = card (owning_messages ms b) + owns obj b"
proof -
  let ?rest = "owning_messages ms b - {a}"
  have fin: "finite ?rest"
    by (rule finite_subset [OF _ assms]) (auto simp: owning_messages_def)
  have "owning_messages (ms(a := obj)) b = (if owns obj b = 1 then insert a ?rest else ?rest)"
    and "owning_messages ms b = (if owns (ms a) b = 1 then insert a ?rest else ?rest)"
    by (auto simp: owning_messages_def owns_def ptr_owns_iff split: option.splits if_splits)
  moreover have "owns x b = 0 \<or> owns x b = 1" for x
    by (auto simp: owns_def ptr_owns_iff split: option.split)
  moreover have "card (insert a ?rest) = Suc (card ?rest)"
    using fin by (intro card_insert_disjoint) auto
  ultimately show ?thesis
    by (smt (verit) One_nat_def add.commute add_Suc add_cancel_left_left plus_1_eq_Suc)
qed

lemma heap_counts_alive:
  assumes "heap_counts h P M"
  shows "0 < P b \<Longrightarrow> payloads h b \<noteq> None" and "messages h a \<noteq> None \<longleftrightarrow> 0 < M a"
  using assms by (auto simp: heap_counts_def heap_ok_def)

lemma heap_counts_new_payload:
  "heap_counts h P M \<Longrightarrow> payloads h a = None \<Longrightarrow> heap_counts (new_payload a v h) (P(a := Suc (P a))) M"
  by (auto simp: heap_counts_def heap_ok_def new_payload_def)

lemma heap_counts_copy_payload:
  assumes "heap_counts h P M" "\<And>b. ptr_owns p b \<le> P b"
  shows "heap_counts (copy_payload_ptr p h) (\<lambda>b. P b + ptr_owns p b) M"
proof (cases p)
  case (Owning a)
  then have "0 < P a" using assms(2) [of a] by simp
  then show ?thesis using assms(1) by (auto simp: Owning heap_counts_def heap_ok_def)
qed (use assms(1) in simp_all)

lemma heap_counts_drop_payload:
  "heap_counts h P M \<Longrightarrow> (\<And>b. ptr_owns p b \<le> P b) \<Longrightarrow>
   heap_counts (drop_payload_ptr p h) (\<lambda>b. P b - ptr_owns p b) M"
  by (cases p) (fastforce simp: heap_counts_def heap_ok_def)+

text \<open>A message that is replaced, created or deleted hands its pointer over to the program, or takes one.\<close>

lemma heap_counts_update_message:
  assumes "heap_counts h P M" "messages h a = Some obj"
    and "\<And>b. ptr_owns (mo_payload obj') b \<le> P b + ptr_owns (mo_payload obj) b"
  shows "heap_counts (h\<lparr>messages := (messages h)(a := Some obj')\<rparr>)
    (\<lambda>b. P b + ptr_owns (mo_payload obj) b - ptr_owns (mo_payload obj') b) M"
proof -
  have fin: "finite (dom (messages h))" using assms(1) by (simp add: heap_counts_def)
  have "card (owning_messages ((messages h)(a := Some obj')) b) + ptr_owns (mo_payload obj) b =
      card (owning_messages (messages h) b) + ptr_owns (mo_payload obj') b" for b
    using owning_messages_update [OF fin, of a "Some obj'" b] assms(2) by (simp add: owns_def)
  then have "P b + card (owning_messages (messages h) b) =
      P b + ptr_owns (mo_payload obj) b - ptr_owns (mo_payload obj') b +
      card (owning_messages ((messages h)(a := Some obj')) b)" for b
    using assms(3) [of b] by (metis (no_types, opaque_lifting) Nat.add_diff_assoc2 add.assoc add.commute add_diff_cancel_right')
  moreover have "finite (dom ((messages h)(a := Some obj')))" using fin by simp
  moreover have "0 < M a" using heap_counts_alive(2) [OF assms(1), of a] assms(2) by simp
  ultimately show ?thesis
    using assms(1,2) by (auto simp: heap_counts_def heap_ok_def)
qed

lemma heap_counts_new_message:
  assumes "heap_counts h P M" "messages h a = None" "\<And>b. ptr_owns (mo_payload obj) b \<le> P b"
  shows "heap_counts (new_message a obj h) (\<lambda>b. P b - ptr_owns (mo_payload obj) b) (M(a := Suc (M a)))"
proof -
  have fin: "finite (dom (messages h))" using assms(1) by (simp add: heap_counts_def)
  have "P b + card (owning_messages (messages h) b) =
      P b - ptr_owns (mo_payload obj) b + card (owning_messages ((messages h)(a := Some obj)) b)" for b
    using owning_messages_update [OF fin, of a "Some obj" b] assms(2) assms(3) [of b]
    by (simp add: owns_def)
  moreover have "finite (dom ((messages h)(a := Some obj)))" using fin by simp
  ultimately show ?thesis
    using assms(1,2) by (auto simp: heap_counts_def heap_ok_def new_message_def)
qed

lemma heap_counts_copy_message:
  "heap_counts h P M \<Longrightarrow> 0 < M a \<Longrightarrow> heap_counts (copy_message_ptr (Owning a) h) P (M(a := Suc (M a)))"
  by (auto simp: heap_counts_def heap_ok_def)

lemma heap_counts_delete_message:
  assumes "heap_counts h P M" "messages h a = Some obj" "M a = 1"
  shows "heap_counts (h\<lparr>message_owners := (message_owners h)(a := 0), messages := (messages h)(a := None)\<rparr>)
    (\<lambda>b. P b + ptr_owns (mo_payload obj) b) (M(a := 0))"
proof -
  have fin: "finite (dom (messages h))" using assms(1) by (simp add: heap_counts_def)
  have "P b + card (owning_messages (messages h) b) =
      P b + ptr_owns (mo_payload obj) b + card (owning_messages ((messages h)(a := None)) b)" for b
    using owning_messages_update [OF fin, of a None b] assms(2) by (simp add: owns_def)
  moreover have "finite (dom ((messages h)(a := None)))" using fin by simp
  ultimately show ?thesis
    using assms by (auto simp: heap_counts_def heap_ok_def)
qed

lemma heap_counts_drop_message:
  assumes "heap_counts h P M" "0 < M a"
  shows "heap_counts (drop_message_ptr (Owning a) h) P (M(a := M a - 1))"
proof (cases "M a = 1")
  case True
  obtain obj where obj: "messages h a = Some obj"
    using heap_counts_alive(2) [OF assms(1), of a] assms(2) by auto
  show ?thesis
    using heap_counts_drop_payload [OF heap_counts_delete_message [OF assms(1) obj True], of "mo_payload obj"]
      assms(1) True by (simp add: obj Let_def heap_counts_def)
next
  case False
  with assms(2) have "1 < M a" by simp
  then show ?thesis using assms(1) by (auto simp: heap_counts_def heap_ok_def Let_def)
qed

section \<open>Every step keeps the invariant\<close>

lemma glue_invI:
  assumes "heap_counts (gw_heap w) P M"
    and "\<And>b. P b = count (gw_payloads w) (PayloadWrapper (Owning b))"
    and "\<And>a. M a = count (gw_messages w) (MessageWrapper (Owning a))"
    and "\<And>m. m \<in># gw_messages w \<Longrightarrow> \<exists>a. message_ptr m = Owning a"
  shows "glue_inv w"
proof -
  have "P = (\<lambda>b. count (gw_payloads w) (PayloadWrapper (Owning b)))"
    "M = (\<lambda>a. count (gw_messages w) (MessageWrapper (Owning a)))"
    using assms(2,3) by auto
  with assms(1,4) show ?thesis by (simp add: glue_inv_def)
qed

lemma payload_wrapper_counted: "p \<in># A \<Longrightarrow> ptr_owns (payload_ptr p) b \<le> count A (PayloadWrapper (Owning b))"
  by (cases p) (auto simp: ptr_owns_iff)

lemma payload_wrapper_eq: "payload_ptr p = q \<longleftrightarrow> p = PayloadWrapper q"
  by (cases p) auto

lemma message_wrapper_eq: "message_ptr m = p \<longleftrightarrow> m = MessageWrapper p"
  by (cases m) auto

text \<open>
  \<open>held w b\<close> and \<open>held_messages w a\<close> count the wrappers that own an object. One lemma per step.
\<close>

abbreviation held :: "glue_world \<Rightarrow> addr \<Rightarrow> nat" where
  "held w b \<equiv> count (gw_payloads w) (PayloadWrapper (Owning b))"

abbreviation held_messages :: "glue_world \<Rightarrow> addr \<Rightarrow> nat" where
  "held_messages w a \<equiv> count (gw_messages w) (MessageWrapper (Owning a))"

lemma glue_inv_counts: "glue_inv w \<Longrightarrow> heap_counts (gw_heap w) (held w) (held_messages w)"
  by (simp add: glue_inv_def)

lemma glue_inv_message:
  assumes "glue_inv w" "m \<in># gw_messages w"
  obtains a where "m = MessageWrapper (Owning a)" "0 < held_messages w a"
  using assms by (fastforce simp: glue_inv_def message_wrapper_eq)

lemma glue_inv_owning: "glue_inv w \<Longrightarrow> m \<in># gw_messages w \<Longrightarrow> \<exists>a. message_ptr m = Owning a"
  by (simp add: glue_inv_def)

lemma glue_inv_create_payload:
  assumes "glue_inv w" "payloads (gw_heap w) a = None"
  shows "glue_inv (w\<lparr>gw_heap := new_payload a v (gw_heap w),
    gw_payloads := add_mset (PayloadWrapper (Owning a)) (gw_payloads w)\<rparr>)" (is "glue_inv ?w")
proof -
  have "heap_counts (gw_heap ?w) ((held w)(a := Suc (held w a))) (held_messages w)"
    using heap_counts_new_payload [OF glue_inv_counts [OF assms(1)] assms(2)] by simp
  then show ?thesis by (rule glue_invI) (use glue_inv_owning [OF assms(1)] in auto)
qed

lemma glue_inv_new_message:
  assumes "glue_inv w" "messages h a = None" "\<And>b. ptr_owns p b \<le> P b"
    and "heap_counts h P (held_messages w)" "\<And>b. P b - ptr_owns p b = held w b"
  shows "glue_inv (w\<lparr>gw_heap := new_message a \<lparr>mo_header = m, mo_payload = p\<rparr> h,
    gw_messages := add_mset (MessageWrapper (Owning a)) (gw_messages w)\<rparr>)" (is "glue_inv ?w")
proof -
  have "heap_counts (gw_heap ?w) (\<lambda>b. P b - ptr_owns p b) ((held_messages w)(a := Suc (held_messages w a)))"
    using heap_counts_new_message [OF assms(4,2), of "\<lparr>mo_header = m, mo_payload = p\<rparr>"] assms(3) by simp
  then show ?thesis by (rule glue_invI) (use glue_inv_owning [OF assms(1)] assms(5) in auto)
qed

lemma glue_inv_create_message:
  assumes "glue_inv w" "messages (gw_heap w) a = None"
  shows "glue_inv (w\<lparr>gw_heap := new_message a \<lparr>mo_header = m, mo_payload = Null_ptr\<rparr> (gw_heap w),
    gw_messages := add_mset (MessageWrapper (Owning a)) (gw_messages w)\<rparr>)"
  using glue_inv_new_message [OF assms, of Null_ptr "held w"] glue_inv_counts [OF assms(1)] by simp

lemma glue_inv_receive:
  assumes "glue_inv w" "messages (gw_heap w) a = None" "payloads (gw_heap w) b = None"
  shows "glue_inv (w\<lparr>gw_heap := new_message a \<lparr>mo_header = m, mo_payload = Owning b\<rparr> (new_payload b v (gw_heap w)),
    gw_messages := add_mset (MessageWrapper (Owning a)) (gw_messages w)\<rparr>)"
  using heap_counts_new_payload [OF glue_inv_counts [OF assms(1)] assms(3), of v] assms(2)
  by (intro glue_inv_new_message [OF assms(1), where P = "(held w)(b := Suc (held w b))"])
    (auto simp: new_payload_def)

lemma glue_inv_clone_payload:
  assumes "glue_inv w" "p \<in># gw_payloads w" "payload_get_shared_ptr p (gw_heap w) = (q, h)"
  shows "glue_inv (w\<lparr>gw_heap := h, gw_payloads := add_mset (PayloadWrapper q) (gw_payloads w)\<rparr>)" (is "glue_inv ?w")
proof -
  have "heap_counts (gw_heap ?w) (\<lambda>b. held w b + ptr_owns q b) (held_messages w)"
    using heap_counts_copy_payload [OF glue_inv_counts [OF assms(1)] payload_wrapper_counted [OF assms(2)]] assms(3)
    by (auto simp: payload_get_shared_ptr_def)
  then show ?thesis by (rule glue_invI) (use glue_inv_owning [OF assms(1)] in \<open>auto simp: ptr_owns_iff\<close>)
qed

lemma glue_inv_clone_message:
  assumes "glue_inv w" "m \<in># gw_messages w" "message_get_shared_ptr m (gw_heap w) = (q, h)"
  shows "glue_inv (w\<lparr>gw_heap := h, gw_messages := add_mset (MessageWrapper q) (gw_messages w)\<rparr>)" (is "glue_inv ?w")
proof -
  obtain a where a: "m = MessageWrapper (Owning a)" "0 < held_messages w a"
    using glue_inv_message [OF assms(1,2)] by blast
  then have "heap_counts (gw_heap ?w) (held w) ((held_messages w)(a := Suc (held_messages w a)))"
    using heap_counts_copy_message [OF glue_inv_counts [OF assms(1)] a(2)] assms(3)
    by (auto simp: message_get_shared_ptr_def)
  then show ?thesis
    by (rule glue_invI) (use glue_inv_owning [OF assms(1)] assms(3) a in \<open>auto simp: message_get_shared_ptr_def\<close>)
qed

text \<open>A step that creates and drops no wrapper keeps the invariant when it keeps the counts.\<close>

lemma glue_inv_same_wrappers:
  assumes "glue_inv w" "heap_counts h (\<lambda>b. held w b) (held_messages w)"
  shows "glue_inv (w\<lparr>gw_heap := h\<rparr>)"
  using assms by (simp add: glue_inv_def)

lemma glue_inv_write_header:
  assumes "glue_inv w" "update_message_base m f (gw_heap w) = Done h"
  shows "glue_inv (w\<lparr>gw_heap := h\<rparr>)"
proof -
  obtain a obj where obj: "messages (gw_heap w) a = Some obj"
    "h = (gw_heap w)\<lparr>messages := (messages (gw_heap w))(a := Some (obj\<lparr>mo_header := f (mo_header obj)\<rparr>))\<rparr>"
    using assms(2) by (auto simp: glue_defs split: option.splits glue.splits if_splits)
  with heap_counts_update_message [OF glue_inv_counts [OF assms(1)] obj(1), of "obj\<lparr>mo_header := f (mo_header obj)\<rparr>"]
  show ?thesis by (intro glue_inv_same_wrappers [OF assms(1)]) simp
qed

lemma heap_counts_set_data:
  assumes "heap_counts h P M" "payloads h a \<noteq> None"
  shows "heap_counts (h\<lparr>payloads := (payloads h)(a := Some v)\<rparr>) P M"
proof -
  have "payload_owners h a \<noteq> 0" using assms by (simp add: heap_counts_def heap_ok_def)
  then have "heap_ok (h\<lparr>payloads := (payloads h)(a := Some v)\<rparr>)"
    using assms(1) by (auto simp: heap_counts_def heap_ok_def simp del: not_gr_zero)
  then show ?thesis using assms(1) by (simp add: heap_counts_def)
qed

lemma glue_inv_set_data:
  assumes "glue_inv w" "payload_set_data_safe p data (gw_heap w) = Done h"
  shows "glue_inv (w\<lparr>gw_heap := h\<rparr>)"
proof -
  obtain a where a: "payloads (gw_heap w) a \<noteq> None"
    "h = (gw_heap w)\<lparr>payloads := (payloads (gw_heap w))(a := Some (set_data_safe data))\<rparr>"
    using assms(2) by (auto simp: glue_defs split: option.splits glue.splits if_splits)
  with heap_counts_set_data [OF glue_inv_counts [OF assms(1)] a(1)] show ?thesis
    by (intro glue_inv_same_wrappers [OF assms(1)]) simp
qed

lemma glue_inv_set_payload:
  assumes "glue_inv w" "message_set_payload m p (gw_heap w) = Done h"
  shows "glue_inv (w\<lparr>gw_heap := h\<rparr>)"
proof -
  obtain a obj where obj: "messages (gw_heap w) a = Some obj"
    "h = drop_payload_ptr (mo_payload obj) ((gw_heap w)\<lparr>messages := (messages (gw_heap w))
      (a := Some (obj\<lparr>mo_payload := borrow (ptr_get (payload_ptr p))\<rparr>))\<rparr>)"
    using assms(2) by (auto simp: glue_defs split: option.splits)
  have "ptr_owns (borrow x) b = 0" for x b by (cases x) auto
  with obj heap_counts_drop_payload [OF heap_counts_update_message [OF glue_inv_counts [OF assms(1)] obj(1)],
      of "obj\<lparr>mo_payload := borrow (ptr_get (payload_ptr p))\<rparr>" "mo_payload obj"]
  show ?thesis by (intro glue_inv_same_wrappers [OF assms(1)]) simp
qed

lemma glue_inv_get_payload:
  assumes "glue_inv w" "message_get_payload m (gw_heap w) = Done (Some p)"
  shows "glue_inv (w\<lparr>gw_payloads := add_mset p (gw_payloads w)\<rparr>)"
proof -
  have "payload_ptr p \<noteq> Owning b" for b
    using assms(2) by (auto simp: glue_defs split: option.splits)
  then have "p \<noteq> PayloadWrapper (Owning b)" for b by (cases p) auto
  with assms(1) show ?thesis by (simp add: glue_inv_def)
qed

lemma glue_inv_drop_payload:
  assumes "glue_inv w" "p \<in># gw_payloads w"
  shows "glue_inv (w\<lparr>gw_heap := drop_payload_wrapper p (gw_heap w), gw_payloads := gw_payloads w - {#p#}\<rparr>)"
    (is "glue_inv ?w")
proof -
  have "heap_counts (gw_heap ?w) (\<lambda>b. held w b - ptr_owns (payload_ptr p) b) (held_messages w)"
    using heap_counts_drop_payload [OF glue_inv_counts [OF assms(1)] payload_wrapper_counted [OF assms(2)]]
    by (simp add: drop_payload_wrapper_def)
  then show ?thesis
    by (rule glue_invI) (use glue_inv_owning [OF assms(1)] in \<open>auto simp: ptr_owns_iff payload_wrapper_eq\<close>)
qed

lemma glue_inv_drop_message:
  assumes "glue_inv w" "m \<in># gw_messages w"
  shows "glue_inv (w\<lparr>gw_heap := drop_message_wrapper m (gw_heap w), gw_messages := gw_messages w - {#m#}\<rparr>)"
    (is "glue_inv ?w")
proof -
  obtain a where a: "m = MessageWrapper (Owning a)" "0 < held_messages w a"
    using glue_inv_message [OF assms] by blast
  then have "heap_counts (gw_heap ?w) (held w) ((held_messages w)(a := held_messages w a - 1))"
    using heap_counts_drop_message [OF glue_inv_counts [OF assms(1)] a(2)] by (simp add: drop_message_wrapper_def)
  then show ?thesis
    by (rule glue_invI) (use glue_inv_owning [OF assms(1)] a in \<open>auto dest: in_diffD\<close>)
qed

lemmas glue_inv_steps =
  glue_inv_create_payload glue_inv_create_message glue_inv_receive glue_inv_clone_payload glue_inv_clone_message
  glue_inv_write_header glue_inv_set_data glue_inv_set_payload glue_inv_get_payload glue_inv_drop_payload
  glue_inv_drop_message

lemma glue_step_inv: "glue_step w w' \<Longrightarrow> glue_inv w \<Longrightarrow> glue_inv w'"
  by (erule glue_stepE) (simp_all add: glue_inv_steps del: drop_message_ptr.simps)

lemma glue_reachable_inv:
  assumes "glue_reachable w"
  shows "glue_inv w"
  using assms unfolding glue_reachable_def
proof induction
  case base
  have "glue_inv glue_world_init"
    by (simp add: glue_inv_def glue_world_init_def empty_heap_def heap_counts_def heap_ok_def owning_messages_def)
  then show ?case .
next
  case (step w w')
  then show ?case by (blast intro: glue_step_inv)
qed

lemma empty_world_empty_heap:
  assumes "glue_inv w" "gw_payloads w = {#}" "gw_messages w = {#}"
  shows "payloads (gw_heap w) = Map.empty" "messages (gw_heap w) = Map.empty"
proof -
  have none: "messages (gw_heap w) a = None" for a
    using heap_counts_alive(2) [OF glue_inv_counts [OF assms(1)], of a] assms(3) by simp
  then show "messages (gw_heap w) = Map.empty" by blast
  have "owning_messages (messages (gw_heap w)) b = {}" for b
    using none by (simp add: owning_messages_def)
  then have "payload_owners (gw_heap w) b = 0" for b
    using glue_inv_counts [OF assms(1)] assms(2) by (simp add: heap_counts_def)
  then show "payloads (gw_heap w) = Map.empty"
    using glue_inv_counts [OF assms(1)] by (auto simp: heap_counts_def heap_ok_def)
qed

section \<open>Properties\<close>

text \<open>
  C16. Whatever a program does with the wrappers, a wrapper that was made from one of vsomeip's own
  pointers leads to an object that exists: reading or writing it neither panics nor is
  undefined. The same holds of every message. An object exists exactly as long as a wrapper or a
  message owns it, and when all wrappers are gone nothing is left over.
\<close>

theorem wrappers_own_their_objects:
  assumes "glue_reachable w"
  shows "(\<forall>p a. p \<in># gw_payloads w \<and> payload_ptr p = Owning a \<longrightarrow>
      (\<exists>data. payload_get_data_safe p (gw_heap w) = Done data)) \<and>
    (\<forall>m \<in># gw_messages w. \<exists>v. read_message_base m (gw_heap w) = Done v) \<and>
    (\<forall>b. payloads (gw_heap w) b \<noteq> None \<longleftrightarrow> PayloadWrapper (Owning b) \<in># gw_payloads w \<or>
      (\<exists>a obj. messages (gw_heap w) a = Some obj \<and> mo_payload obj = Owning b)) \<and>
    (\<forall>a. messages (gw_heap w) a \<noteq> None \<longleftrightarrow> MessageWrapper (Owning a) \<in># gw_messages w) \<and>
    (gw_payloads w = {#} \<and> gw_messages w = {#} \<longrightarrow>
      payloads (gw_heap w) = Map.empty \<and> messages (gw_heap w) = Map.empty)"
proof -
  have inv: "glue_inv w" using assms by (rule glue_reachable_inv)
  note counts = glue_inv_counts [OF inv]
  have fin: "finite (owning_messages (messages (gw_heap w)) b)" for b
    by (rule finite_subset [of _ "dom (messages (gw_heap w))"])
      (use counts in \<open>auto simp: heap_counts_def owning_messages_def\<close>)
  have payload: "payloads (gw_heap w) b \<noteq> None \<longleftrightarrow> PayloadWrapper (Owning b) \<in># gw_payloads w \<or>
      owning_messages (messages (gw_heap w)) b \<noteq> {}" for b
    using counts fin [of b] by (auto simp: heap_counts_def heap_ok_def)
  have message: "messages (gw_heap w) a \<noteq> None \<longleftrightarrow> MessageWrapper (Owning a) \<in># gw_messages w" for a
    using heap_counts_alive(2) [OF counts, of a] by simp
  have "\<exists>data. payload_get_data_safe p (gw_heap w) = Done data"
    if "p \<in># gw_payloads w" "payload_ptr p = Owning a" for p a
  proof -
    have "payloads (gw_heap w) a \<noteq> None" using that payload [of a] by (simp add: payload_wrapper_eq)
    then show ?thesis by (auto simp: glue_defs that(2))
  qed
  moreover have "\<exists>v. read_message_base m (gw_heap w) = Done v" if m: "m \<in># gw_messages w" for m
  proof -
    obtain a where a: "m = MessageWrapper (Owning a)" using glue_inv_message [OF inv m] by blast
    with m have "messages (gw_heap w) a \<noteq> None" using message by simp
    then show ?thesis by (auto simp: glue_defs a)
  qed
  ultimately show ?thesis
    using payload message empty_world_empty_heap [OF inv] by (auto simp: owning_messages_def)
qed

lemma glue_reachable_step: "glue_reachable w \<Longrightarrow> glue_step w w' \<Longrightarrow> glue_reachable w'"
  unfolding glue_reachable_def by (rule rtranclp.rtrancl_into_rtrancl)

lemma glue_reachable_init: "glue_reachable glue_world_init"
  by (simp add: glue_reachable_def)

text \<open>One message has come in and its payload has been asked for.\<close>

definition received_world :: glue_world where
  "received_world = \<lparr>gw_heap = new_message 1 \<lparr>mo_header = blank_message MT_REQUEST, mo_payload = Owning 2\<rparr>
       (new_payload 2 (Some [7]) empty_heap),
     gw_payloads = {#PayloadWrapper (Borrowing 2)#}, gw_messages = {#MessageWrapper (Owning 1)#}\<rparr>"

lemma received_world_reachable: "glue_reachable received_world"
proof -
  let ?w = "received_world\<lparr>gw_payloads := {#}\<rparr>"
  have "glue_step glue_world_init ?w"
    using glue_step.receive [of glue_world_init 1 2 "blank_message MT_REQUEST" "Some [7]"]
    by (simp add: glue_world_init_def empty_heap_def received_world_def)
  moreover have "glue_step ?w received_world"
    using glue_step.get_payload [of "MessageWrapper (Owning 1)" ?w "PayloadWrapper (Borrowing 2)"]
    by (simp add: received_world_def glue_defs)
  ultimately show ?thesis by (blast intro: glue_reachable_step glue_reachable_init)
qed

theorem wrappers_own_their_objects_witness:
  "glue_reachable received_world \<and> payloads (gw_heap received_world) 2 \<noteq> None \<and>
    (\<exists>v. read_message_base (MessageWrapper (Owning 1)) (gw_heap received_world) = Done v)"
  using wrappers_own_their_objects [OF received_world_reachable] received_world_reachable
  by (simp add: received_world_def glue_defs)

text \<open>
  C33. The functions of the wrappers are declared safe, but safe code can use an object that is gone. The
  payload taken from a message is not kept alive by its wrapper: once the message has been
  dropped, reading the payload is undefined behaviour. And a message does not keep alive the
  payload that was set on it: once the payload's wrapper has been dropped, reading the message's
  payload is.
\<close>

theorem safe_wrappers_dangle:
  "(\<exists>w p. glue_reachable w \<and> p \<in># gw_payloads w \<and> payload_get_data_safe p (gw_heap w) = Undefined) \<and>
   (\<exists>w m p. glue_reachable w \<and> m \<in># gw_messages w \<and> message_get_payload m (gw_heap w) = Done (Some p) \<and>
     payload_get_data_safe p (gw_heap w) = Undefined)"
proof
  let ?w = "received_world\<lparr>gw_heap := drop_message_wrapper (MessageWrapper (Owning 1)) (gw_heap received_world),
    gw_messages := gw_messages received_world - {#MessageWrapper (Owning 1)#}\<rparr>"
  have "glue_step received_world ?w"
    by (rule glue_step.drop_message) (simp add: received_world_def)
  then have "glue_reachable ?w" using received_world_reachable by (rule glue_reachable_step [rotated])
  moreover have "PayloadWrapper (Borrowing 2) \<in># gw_payloads ?w" by (simp add: received_world_def)
  moreover have "payload_get_data_safe (PayloadWrapper (Borrowing 2)) (gw_heap ?w) = Undefined"
    by (simp add: received_world_def glue_defs empty_heap_def)
  ultimately show "\<exists>w p. glue_reachable w \<and> p \<in># gw_payloads w \<and> payload_get_data_safe p (gw_heap w) = Undefined"
    by blast
next
  let ?m = "MessageWrapper (Owning 1)" and ?p = "PayloadWrapper (Owning 2)"
  let ?h1 = "new_message 1 \<lparr>mo_header = blank_message MT_REQUEST, mo_payload = Null_ptr\<rparr> empty_heap"
  let ?h2 = "new_payload 2 (Some [7]) ?h1"
  let ?h3 = "?h2\<lparr>messages := (messages ?h2)(1 := Some \<lparr>mo_header = blank_message MT_REQUEST, mo_payload = Borrowing 2\<rparr>)\<rparr>"
  let ?w = "\<lambda>h ps. \<lparr>gw_heap = h, gw_payloads = ps, gw_messages = {#?m#}\<rparr>"
  have s1: "glue_step glue_world_init (?w ?h1 {#})"
    using glue_step.create_message [of glue_world_init 1 "blank_message MT_REQUEST"]
    by (simp add: glue_world_init_def empty_heap_def)
  have s2: "glue_step (?w ?h1 {#}) (?w ?h2 {#?p#})"
    using glue_step.create_payload [of "?w ?h1 {#}" 2 "Some [7]"]
    by (simp add: new_message_def empty_heap_def)
  have s3: "glue_step (?w ?h2 {#?p#}) (?w ?h3 {#?p#})"
    using glue_step.set_payload [of ?m "?w ?h2 {#?p#}" ?p ?h3] by (simp add: glue_defs)
  have s4: "glue_step (?w ?h3 {#?p#}) (?w (drop_payload_wrapper ?p ?h3) {#})"
    using glue_step.drop_payload [of ?p "?w ?h3 {#?p#}"] by simp
  have "glue_reachable (?w (drop_payload_wrapper ?p ?h3) {#})"
    by (rule glue_reachable_step [OF glue_reachable_step [OF glue_reachable_step [OF glue_reachable_step
      [OF glue_reachable_init s1] s2] s3] s4])
  then show "\<exists>w m p. glue_reachable w \<and> m \<in># gw_messages w \<and> message_get_payload m (gw_heap w) = Done (Some p) \<and>
      payload_get_data_safe p (gw_heap w) = Undefined"
    by (intro exI [of _ "?w (drop_payload_wrapper ?p ?h3) {#}"] exI [of _ ?m] exI [of _ "PayloadWrapper (Borrowing 2)"])
      (simp add: glue_defs empty_heap_def)
qed

end
