(* ===== verification/Glue_Engine.thy ===== *)
theory Glue_Engine
  imports Transport_Engine Glue_Clients
begin

text \<open>
  The two places where the transport handles vsomeip's objects, on the memory of \<open>Glue_Heap\<close>:
  \<^verbatim>\<open>send_internal\<close> of \<^verbatim>\<open>transport_engine.rs\<close>, which creates a payload and a message and drops them when it
  returns, and the extern functions generated by \<^verbatim>\<open>vsomeip-proc-macro\<close>, which read a message vsomeip
  lends them. \<open>Transport_Engine\<close> and \<open>Extern_Handlers\<close> have messages as values; here it is shown that this
  is what the pointers amount to, and where it stops being so.
\<close>

section \<open>Sending\<close>

text \<open>
  \<open>ma\<close> is the address the allocator gives the message, \<open>keeps\<close> tells whether vsomeip keeps the pointer
  it is given after the call has returned. What vsomeip reads through it during the call is the
  message's value then.
\<close>

definition send_message_on_heap ::
    "bool \<Rightarrow> addr \<Rightarrow> vsomeip_message \<Rightarrow> payload_wrapper \<Rightarrow> cpp_heap \<Rightarrow> vsomeip_message glue \<times> cpp_heap" where
  "send_message_on_heap keeps ma header vsomeip_payload h =
     (let vsomeip_msg = MessageWrapper (Owning ma);
          h1 = new_message ma \<lparr>mo_header = header, mo_payload = Null_ptr\<rparr> h
      in case message_set_payload vsomeip_msg vsomeip_payload h1 of
           Panicked \<Rightarrow> (Panicked, h1)
         | Undefined \<Rightarrow> (Undefined, h1)
         | Done h2 \<Rightarrow>
             let (shared_ptr_message, h3) = message_get_shared_ptr vsomeip_msg h2;
                 seen = (case message_value h3 ma of None \<Rightarrow> Undefined | Some v \<Rightarrow> Done v);
                 h4 = (if keeps then h3 else drop_message_ptr shared_ptr_message h3)
             in (seen, drop_message_wrapper vsomeip_msg h4))"

text \<open>Locals are dropped in the reverse order of their declarations, on errors and panics too.\<close>

definition drop_send_locals :: "payload_wrapper \<Rightarrow> shared_ptr option \<Rightarrow> cpp_heap \<Rightarrow> cpp_heap" where
  "drop_send_locals vsomeip_payload attachable_payload h =
     drop_payload_wrapper vsomeip_payload
       (case attachable_payload of None \<Rightarrow> h | Some p \<Rightarrow> drop_payload_ptr p h)"

text \<open>
  \<open>pa\<close> is the address of the new payload, \<open>blank\<close> what it holds at first. A message that a failing
  conversion has created is dropped by the conversion.
\<close>

definition send_internal_on_heap ::
    "up_rust \<Rightarrow> vsomeip_api \<Rightarrow> bool \<Rightarrow> bool \<Rightarrow> addr \<Rightarrow> addr \<Rightarrow> vsomeip_payload \<Rightarrow> umessage \<Rightarrow> ApplicationName \<Rightarrow>
     rpc_correlation \<times> offered_requested \<times> vsomeip_log \<Rightarrow> cpp_heap \<Rightarrow>
     (unit result outcome \<times> rpc_correlation \<times> offered_requested \<times> vsomeip_log) glue \<times> cpp_heap" where
  "send_internal_on_heap U V overflow_checks keeps pa ma blank umsg app = (\<lambda>(rpc, reg, log) h.
     let payload = (case umsg_payload umsg of Some bytes \<Rightarrow> bytes | None \<Rightarrow> []);
         vsomeip_payload = PayloadWrapper (Owning pa);
         h1 = new_payload pa blank h
     in case payload_set_data_safe vsomeip_payload payload h1 of
       Panicked \<Rightarrow> (Panicked, h1)
     | Undefined \<Rightarrow> (Undefined, h1)
     | Done h2 \<Rightarrow>
       (let (attachable_payload, h3) = payload_get_shared_ptr vsomeip_payload h2;
            return = (\<lambda>r h. (Done r, drop_send_locals vsomeip_payload (Some attachable_payload) h));
            send = (\<lambda>r vsomeip_msg. case send_message_on_heap keeps ma vsomeip_msg vsomeip_payload h3 of
              (Panicked, h4) \<Rightarrow> (Panicked, h4)
            | (Undefined, h4) \<Rightarrow> (Undefined, h4)
            | (Done m, h4) \<Rightarrow> return (Returns (Ok ()), r, reg, vsomeip_do app (Send m) log) h4)
        in case enum_value_or (attr_type (attributes_of U umsg)) UMESSAGE_TYPE_UNSPECIFIED of
          UMESSAGE_TYPE_UNSPECIFIED \<Rightarrow> return (Returns (Err (fail_with_code INVALID_ARGUMENT
            ''Unspecified message type not supported'')), rpc, reg, log) h3
        | UMESSAGE_TYPE_NOTIFICATION \<Rightarrow> return (Returns (Err (fail_with_code INVALID_ARGUMENT
            ''Notification is not supported'')), rpc, reg, log) h3
        | UMESSAGE_TYPE_PUBLISH \<Rightarrow>
            (case umsg_publish_to_vsomeip_notification U V umsg app (reg, log) of
               (Err e, reg1, log1) \<Rightarrow> return (Returns (Err e), rpc, reg1, log1) h3
             | (Ok (service_id, instance_id, event_id), reg1, log1) \<Rightarrow>
                 (case ptr_get attachable_payload of
                    None \<Rightarrow> (Undefined, h3)
                  | Some a \<Rightarrow> (case payloads h3 a of
                      None \<Rightarrow> (Undefined, h3)
                    | Some v \<Rightarrow> (Done (Returns (Ok ()), rpc, reg1,
                        vsomeip_do app (Notify service_id instance_id event_id v True) log1),
                      drop_send_locals vsomeip_payload (if keeps then None else Some attachable_payload) h3))))
        | UMESSAGE_TYPE_REQUEST \<Rightarrow>
            (case umsg_request_to_vsomeip_message U V overflow_checks umsg app log rpc of
               (Panics, rpc1) \<Rightarrow> return (Panics, rpc1, reg, log) h3
             | (Returns (Err e), rpc1) \<Rightarrow> return (Returns (Err e), rpc1, reg, log) h3
             | (Returns (Ok vsomeip_msg), rpc1) \<Rightarrow> send rpc1 vsomeip_msg)
        | UMESSAGE_TYPE_RESPONSE \<Rightarrow>
            (case umsg_response_to_vsomeip_message U V umsg rpc of
               (Err e, rpc1) \<Rightarrow> return (Returns (Err e), rpc1, reg, log) h3
             | (Ok vsomeip_msg, rpc1) \<Rightarrow> send rpc1 vsomeip_msg)))"

section \<open>Receiving\<close>

text \<open>
  vsomeip lends the extern function a pointer to the message at \<open>ma\<close>. \<open>call_shared_extern_fn\<close> makes
  a wrapper of a copy, takes a second copy from it and a third for the wrapper the conversion
  reads through; \<open>read_message\<close> is what \<^verbatim>\<open>convert_vsomeip_msg_to_umsg\<close> reads, the payload first. The first
  wrapper is a temporary.
\<close>

definition read_message :: "message_wrapper \<Rightarrow> cpp_heap \<Rightarrow> (vsomeip_message \<times> u8 list option) glue" where
  "read_message w h =
     (case message_get_payload w h of
        Panicked \<Rightarrow> Panicked
      | Undefined \<Rightarrow> Undefined
      | Done payload \<Rightarrow>
          (case read_message_base w h of
             Panicked \<Rightarrow> Panicked
           | Undefined \<Rightarrow> Undefined
           | Done base \<Rightarrow>
               (case payload of
                  None \<Rightarrow> Done (base, None)
                | Some p \<Rightarrow> (case payload_get_data_safe p h of
                    Panicked \<Rightarrow> Panicked
                  | Undefined \<Rightarrow> Undefined
                  | Done bytes \<Rightarrow> Done (base, Some bytes)))))"

definition receive_on_heap :: "addr \<Rightarrow> cpp_heap \<Rightarrow> (vsomeip_message \<times> u8 list option) glue \<times> cpp_heap" where
  "receive_on_heap ma h =
     (let temporary = MessageWrapper (Owning ma);
          h1 = copy_message_ptr (Owning ma) h;
          (vsomeip_msg, h2) = message_get_shared_ptr temporary h1;
          h3 = drop_message_wrapper temporary h2;
          h4 = copy_message_ptr vsomeip_msg h3;
          vsomeip_msg_wrapper = MessageWrapper vsomeip_msg;
          res = read_message vsomeip_msg_wrapper h4
      in (res, drop_message_ptr vsomeip_msg (drop_message_wrapper vsomeip_msg_wrapper h4)))"

section \<open>Lemmas\<close>

lemma heap_ok_owners:
  assumes "heap_ok h"
  shows "payloads h a = None \<Longrightarrow> payload_owners h a = 0" "messages h a = None \<Longrightarrow> message_owners h a = 0"
    "messages h a \<noteq> None \<Longrightarrow> 0 < message_owners h a"
  using assms unfolding heap_ok_def by (blast, blast, metis gr0I)

lemma fun_upd_back: "f a = x \<Longrightarrow> f(a := y, a := x) = f" "f a = x \<Longrightarrow> f(a := x) = f"
  by auto

text \<open>The payload while \<^verbatim>\<open>send_internal\<close> runs, with its two owners.\<close>

definition with_payload :: "addr \<Rightarrow> u8 list \<Rightarrow> cpp_heap \<Rightarrow> cpp_heap" where
  "with_payload pa payload h = h\<lparr>payloads := (payloads h)(pa := Some (set_data_safe payload)),
     payload_owners := (payload_owners h)(pa := 2)\<rparr>"

lemma drop_send_locals_with_payload:
  assumes "heap_ok h" "payloads h pa = None"
  shows "drop_send_locals (PayloadWrapper (Owning pa)) (Some (Owning pa)) (with_payload pa payload h) = h"
    "drop_send_locals (PayloadWrapper (Owning pa)) None (with_payload pa payload h) =
       new_payload pa (set_data_safe payload) h"
  using heap_ok_owners(1) [OF assms] assms(2)
  by (simp_all add: drop_send_locals_def with_payload_def glue_defs fun_upd_back)

lemma send_message_on_heap_eq:
  assumes "heap_ok h" "messages h ma = None"
  shows "send_message_on_heap False ma header (PayloadWrapper (Owning pa)) (with_payload pa payload h) =
      (Done (set_message_payload (set_data_safe payload) header), with_payload pa payload h)"
    "send_message_on_heap True ma header (PayloadWrapper (Owning pa)) (with_payload pa payload h) =
      (Done (set_message_payload (set_data_safe payload) header),
       new_message ma \<lparr>mo_header = header, mo_payload = Borrowing pa\<rparr> (with_payload pa payload h))"
  using heap_ok_owners(2) [OF assms] assms(2)
  by (simp_all add: send_message_on_heap_def with_payload_def glue_defs fun_upd_back set_message_payload_def)

lemma drop_send_locals_new_message:
  "drop_send_locals (PayloadWrapper (Owning pa)) (Some (Owning pa)) (new_message ma obj h) =
   new_message ma obj (drop_send_locals (PayloadWrapper (Owning pa)) (Some (Owning pa)) h)"
  by (simp add: drop_send_locals_def glue_defs)

text \<open>What \<^verbatim>\<open>send_internal\<close> leaves on the heap.\<close>

definition sent_heap :: "umessage_type \<Rightarrow> addr \<Rightarrow> addr \<Rightarrow> vsomeip_message \<Rightarrow> u8 list \<Rightarrow> cpp_heap \<Rightarrow> cpp_heap" where
  "sent_heap t pa ma header payload h =
     (if t = UMESSAGE_TYPE_PUBLISH then new_payload pa (set_data_safe payload) h
      else new_message ma \<lparr>mo_header = header, mo_payload = Borrowing pa\<rparr> h)"

lemma payload_set_up:
  assumes "heap_ok h" "payloads h pa = None"
  obtains h2 where
    "payload_set_data_safe (PayloadWrapper (Owning pa)) payload (new_payload pa blank h) = Done h2"
    "payload_get_shared_ptr (PayloadWrapper (Owning pa)) h2 = (Owning pa, with_payload pa payload h)"
  using that by (simp add: glue_defs with_payload_def numeral_2_eq_2)

lemma send_internal_on_heap_eq:
  assumes "heap_ok h" "payloads h pa = None" "messages h ma = None"
  shows "\<exists>header. send_internal_on_heap U V oc keeps pa ma blank umsg app s h =
    (Done (send_internal U V oc umsg app s),
     if keeps \<and> fst (send_internal U V oc umsg app s) = Returns (Ok ())
     then sent_heap (enum_value_or (attr_type (attributes_of U umsg)) UMESSAGE_TYPE_UNSPECIFIED) pa ma header
       (case umsg_payload umsg of Some bytes \<Rightarrow> bytes | None \<Rightarrow> []) h
     else h)"
proof -
  obtain rpc reg log where s: "s = (rpc, reg, log)" by (cases s)
  let ?payload = "case umsg_payload umsg of Some bytes \<Rightarrow> bytes | None \<Rightarrow> []"
  obtain h2 where set_up: "payload_set_data_safe (PayloadWrapper (Owning pa)) ?payload (new_payload pa blank h) = Done h2"
    "payload_get_shared_ptr (PayloadWrapper (Owning pa)) h2 = (Owning pa, with_payload pa ?payload h)"
    by (rule payload_set_up [OF assms(1,2)])
  have at_pa: "payloads (with_payload pa ?payload h) pa = Some (set_data_safe ?payload)"
    by (simp add: with_payload_def)
  note drops = drop_send_locals_with_payload [OF assms(1,2)] drop_send_locals_new_message
  note sends = send_message_on_heap_eq [OF assms(1,3)]
  show ?thesis
    by (cases keeps; cases "enum_value_or (attr_type (attributes_of U umsg)) UMESSAGE_TYPE_UNSPECIFIED")
      (auto simp: s send_internal_on_heap_def send_internal_def Let_def set_up at_pa drops sends sent_heap_def
        split: prod.splits outcome.splits sum.splits)
qed

section \<open>Properties\<close>

text \<open>
  C15. Sending on the heap is sending values. Wherever the new payload and message are placed, no step of
  \<^verbatim>\<open>send_internal\<close> touches an object that is gone: its result, the registries and the calls made to
  vsomeip, with what vsomeip reads through the pointers it is given, are those of \<open>send_internal\<close> on
  values. Unless vsomeip keeps a pointer, the heap afterwards is the heap before: nothing leaks,
  whether the message was sent or refused.
\<close>

theorem send_on_heap_is_send:
  assumes "heap_ok h" "payloads h pa = None" "messages h ma = None"
  shows "fst (send_internal_on_heap U V oc keeps pa ma blank umsg app s h) = Done (send_internal U V oc umsg app s) \<and>
    (\<not> keeps \<or> fst (send_internal U V oc umsg app s) \<noteq> Returns (Ok ()) \<longrightarrow>
      snd (send_internal_on_heap U V oc keeps pa ma blank umsg app s h) = h)"
  using send_internal_on_heap_eq [OF assms, of U V oc keeps blank umsg app s] by auto

lemma empty_heap_ok [simp]: "heap_ok empty_heap" "payloads empty_heap a = None" "messages empty_heap a = None"
  by (simp_all add: heap_ok_def empty_heap_def)

definition example_response :: umessage where
  "example_response = \<lparr>umsg_attributes = Some (plain_attributes\<lparr>attr_type := Known UMESSAGE_TYPE_RESPONSE,
     attr_source := Some \<lparr>authority_name = ''here'', ue_id = 5, ue_version_major = 1, resource_id = 2\<rparr>,
     attr_sink := Some \<lparr>authority_name = ''there'', ue_id = 6, ue_version_major = 1, resource_id = 0\<rparr>,
     attr_reqid := Some (UUID 3)\<rparr>), umsg_payload = Some [1, 2]\<rparr>"

definition example_correlation :: rpc_correlation where
  "example_correlation = rpc_correlation_new\<lparr>me_request_correlation := [UUID 3 \<mapsto> 9]\<rparr>"

lemma example_response_sent:
  "fst (send_internal permissive_up_rust (example_vsomeip 1) True example_response ''app''
    (example_correlation, offered_requested_new, [])) = Returns (Ok ())"
  by (simp add: send_internal_def example_response_def plain_attributes_def umsg_response_to_vsomeip_message_def
      split_u32_to_u16_def split_u32_to_u8_def remove_me_request_correlation_def example_correlation_def)

theorem send_on_heap_is_send_witness:
  "fst (fst (case send_internal_on_heap permissive_up_rust (example_vsomeip 1) True False 1 2 None example_response ''app''
      (example_correlation, offered_requested_new, []) empty_heap of (Done r, h) \<Rightarrow> (r, h))) = Returns (Ok ()) \<and>
   snd (send_internal_on_heap permissive_up_rust (example_vsomeip 1) True False 1 2 None example_response ''app''
      (example_correlation, offered_requested_new, []) empty_heap) = empty_heap"
proof -
  let ?out = "send_internal_on_heap permissive_up_rust (example_vsomeip 1) True False 1 2 None example_response ''app''
      (example_correlation, offered_requested_new, []) empty_heap"
  have "fst ?out = Done (send_internal permissive_up_rust (example_vsomeip 1) True example_response ''app''
      (example_correlation, offered_requested_new, [])) \<and> snd ?out = empty_heap"
    using send_on_heap_is_send [of empty_heap 1 2] by simp
  then show ?thesis
    using example_response_sent by (cases ?out) auto
qed

text \<open>
  C31. Reading a message vsomeip lends is reading its value. An extern function that is given a message which
  exists, with its payload, takes three references to it and gives all of them back: it gets the
  header and the payload bytes of the message, and leaves the heap as it was.
\<close>

theorem receive_reads_the_message:
  assumes "heap_ok h" "message_value h ma = Some m"
  shows "\<exists>base. receive_on_heap ma h = (Done (base, map_option get_data_safe (get_message_payload m)), h) \<and>
    base\<lparr>msg_payload := msg_payload m\<rparr> = m"
proof -
  obtain obj where obj: "messages h ma = Some obj"
    using assms(2) by (auto simp: message_value_def split: option.splits)
  then have owners: "0 < message_owners h ma" using heap_ok_owners(3) [OF assms(1)] by simp
  let ?held = "h\<lparr>message_owners := (message_owners h)(ma := Suc (Suc (message_owners h ma)))\<rparr>"
  have "receive_on_heap ma h = (read_message (MessageWrapper (Owning ma)) ?held, h)"
    using owners by (simp add: receive_on_heap_def glue_defs fun_upd_back)
  moreover have "\<exists>base. read_message (MessageWrapper (Owning ma)) ?held =
      Done (base, map_option get_data_safe (get_message_payload m)) \<and> base\<lparr>msg_payload := msg_payload m\<rparr> = m"
    using assms(2) obj
    by (auto simp: read_message_def glue_defs get_message_payload_def split: option.splits)
  ultimately show ?thesis by simp
qed

theorem receive_reads_the_message_witness:
  "\<exists>base. receive_on_heap 1 (gw_heap received_world) = (Done (base, Some [7]), gw_heap received_world)"
proof -
  have "message_value (gw_heap received_world) 1 = Some ((blank_message MT_REQUEST)\<lparr>msg_payload := Some (Some [7])\<rparr>)"
    by (simp add: received_world_def glue_defs)
  moreover have "heap_ok (gw_heap received_world)"
    by (auto simp: received_world_def heap_ok_def glue_defs empty_heap_def)
  ultimately show ?thesis
    using receive_reads_the_message [of "gw_heap received_world" 1]
    by (fastforce simp: get_message_payload_def get_data_safe_def)
qed

text \<open>
  C32. A sent request or response does not keep its payload. If vsomeip keeps the message it is given until
  after \<^verbatim>\<open>send_internal\<close> has returned, the message is still there but its payload is gone, and an extern
  function of the same process that gets it reads freed memory. A published payload is handed
  over with an owner of its own, so it stays.
\<close>

theorem kept_message_loses_its_payload:
  assumes "heap_ok h" "payloads h pa = None" "messages h ma = None"
    and "fst (send_internal U V oc umsg app s) = Returns (Ok ())"
    and "send_internal_on_heap U V oc True pa ma blank umsg app s h = (r, h')"
  shows "if enum_value_or (attr_type (attributes_of U umsg)) UMESSAGE_TYPE_UNSPECIFIED = UMESSAGE_TYPE_PUBLISH
    then payloads h' pa = Some (set_data_safe (case umsg_payload umsg of Some bytes \<Rightarrow> bytes | None \<Rightarrow> [])) \<and>
      payload_owners h' pa = 1
    else messages h' ma \<noteq> None \<and> message_value h' ma = None \<and> fst (receive_on_heap ma h') = Undefined"
proof -
  let ?t = "enum_value_or (attr_type (attributes_of U umsg)) UMESSAGE_TYPE_UNSPECIFIED"
  from send_internal_on_heap_eq [OF assms(1-3), of U V oc True blank umsg app s] obtain header
    where h': "h' = sent_heap ?t pa ma header (case umsg_payload umsg of Some bytes \<Rightarrow> bytes | None \<Rightarrow> []) h"
    using assms(4,5) by auto
  show ?thesis
  proof (cases "?t = UMESSAGE_TYPE_PUBLISH")
    case True
    then show ?thesis by (simp add: h' sent_heap_def glue_defs)
  next
    case False
    then show ?thesis
      using assms(2) by (simp add: h' sent_heap_def receive_on_heap_def read_message_def glue_defs)
  qed
qed

theorem kept_message_loses_its_payload_witness:
  "\<exists>r h'. send_internal_on_heap permissive_up_rust (example_vsomeip 1) True True 1 2 None example_response ''app''
      (example_correlation, offered_requested_new, []) empty_heap = (r, h') \<and>
    messages h' 2 \<noteq> None \<and> fst (receive_on_heap 2 h') = Undefined"
proof -
  let ?s = "(example_correlation, offered_requested_new, [])"
  obtain r h' where out: "send_internal_on_heap permissive_up_rust (example_vsomeip 1) True True 1 2 None
      example_response ''app'' ?s empty_heap = (r, h')" by fastforce
  have "enum_value_or (attr_type (attributes_of permissive_up_rust example_response)) UMESSAGE_TYPE_UNSPECIFIED =
      UMESSAGE_TYPE_RESPONSE"
    by (simp add: example_response_def plain_attributes_def)
  then have "messages h' 2 \<noteq> None \<and> fst (receive_on_heap 2 h') = Undefined"
    using kept_message_loses_its_payload [OF empty_heap_ok example_response_sent out] by simp
  with out show ?thesis by blast
qed

end
