(* ===== verification/Vsomeip_Handlers.thy ===== *)
theory Vsomeip_Handlers
  imports Glue_Heap
begin

text \<open>
  The remaining functions of \<^verbatim>\<open>vsomeip-sys/src/glue_additions.rs\<close>: unwrapping the pointers to the runtime and to
  an application, and registering functions that are told when a service becomes available and
  when a subscription changes. A function pointer of \<^verbatim>\<open>extern_callback_wrappers.rs\<close> is a function on the state
  \<open>'s\<close> of the program; the glue (\<^verbatim>\<open>glue/application_registrations.cpp\<close>) gives vsomeip a closure around
  it. Which of the closures vsomeip calls, and when, is up to vsomeip.
\<close>

section \<open>Applications\<close>

text \<open>A wrapper holds a pointer, null or to an application that its other owners keep alive.\<close>

datatype application_wrapper = ApplicationWrapper "ApplicationName option"

fun application_get_pinned :: "application_wrapper \<Rightarrow> ApplicationName outcome" where
  "application_get_pinned (ApplicationWrapper ptr) = (case ptr of None \<Rightarrow> Panics | Some app \<Rightarrow> Returns app)"

definition make_application_wrapper_ptr :: "ApplicationName option \<Rightarrow> application_wrapper option" where
  "make_application_wrapper_ptr app_shared_ptr =
     (if app_shared_ptr = None then None else Some (ApplicationWrapper app_shared_ptr))"

text \<open>There is one runtime; its pointer is null when vsomeip could not be loaded.\<close>

datatype runtime_wrapper = RuntimeWrapper (runtime_loaded: bool)

definition runtime_get_pinned :: "runtime_wrapper \<Rightarrow> unit outcome" where
  "runtime_get_pinned w = (if runtime_loaded w then Returns () else Panics)"

section \<open>Functions vsomeip calls\<close>

text \<open>The sources name one availability state; \<open>AS_OTHER\<close> is any other.\<close>

datatype availability_state_e = AS_UNAVAILABLE | AS_OTHER u8

datatype 's availability_handler_fn_ptr =
  AvailabilityHandlerFnPtr "ServiceId \<Rightarrow> InstanceId \<Rightarrow> bool \<Rightarrow> 's \<Rightarrow> 's"

datatype 's subscription_status_handler_fn_ptr =
  SubscriptionStatusHandlerFnPtr "ServiceId \<Rightarrow> InstanceId \<Rightarrow> u16 \<Rightarrow> EventId \<Rightarrow> u16 \<Rightarrow> 's \<Rightarrow> 's"

type_synonym 's availability_state_handler = "ServiceId \<Rightarrow> InstanceId \<Rightarrow> availability_state_e \<Rightarrow> 's \<Rightarrow> 's"
type_synonym 's subscription_status_handler = "ServiceId \<Rightarrow> InstanceId \<Rightarrow> u16 \<Rightarrow> EventId \<Rightarrow> u16 \<Rightarrow> 's \<Rightarrow> 's"

text \<open>What an application has been given, the latest last.\<close>

record 's application_callbacks =
  availability_handlers ::
    "(ApplicationName \<times> ServiceId \<times> InstanceId \<times> u8 \<times> u32 \<times> 's availability_state_handler) list"
  subscription_handlers ::
    "(ApplicationName \<times> ServiceId \<times> InstanceId \<times> u16 \<times> EventId \<times> bool \<times> 's subscription_status_handler) list"

fun availability_closure :: "'s availability_handler_fn_ptr \<Rightarrow> 's availability_state_handler" where
  "availability_closure (AvailabilityHandlerFnPtr fn_ptr_handler) =
     (\<lambda>service inst availability_state.
        let available = \<not> (availability_state = AS_UNAVAILABLE) in fn_ptr_handler service inst available)"

definition register_availability_handler_fn_ptr_safe ::
    "ApplicationName \<Rightarrow> ServiceId \<Rightarrow> InstanceId \<Rightarrow> 's availability_handler_fn_ptr \<Rightarrow> u8 \<Rightarrow> u32 \<Rightarrow>
     's application_callbacks \<Rightarrow> 's application_callbacks" where
  "register_availability_handler_fn_ptr_safe app service inst fn_ptr_handler major_version minor_version cbs =
     cbs\<lparr>availability_handlers := availability_handlers cbs @
       [(app, service, inst, major_version, minor_version, availability_closure fn_ptr_handler)]\<rparr>"

fun subscription_closure :: "'s subscription_status_handler_fn_ptr \<Rightarrow> 's subscription_status_handler" where
  "subscription_closure (SubscriptionStatusHandlerFnPtr fn_ptr_handler) =
     (\<lambda>service inst eventgroup event status. fn_ptr_handler service inst eventgroup event status)"

definition register_subscription_status_handler_fn_ptr_safe ::
    "ApplicationName \<Rightarrow> ServiceId \<Rightarrow> InstanceId \<Rightarrow> u16 \<Rightarrow> EventId \<Rightarrow> 's subscription_status_handler_fn_ptr \<Rightarrow> bool \<Rightarrow>
     's application_callbacks \<Rightarrow> 's application_callbacks" where
  "register_subscription_status_handler_fn_ptr_safe app service inst eventgroup event fn_ptr_handler is_selective cbs =
     cbs\<lparr>subscription_handlers := subscription_handlers cbs @
       [(app, service, inst, eventgroup, event, is_selective, subscription_closure fn_ptr_handler)]\<rparr>"

text \<open>vsomeip reports availability states of a service instance to a handler it was given.\<close>

definition report_availability ::
    "'s availability_state_handler \<Rightarrow> ServiceId \<Rightarrow> InstanceId \<Rightarrow> availability_state_e list \<Rightarrow> 's \<Rightarrow> 's" where
  "report_availability handler service inst states = fold (handler service inst) states"

section \<open>Lemmas\<close>

text \<open>An application that was wrapped can be unwrapped: none of the transport's calls panics on it.\<close>

lemma wrapped_application_pinned:
  "make_application_wrapper_ptr p = Some w \<Longrightarrow> \<exists>app. p = Some app \<and> application_get_pinned w = Returns app"
  by (auto simp: make_application_wrapper_ptr_def split: if_splits)

lemma make_application_wrapper_agrees:
  "make_application_wrapper app found =
     (case make_application_wrapper_ptr (if found then Some app else None) of
        None \<Rightarrow> None
      | Some w \<Rightarrow> (case application_get_pinned w of Returns a \<Rightarrow> Some a | Panics \<Rightarrow> None))"
  by (simp add: make_application_wrapper_def make_application_wrapper_ptr_def)

text \<open>
  A registered function is called once for every state that is reported, in order, and is told
  that the service is unavailable for \<open>AS_UNAVAILABLE\<close> and for nothing else.
\<close>

lemma availability_reports_reach_the_handler:
  assumes "(app, service, inst, major_version, minor_version, handler) \<in> set (availability_handlers
      (register_availability_handler_fn_ptr_safe app service inst (AvailabilityHandlerFnPtr f) major_version minor_version cbs))"
    and "(app, service, inst, major_version, minor_version, handler) \<notin> set (availability_handlers cbs)"
  shows "report_availability handler s i states = fold (f s i) (map (\<lambda>st. st \<noteq> AS_UNAVAILABLE) states)"
proof -
  have "handler = availability_closure (AvailabilityHandlerFnPtr f)"
    using assms by (auto simp: register_availability_handler_fn_ptr_safe_def)
  then have "handler s i = (\<lambda>st. f s i (st \<noteq> AS_UNAVAILABLE))" by (simp add: fun_eq_iff)
  then show ?thesis by (simp add: report_availability_def fold_map comp_def)
qed

end
