(* ===== verification/Sys_Examples.thy ===== *)
theory Sys_Examples
  imports Glue_Engine Vsomeip_Handlers
begin

text \<open>
  The example programs of \<^verbatim>\<open>vsomeip-sys/examples\<close>, clients of the wrappers without the transport: a client
  that sends requests, a service, a publisher and a subscriber. Each waits until its application is
  registered, then makes its calls to vsomeip, and the client and the publisher go on for ever; here
  they run for any number of rounds. All of them handle vsomeip's objects through the wrappers, on
  the memory of \<open>Glue_Heap\<close>.
\<close>

section \<open>Starting\<close>

definition SAMPLE_SERVICE_ID :: ServiceId where "SAMPLE_SERVICE_ID = 0x1234"
definition SAMPLE_INSTANCE_ID :: InstanceId where "SAMPLE_INSTANCE_ID = 0x0001"
definition SAMPLE_INTERFACE_VERSION :: u8 where "SAMPLE_INTERFACE_VERSION = 0x01"
definition SAMPLE_EVENTGROUP_ID :: u16 where "SAMPLE_EVENTGROUP_ID = 0x4465"
definition SAMPLE_EVENT_ID :: EventId where "SAMPLE_EVENT_ID = 0x4465"
definition SAMPLE_METHOD_ID :: MethodId where "SAMPLE_METHOD_ID = 0x0421"

text \<open>
  \<open>permit\<close> is what tokio's \<^verbatim>\<open>Notify\<close> stores: one notification at most, until someone waits for it.
  The static holds it once an application has been started.
\<close>

fun sample_state_handler :: "state_type_e \<Rightarrow> bool option \<Rightarrow> bool option" where
  "sample_state_handler ST_REGISTERED client_registered =
     (case client_registered of Some permit \<Rightarrow> Some True | None \<Rightarrow> None)"
| "sample_state_handler ST_DEREGISTERED client_registered = client_registered"

definition start_app ::
    "vsomeip_api \<Rightarrow> available_state_handler_fn_ptr \<Rightarrow> ApplicationName \<Rightarrow> vsomeip_log \<Rightarrow> unit outcome \<times> vsomeip_log" where
  "start_app V state_handler app_name log =
     (let log1 = vsomeip_do app_name (Create_application None) log
      in case make_application_wrapper app_name (create_application V log app_name None) of
           None \<Rightarrow> (Panics, log1)
         | Some app \<Rightarrow>
             let log2 = vsomeip_do app Init log1;
                 log3 = register_state_handler_fn_ptr_safe app state_handler log2
             in (Returns (), vsomeip_do app Start log3))"

section \<open>The client\<close>

definition client_setup :: "vsomeip_api \<Rightarrow> ApplicationName \<Rightarrow> vsomeip_log \<Rightarrow> ApplicationName option \<times> vsomeip_log" where
  "client_setup V app_name log =
     (case make_application_wrapper app_name (get_application V log app_name) of
        None \<Rightarrow> (None, log)
      | Some app \<Rightarrow> (Some app, vsomeip_do app
          (Request_service SAMPLE_SERVICE_ID SAMPLE_INSTANCE_ID SAMPLE_INTERFACE_VERSION (ANY_MINOR V)) log))"

text \<open>
  One round, with the addresses of the new request and payload. The locals are dropped at its end, the
  payload first. \<open>sample_request\<close> is the header after the four fields have been set.
\<close>

definition sample_request :: "vsomeip_message \<Rightarrow> vsomeip_message" where
  "sample_request m = m\<lparr>msg_service := SAMPLE_SERVICE_ID, msg_instance := SAMPLE_INSTANCE_ID,
     msg_interface_version := SAMPLE_INTERFACE_VERSION, msg_method := SAMPLE_METHOD_ID\<rparr>"

definition client_round ::
    "vsomeip_api \<Rightarrow> u8 list \<Rightarrow> ApplicationName \<Rightarrow> addr \<Rightarrow> addr \<Rightarrow> vsomeip_payload \<Rightarrow> vsomeip_log \<Rightarrow> cpp_heap \<Rightarrow>
     (vsomeip_log \<times> cpp_heap) glue" where
  "client_round V data app ma pa blank log h =
     (let request = MessageWrapper (Owning ma);
          h1 = new_message ma \<lparr>mo_header = create_request V True, mo_payload = Null_ptr\<rparr> h
      in case update_message_base request sample_request h1 of
        Panicked \<Rightarrow> Panicked
      | Undefined \<Rightarrow> Undefined
      | Done h2 \<Rightarrow>
        (let payload_wrapper = PayloadWrapper (Owning pa);
             h3 = new_payload pa blank h2
         in case payload_set_data_safe payload_wrapper data h3 of
           Panicked \<Rightarrow> Panicked
         | Undefined \<Rightarrow> Undefined
         | Done h4 \<Rightarrow>
           (case message_set_payload request payload_wrapper h4 of
              Panicked \<Rightarrow> Panicked
            | Undefined \<Rightarrow> Undefined
            | Done h5 \<Rightarrow>
              (let (shared_ptr_message, h6) = message_get_shared_ptr request h5
               in case message_value h6 ma of
                 None \<Rightarrow> Undefined
               | Some m \<Rightarrow> Done (vsomeip_do app (Send m) log,
                   drop_message_wrapper request (drop_payload_wrapper payload_wrapper
                     (drop_message_ptr shared_ptr_message h6)))))))"

fun client_rounds ::
    "vsomeip_api \<Rightarrow> u8 list \<Rightarrow> ApplicationName \<Rightarrow> (addr \<times> addr \<times> vsomeip_payload) list \<Rightarrow> vsomeip_log \<Rightarrow> cpp_heap \<Rightarrow>
     (vsomeip_log \<times> cpp_heap) glue" where
  "client_rounds V data app [] log h = Done (log, h)"
| "client_rounds V data app ((ma, pa, blank) # rounds) log h =
     (case client_round V data app ma pa blank log h of
        Panicked \<Rightarrow> Panicked
      | Undefined \<Rightarrow> Undefined
      | Done (log1, h1) \<Rightarrow> client_rounds V data app rounds log1 h1)"

section \<open>The publisher\<close>

definition publisher_setup :: "vsomeip_api \<Rightarrow> ApplicationName \<Rightarrow> vsomeip_log \<Rightarrow> ApplicationName option \<times> vsomeip_log" where
  "publisher_setup V app_name log =
     (case make_application_wrapper app_name (get_application V log app_name) of
        None \<Rightarrow> (None, log)
      | Some app \<Rightarrow> (Some app, offer_single_event_safe app SAMPLE_SERVICE_ID SAMPLE_INSTANCE_ID SAMPLE_EVENT_ID
          SAMPLE_EVENTGROUP_ID
          (vsomeip_do app (Offer_service SAMPLE_SERVICE_ID SAMPLE_INSTANCE_ID SAMPLE_INTERFACE_VERSION 0) log)))"

text \<open>The pointer \<^verbatim>\<open>get_shared_ptr\<close> returns is moved into \<^verbatim>\<open>notify\<close>, which may keep it.\<close>

definition publisher_round ::
    "bool \<Rightarrow> u8 list \<Rightarrow> ApplicationName \<Rightarrow> addr \<Rightarrow> vsomeip_payload \<Rightarrow> vsomeip_log \<Rightarrow> cpp_heap \<Rightarrow>
     (vsomeip_log \<times> cpp_heap) glue" where
  "publisher_round keeps payload_data app pa blank log h =
     (let payload_wrapper = PayloadWrapper (Owning pa);
          h1 = new_payload pa blank h
      in case payload_set_data_safe payload_wrapper payload_data h1 of
        Panicked \<Rightarrow> Panicked
      | Undefined \<Rightarrow> Undefined
      | Done h2 \<Rightarrow>
        (let (ptr, h3) = payload_get_shared_ptr payload_wrapper h2
         in case payloads h3 pa of
           None \<Rightarrow> Undefined
         | Some v \<Rightarrow> Done (vsomeip_do app (Notify SAMPLE_SERVICE_ID SAMPLE_INSTANCE_ID SAMPLE_EVENT_ID v True) log,
             drop_payload_wrapper payload_wrapper (if keeps then h3 else drop_payload_ptr ptr h3))))"

section \<open>The service and the subscriber\<close>

definition service_setup ::
    "vsomeip_api \<Rightarrow> message_handler_fn_ptr \<Rightarrow> ApplicationName \<Rightarrow> vsomeip_log \<Rightarrow> ApplicationName option \<times> vsomeip_log" where
  "service_setup V on_request app_name log =
     (case make_application_wrapper app_name (get_application V log app_name) of
        None \<Rightarrow> (None, log)
      | Some app \<Rightarrow> (Some app,
          vsomeip_do app (Offer_service SAMPLE_SERVICE_ID SAMPLE_INSTANCE_ID SAMPLE_INTERFACE_VERSION 0)
            (register_message_handler_fn_ptr_safe app SAMPLE_SERVICE_ID SAMPLE_INSTANCE_ID SAMPLE_METHOD_ID on_request log)))"

definition subscriber_setup ::
    "vsomeip_api \<Rightarrow> u16 \<Rightarrow> u16 \<Rightarrow> u16 \<Rightarrow> message_handler_fn_ptr \<Rightarrow> 's availability_handler_fn_ptr \<Rightarrow>
     's subscription_status_handler_fn_ptr \<Rightarrow> ApplicationName \<Rightarrow> 's application_callbacks \<times> vsomeip_log \<Rightarrow>
     ApplicationName option \<times> 's application_callbacks \<times> vsomeip_log" where
  "subscriber_setup V any_service any_eventgroup any_event on_message on_availability_change on_subscription_status
       app_name = (\<lambda>(cbs, log).
     case make_application_wrapper app_name (get_application V log app_name) of
       None \<Rightarrow> (None, cbs, log)
     | Some app \<Rightarrow>
         let cbs1 = register_availability_handler_fn_ptr_safe app any_service (ANY_INSTANCE V)
               on_availability_change (ANY_MAJOR V) (ANY_MINOR V) cbs;
             cbs2 = register_subscription_status_handler_fn_ptr_safe app any_service (ANY_INSTANCE V) any_eventgroup
               any_event on_subscription_status True cbs1;
             log1 = register_message_handler_fn_ptr_safe app SAMPLE_SERVICE_ID SAMPLE_INSTANCE_ID SAMPLE_EVENT_ID
               on_message log;
             log2 = vsomeip_do app
               (Request_service SAMPLE_SERVICE_ID SAMPLE_INSTANCE_ID SAMPLE_INTERFACE_VERSION (ANY_MINOR V)) log1;
             log3 = request_single_event_safe app SAMPLE_SERVICE_ID SAMPLE_INSTANCE_ID SAMPLE_EVENT_ID
               SAMPLE_EVENTGROUP_ID log2
         in (Some app, cbs2, vsomeip_do app
               (Subscribe SAMPLE_SERVICE_ID SAMPLE_INSTANCE_ID SAMPLE_EVENTGROUP_ID SAMPLE_INTERFACE_VERSION
                 SAMPLE_EVENT_ID) log3))"

text \<open>
  Both handlers read a message they are lent through a wrapper of a copy. \<open>None\<close> is the branch in which the
  message has no payload.
\<close>

definition on_sample_message :: "addr \<Rightarrow> cpp_heap \<Rightarrow> (message_type_e \<times> u8 list option) glue \<times> cpp_heap" where
  "on_sample_message ma h =
     (let h1 = copy_message_ptr (Owning ma) h;
          msg_wrapper = MessageWrapper (Owning ma);
          res = (case read_message_base msg_wrapper h1 of
              Panicked \<Rightarrow> Panicked
            | Undefined \<Rightarrow> Undefined
            | Done base \<Rightarrow>
              (case message_get_payload msg_wrapper h1 of
                 Panicked \<Rightarrow> Panicked
               | Undefined \<Rightarrow> Undefined
               | Done None \<Rightarrow> Done (msg_message_type base, None)
               | Done (Some payload_wrapper) \<Rightarrow>
                 (case payload_get_data_safe payload_wrapper h1 of
                    Panicked \<Rightarrow> Panicked
                  | Undefined \<Rightarrow> Undefined
                  | Done payload \<Rightarrow> Done (msg_message_type base, Some payload))))
      in (res, drop_message_wrapper msg_wrapper h1))"

section \<open>Lemmas\<close>

text \<open>A round of the client sends the sample request with its payload and leaves nothing behind.\<close>

lemma client_round_sends:
  assumes "heap_ok h" "messages h ma = None" "payloads h pa = None"
  shows "client_round V data app ma pa blank log h =
    Done (vsomeip_do app (Send (set_message_payload (set_data_safe data) (sample_request (create_request V True)))) log, h)"
  using heap_ok_owners(1) [OF assms(1,3)] heap_ok_owners(2) [OF assms(1,2)] assms(2,3)
  by (simp add: client_round_def glue_defs fun_upd_back set_message_payload_def)

lemma client_rounds_send:
  assumes "heap_ok h" "\<And>ma pa blank. (ma, pa, blank) \<in> set rounds \<Longrightarrow> messages h ma = None \<and> payloads h pa = None"
  shows "client_rounds V data app rounds log h =
    Done (log @ replicate (length rounds)
      (app, Send (set_message_payload (set_data_safe data) (sample_request (create_request V True)))), h)"
  using assms(2)
proof (induction rounds arbitrary: log)
  case (Cons c rounds)
  obtain ma pa blank where c: "c = (ma, pa, blank)" by (cases c)
  have "messages h ma = None" "payloads h pa = None" using Cons.prems [of ma pa blank] by (simp_all add: c)
  from client_round_sends [OF assms(1) this, of V data app blank log] show ?case
    using Cons.IH [of "vsomeip_do app (Send (set_message_payload (set_data_safe data)
      (sample_request (create_request V True)))) log"] Cons.prems
    by (fastforce simp: c vsomeip_do_def)
qed simp

lemma publisher_round_notifies:
  assumes "heap_ok h" "payloads h pa = None"
  shows "publisher_round keeps data app pa blank log h =
    Done (vsomeip_do app (Notify SAMPLE_SERVICE_ID SAMPLE_INSTANCE_ID SAMPLE_EVENT_ID (set_data_safe data) True) log,
      if keeps then new_payload pa (set_data_safe data) h else h)"
  using heap_ok_owners(1) [OF assms] assms(2)
  by (simp add: publisher_round_def glue_defs fun_upd_back)

lemma on_sample_message_reads:
  assumes "heap_ok h" "message_value h ma = Some m"
  shows "on_sample_message ma h =
    (Done (msg_message_type m, map_option get_data_safe (get_message_payload m)), h)"
proof -
  obtain obj where obj: "messages h ma = Some obj"
    using assms(2) by (auto simp: message_value_def split: option.splits)
  then have "0 < message_owners h ma" using heap_ok_owners(3) [OF assms(1)] by simp
  with assms(2) obj show ?thesis
    by (auto simp: on_sample_message_def glue_defs get_message_payload_def fun_upd_back split: option.splits)
qed

text \<open>
  Client and service agree: what the client hands to vsomeip in a round is, once it arrives as a
  message of its own, read by the service's handler byte for byte.
\<close>

lemma sample_request_served:
  assumes "heap_ok h" "length data < 2 ^ 32"
    and "message_value h ma = Some (set_message_payload (set_data_safe data) (sample_request (create_request V True)))"
  shows "fst (on_sample_message ma h) = Done (msg_message_type (create_request V True), Some data)"
  using on_sample_message_reads [OF assms(1,3)] set_get_data_safe [OF assms(2)]
  by (simp add: get_message_payload_def set_message_payload_def sample_request_def)

end
