(* ===== verification/Message_Types.thy ===== *)
theory Message_Types
  imports Rpc_Roundtrip
begin

text \<open>
  What a message that is handed to a listener looks like: \<^verbatim>\<open>convert_vsomeip_msg_to_umsg\<close> of
  \<^verbatim>\<open>message_conversions.rs\<close> makes uProtocol messages whose attributes fit their type.
\<close>

section \<open>Well-typed messages\<close>

text \<open>The widths uProtocol allots to the parts of a URI.\<close>

definition uuri_in_range :: "uuri \<Rightarrow> bool" where
  "uuri_in_range u \<longleftrightarrow> ue_version_major u \<le> 0xFF \<and> resource_id u \<le> 0xFFFF"

text \<open>The attributes a message of each type has and those it does not have.\<close>

fun attributes_fit :: "umessage_type \<Rightarrow> uattributes \<Rightarrow> bool" where
  "attributes_fit UMESSAGE_TYPE_REQUEST a \<longleftrightarrow>
     attr_sink a \<noteq> None \<and> attr_ttl a \<noteq> None \<and> attr_reqid a = None \<and> attr_commstatus a = None"
| "attributes_fit UMESSAGE_TYPE_RESPONSE a \<longleftrightarrow>
     attr_sink a \<noteq> None \<and> attr_reqid a \<noteq> None \<and> attr_commstatus a \<noteq> None"
| "attributes_fit UMESSAGE_TYPE_PUBLISH a \<longleftrightarrow> attr_sink a = None \<and> attr_reqid a = None \<and> attr_commstatus a = None"
| "attributes_fit _ a \<longleftrightarrow> False"

fun umessage_type_of :: "message_type_e \<Rightarrow> umessage_type" where
  "umessage_type_of MT_REQUEST = UMESSAGE_TYPE_REQUEST"
| "umessage_type_of MT_RESPONSE = UMESSAGE_TYPE_RESPONSE"
| "umessage_type_of MT_ERROR = UMESSAGE_TYPE_RESPONSE"
| "umessage_type_of MT_NOTIFICATION = UMESSAGE_TYPE_PUBLISH"
| "umessage_type_of _ = UMESSAGE_TYPE_UNSPECIFIED"

lemma ucast_in_range: "(ucast (v :: u8) :: u32) \<le> 0xFF" "(ucast (r :: u16) :: u32) \<le> 0xFFFF"
proof -
  have "unat v < 256" "unat r < 65536" using unsigned_less [of v] unsigned_less [of r] by simp_all
  then show "(ucast v :: u32) \<le> 0xFF" "(ucast r :: u32) \<le> 0xFFFF"
    by (simp_all add: word_le_nat_alt unsigned_ucast_eq take_bit_nat_eq_self)
qed

lemma parts_in_range: "parts_law U \<Longrightarrow> try_from_parts U a e v r = Some u \<Longrightarrow> uuri_in_range u \<and> authority_name u = a"
  by (auto dest: parts_lawD simp: uuri_in_range_def ucast_in_range)

section \<open>Properties\<close>

text \<open>
  C17. Every message a listener is given is well typed. A SOME/IP message that converts becomes a message of the
  uProtocol type that corresponds to its own, with the attributes this type has and without
  those it must not have, a fresh id, the payload bytes of the SOME/IP message, and a source at the
  remote authority whose parts fit their widths; so does the sink of a request, at the local
  authority; and a response names the request it answers and the entity that sent it.
\<close>

theorem delivered_message_well_typed:
  assumes laws: "builder_laws U" "parts_law U"
    and conv: "convert_vsomeip_msg_to_umsg U V fresh authority self_uuri remote m r = (Returns (Ok umsg), r')"
  shows "\<exists>a src. umsg_attributes umsg = Some a \<and> attr_id a = Some fresh \<and>
    attr_type a = Known (umessage_type_of (msg_message_type m)) \<and>
    attributes_fit (umessage_type_of (msg_message_type m)) a \<and>
    attr_source a = Some src \<and> uuri_in_range src \<and> authority_name src = remote \<and>
    umsg_payload umsg = map_option get_data_safe (get_message_payload m) \<and>
    (msg_message_type m = MT_REQUEST \<longrightarrow>
      (\<exists>sink. attr_sink a = Some sink \<and> uuri_in_range sink \<and> authority_name sink = authority)) \<and>
    (msg_message_type m = MT_RESPONSE \<or> msg_message_type m = MT_ERROR \<longrightarrow>
      (\<exists>q sink. ue_request_correlation r (get_request V m) = Some (q, sink) \<and> attr_reqid a = Some q \<and>
        attr_sink a = Some sink))"
proof -
  obtain payload where p: "get_message_payload m = Some payload"
    using conv by (auto simp: convert_vsomeip_msg_to_umsg_def split: option.splits)
  note defs = convert_vsomeip_msg_to_umsg_def p Let_def
  note builders = laws(1) [unfolded builder_laws_def, THEN conjunct1]
    laws(1) [unfolded builder_laws_def, THEN conjunct2, THEN conjunct1]
    laws(1) [unfolded builder_laws_def, THEN conjunct2, THEN conjunct2]
  note splits = option.splits prod.splits sum.splits outcome.splits if_splits
  show ?thesis
  proof (cases "msg_message_type m")
    case MT_REQUEST
    with conv show ?thesis
      by (auto simp: defs convert_vsomeip_mt_request_to_umsg_def dest!: parts_in_range [OF laws(2)]
          builders(1) [rule_format] split: splits)
  next
    case MT_RESPONSE
    with conv show ?thesis
      by (auto simp: defs convert_vsomeip_mt_response_to_umsg_def remove_ue_request_correlation_def
          dest!: parts_in_range [OF laws(2)] builders(2) [rule_format] split: splits)
  next
    case MT_ERROR
    with conv show ?thesis
      by (auto simp: defs convert_vsomeip_mt_error_to_umsg_def remove_ue_request_correlation_def
          dest!: parts_in_range [OF laws(2)] builders(2) [rule_format] split: splits)
  next
    case MT_NOTIFICATION
    with conv show ?thesis
      by (auto simp: defs convert_vsomeip_mt_notification_to_umsg_def
          dest!: parts_in_range [OF laws(2)] builders(3) [rule_format] split: splits)
  qed (use conv in \<open>simp_all add: defs\<close>)
qed

theorem delivered_message_well_typed_witness:
  "\<exists>umsg r' a. convert_vsomeip_msg_to_umsg permissive_up_rust (example_vsomeip 5) (UUID 7) ''host''
      example_method ''remote'' example_request rpc_correlation_new = (Returns (Ok umsg), r') \<and>
    umsg_attributes umsg = Some a \<and> attributes_fit UMESSAGE_TYPE_REQUEST a"
  using delivered_message_well_typed [OF permissive_laws(3,2) example_request_converted] example_request_converted
  by (fastforce simp: example_request_def blank_message_def)

end
