(* ===== verification/Registry_Atomicity.thy ===== *)
theory Registry_Atomicity
  imports Registry_Locks
begin

text \<open>
  What the locks of \<open>Registry_Locks\<close> achieve: every history of calls and returns is one in which each
  operation takes effect in one step between its call and its return, so the step relation
  of \<open>Handler_Sharing\<close> describes overlapping calls too; and every call returns.
\<close>

section \<open>The locks in every reachable state\<close>

lemma registry_move_lock_inv:
  assumes "registry_move fair B s s'" "lock_inv s"
  shows "lock_inv s'"
  using assms(1)
proof cases
  case (acquires th op l ls)
  then show ?thesis using lock_inv_acquire [OF assms(2)] by blast
next
  case (runs th op st pc w)
  have "stage_fits op st" using lock_invD(1) [OF assms(2), of th] runs(2) by simp
  then have pc: "locks_held pc = locks_held (Running op st) - stage_drops st" "exclusive pc = writes op" "thread_ok pc"
    using run_stage_held [OF runs(3)] run_stage_ok [OF runs(3)] by blast+
  have "lock_inv ((drop_guards th (stage_drops st) s)
      \<lparr>rs_world := w, rs_threads := (rs_threads s)(th := pc), rs_history := rs_history s\<rparr>)"
    by (rule lock_inv_update [OF assms(2) pc(3) runs(2) pc(1)]) (simp add: pc(2))
  then show ?thesis by (simp add: runs(1) drop_guards_def)
next
  case (drops th op ans l ls)
  have "distinct (l # ls) \<and> set ls \<subseteq> set (lock_sequence op)" using lock_invD(1) [OF assms(2), of th] drops(2) by simp
  with drops(2) have "lock_inv ((drop_guards th {l} s)\<lparr>rs_world := rs_world s,
      rs_threads := (rs_threads s)(th := Unwinding op ans ls), rs_history := rs_history s\<rparr>)"
    by (intro lock_inv_update [OF assms(2)]) auto
  then show ?thesis by (simp add: drops(1) drop_guards_def)
next
  case (returns th op ans)
  then have "lock_inv ((drop_guards th {} s)\<lparr>rs_world := rs_world s,
      rs_threads := (rs_threads s)(th := Idle), rs_history := rs_history s @ [Returned th ans]\<rparr>)"
    by (intro lock_inv_update [OF assms(2)]) auto
  then show ?thesis by (simp add: returns(1))
qed

lemma registry_step_lock_inv:
  assumes "registry_step fair B s s'" "lock_inv s"
  shows "lock_inv s'"
  using assms(1)
proof cases
  case (called th op)
  then have "lock_inv ((drop_guards th {} s)\<lparr>rs_world := rs_world s,
      rs_threads := (rs_threads s)(th := Locking op (lock_sequence op)),
      rs_history := rs_history s @ [Called th op]\<rparr>)"
    by (intro lock_inv_update [OF assms(2)]) auto
  then show ?thesis by (simp add: called(1))
qed (blast intro: registry_move_lock_inv assms(2))

lemma registry_reachable_lock_inv: "registry_reachable fair B s \<Longrightarrow> lock_inv s"
  unfolding registry_reachable_def
  by (induction rule: rtranclp_induct) (auto intro: lock_inv_init registry_step_lock_inv)

section \<open>What a writer has done so far\<close>

text \<open>
  \<open>partway B op st A w\<close>: an operation that started on \<open>A\<close> and has come to \<open>st\<close> has made \<open>w\<close> of it.
\<close>

fun partway ::
    "'m config_bimap \<Rightarrow> registry_op \<Rightarrow> stage \<Rightarrow> 'm handler_world \<Rightarrow> 'm handler_world \<Rightarrow> bool" where
  "partway B (Get_handler ch t c) (Id_taken i) A w \<longleftrightarrow>
     (\<exists>F. find_available_message_handler_id ch (world_free A) = (Ok i, F) \<and> w = set_free F A)"
| "partway B (Get_handler ch t c) (Id_mapped i) A w \<longleftrightarrow>
     (\<exists>F ids. find_available_message_handler_id ch (world_free A) = (Ok i, F) \<and>
       insert_message_handler_id_transport i t (world_ids A) = (Ok (), ids) \<and> w = set_ids ids (set_free F A))"
| "partway B (Get_handler ch t c) (Roll_back_free i err) A w \<longleftrightarrow>
     (\<exists>F ids m. find_available_message_handler_id ch (world_free A) = (Ok i, F) \<and>
       insert_message_handler_id_transport i t (world_ids A) = (Ok (), ids) \<and>
       insert_message_handler_id_and_listener_config B i c (world_registries A t) = (Inl err, m) \<and>
       w = set_registry t m (set_ids ids (set_free F A)))"
| "partway B (Get_handler ch t c) (Roll_back_drop i err) A w \<longleftrightarrow>
     (\<exists>F ids m. find_available_message_handler_id ch (world_free A) = (Ok i, F) \<and>
       insert_message_handler_id_transport i t (world_ids A) = (Ok (), ids) \<and>
       insert_message_handler_id_and_listener_config B i c (world_registries A t) = (Inl err, m) \<and>
       w = set_registry t m (set_ids ids (set_free (snd (free_message_handler_id i F)) A)))"
| "partway B (Get_handler ch t c) (Roll_back_ids i err) A w \<longleftrightarrow>
     (\<exists>F ids m. find_available_message_handler_id ch (world_free A) = (Ok i, F) \<and>
       insert_message_handler_id_transport i t (world_ids A) = (Ok (), ids) \<and>
       insert_message_handler_id_and_listener_config B i c (world_registries A t) = (Inl err, m) \<and>
       w = set_registry t m (set_ids ids (set_free (snd (free_message_handler_id i F)) A)))"
| "partway B (Release_handler t c) (Found i) A w \<longleftrightarrow>
     get_message_handler_id_for_listener_config B (world_registries A t) c = Some i \<and> w = A"
| "partway B (Release_handler t c) (Freed i) A w \<longleftrightarrow>
     get_message_handler_id_for_listener_config B (world_registries A t) c = Some i \<and>
     w = set_free (snd (free_message_handler_id i (world_free A))) A"
| "partway B (Release_handler t c) (Unmapped i) A w \<longleftrightarrow>
     get_message_handler_id_for_listener_config B (world_registries A t) c = Some i \<and>
     w = set_ids (snd (remove_message_handler_id_transport i (world_ids A)))
       (set_free (snd (free_message_handler_id i (world_free A))) A)"
| "partway B op st A w \<longleftrightarrow> w = A"

lemmas world_updates = set_free_def set_ids_def set_registry_def

lemma partway_step:
  "run_stage B op st w = (Running op' st', w') \<Longrightarrow> partway B op st A w \<Longrightarrow> stage_fits op st \<Longrightarrow>
   writes op \<Longrightarrow> op' = op \<and> partway B op st' A w'"
  by (cases op; cases st) (auto simp: world_updates split: prod.splits sum.splits option.splits)

text \<open>The last change completes the operation as one step has it.\<close>

lemma partway_done:
  "run_stage B op st w = (Unwinding op' ans ls, w') \<Longrightarrow> partway B op st A w \<Longrightarrow> stage_fits op st \<Longrightarrow>
   writes op \<Longrightarrow> op' = op \<and> registry_atomic B op A = (ans, w')"
  by (cases op; cases st)
    (auto simp: world_updates get_message_handler_def release_message_handler_def inserted_answer_def
      duplicate_answer_def Let_def split: prod.splits sum.splits option.splits
      message_handler_id_and_listener_config_error.splits outcome.splits)

lemma partway_other:
  "partway B op st A w \<Longrightarrow> Lock_config t \<notin> set (lock_sequence op) \<Longrightarrow>
   world_registries w t = world_registries A t"
  by (cases op; cases st) (auto simp: world_updates)

lemma run_stage_next:
  "run_stage B op st w = (pc, w') \<Longrightarrow> stage_fits op st \<Longrightarrow>
   (\<exists>st'. pc = Running op st') \<or> (\<exists>ans ls. pc = Unwinding op ans ls)"
  by (cases op; cases st) (auto split: prod.splits sum.splits option.splits)

lemma writer_locks: "writes op \<Longrightarrow> \<exists>t. lock_sequence op = [Lock_ids, Lock_free, Lock_config t]"
  by (cases op) auto

section \<open>The simulation\<close>

text \<open>
  The shared maps are those of the specification, but for what the one writer inside has done.
\<close>

definition world_rel :: "'m config_bimap \<Rightarrow> 'm registry_state \<Rightarrow> 'm handler_world \<Rightarrow> bool" where
  "world_rel B s A \<longleftrightarrow>
     (\<forall>th op st. rs_threads s th = Running op st \<and> writes op \<longrightarrow> partway B op st A (rs_world s)) \<and>
     ((\<forall>th. \<not> writer_inside s th) \<longrightarrow> rs_world s = A)"

lemma writer_inside_held:
  assumes "rs_threads s th = Running op st" "writes op"
  shows "exclusive (rs_threads s th)" "Lock_ids \<in> locks_held (rs_threads s th)"
    "Lock_config t \<in> set (lock_sequence op) \<Longrightarrow> Lock_config t \<in> locks_held (rs_threads s th)"
  using assms writer_locks [of op] by (auto split: stage.splits)

lemma one_writer_inside:
  assumes "lock_inv s" "rs_threads s th = Running op st" "writes op" "writer_inside s th'"
  shows "th' = th"
proof -
  obtain op' st' where "rs_threads s th' = Running op' st'" "writes op'"
    using assms(4) unfolding writer_inside_def by blast
  then show ?thesis
    using lock_exclusion [OF assms(1) writer_inside_held(1,2) [OF assms(2,3)] writer_inside_held(2)] by blast
qed

text \<open>A reader sees the maps of the specification: a writer inside would exclude it.\<close>

lemma reader_answer:
  assumes inv: "lock_inv s" and rel: "world_rel B s A" and th: "rs_threads s th = Running op st"
    and r: "\<not> writes op" and run: "run_stage B op st (rs_world s) = (pc, w)"
  shows "\<exists>ans ls. pc = Unwinding op ans ls \<and> registry_atomic B op A = (ans, A)"
proof (cases "\<exists>th'. writer_inside s th'")
  case False
  then have "rs_world s = A" using rel by (simp add: world_rel_def)
  with r run show ?thesis by (cases op) auto
next
  case True
  then obtain th' op' st' where w: "rs_threads s th' = Running op' st'" "writes op'"
    unfolding writer_inside_def by blast
  note h = writer_inside_held [OF w]
  have part: "partway B op' st' A (rs_world s)" using rel w unfolding world_rel_def by blast
  have fits: "stage_fits op st" using lock_invD(1) [OF inv, of th] th by simp
  then have start: "st = At_start" using r by (cases op; cases st) auto
  have other: "l \<notin> locks_held (rs_threads s th')" if "l \<in> set (lock_sequence op)" for l
  proof
    assume "l \<in> locks_held (rs_threads s th')"
    with that th start have "th = th'" by (intro lock_exclusion [OF inv h(1)]) auto
    with w th r show False by simp
  qed
  have same: "world_registries (rs_world s) t = world_registries A t"
    if "Lock_config t \<notin> locks_held (rs_threads s th')" for t
    using that h(3) partway_other [OF part] by blast
  show ?thesis
  proof (cases op)
    case (Transport_of live i)
    with other [of Lock_ids] h(2) show ?thesis by simp
  qed (use r run other same in auto)
qed

lemma acquires_writer:
  assumes inv: "lock_inv s" and rel: "world_rel B s A" and th: "rs_threads s th = Locking op [l]" and w: "writes op"
  shows "rs_world s = A" "\<not> writer_inside s th'"
proof -
  obtain t where seq: "lock_sequence op = [Lock_ids, Lock_free, Lock_config t]" using writer_locks [OF w] by blast
  with lock_invD(1) [OF inv, of th] th have "l = Lock_config t" by (auto simp: Cons_eq_append_conv)
  with seq th w have h: "exclusive (rs_threads s th)" "Lock_ids \<in> locks_held (rs_threads s th)" by auto
  have none: "\<not> writer_inside s th'" for th'
  proof
    assume "writer_inside s th'"
    then obtain op' st' where w': "rs_threads s th' = Running op' st'" "writes op'"
      unfolding writer_inside_def by blast
    from lock_exclusion [OF inv h writer_inside_held(2) [OF w']] w' th show False by simp
  qed
  then show "\<not> writer_inside s th'" .
  from none rel show "rs_world s = A" by (simp add: world_rel_def)
qed

lemma simulation_move:
  assumes mv: "registry_move fair B s s'" and inv: "lock_inv s" and rel: "world_rel B s A"
  shows "\<exists>A'. world_rel B s' A' \<and> (atomic_step B)\<^sup>*\<^sup>* (atomic_of s A) (atomic_of s' A')"
  using mv
proof cases
  case (acquires th op l ls)
  let ?pc = "if ls = [] then Running op At_start else Locking op ls"
  have s': "rs_threads s' = (rs_threads s)(th := ?pc)" "rs_world s' = rs_world s" "rs_history s' = rs_history s"
    by (simp_all add: acquires(1) take_guard_def)
  have "atomic_view \<circ> rs_threads s' = atomic_view \<circ> rs_threads s"
    using acquires(2) by (auto simp: s' fun_eq_iff)
  then have view: "atomic_of s' A = atomic_of s A" by (simp add: atomic_of_def s')
  have "world_rel B s' A"
  proof (cases "writes op \<and> ls = []")
    case True
    note aw = acquires_writer [OF inv rel acquires(2) [unfolded conjunct2 [OF True]] conjunct1 [OF True]]
    then show ?thesis
      using True by (cases op) (auto simp: world_rel_def writer_inside_def s' split: if_splits)
  next
    case False
    have "writer_inside s' th' \<longleftrightarrow> writer_inside s th'" for th'
      using False acquires(2) by (auto simp: writer_inside_def s')
    with False rel acquires(2) show ?thesis by (auto simp: world_rel_def s' split: if_splits)
  qed
  with view show ?thesis by auto
next
  case (runs th op st pc w)
  have s': "rs_threads s' = (rs_threads s)(th := pc)" "rs_world s' = w" "rs_history s' = rs_history s"
    by (simp_all add: runs(1) drop_guards_def)
  have fits: "stage_fits op st" using lock_invD(1) [OF inv, of th] runs(2) by simp
  have effect: "(atomic_step B)\<^sup>*\<^sup>* (atomic_of s A) (atomic_of s' A')"
    if "pc = Unwinding op ans ls" "registry_atomic B op A = (ans, A')" for ans ls A'
  proof -
    have "atomic_step B (atomic_of s A) ((atomic_of s A)\<lparr>as_world := A',
        as_threads := (as_threads (atomic_of s A))(th := Answered op ans)\<rparr>)"
      using runs(2) that(2) by (intro atomic_step.takes_effect) (simp_all add: atomic_of_def)
    moreover have "(atomic_of s A)\<lparr>as_world := A',
        as_threads := (as_threads (atomic_of s A))(th := Answered op ans)\<rparr> = atomic_of s' A'"
      using that(1) by (simp add: atomic_of_def s' fun_upd_comp)
    ultimately show ?thesis by simp
  qed
  show ?thesis
  proof (cases "writes op")
    case False
    obtain ans ls where pc: "pc = Unwinding op ans ls" "registry_atomic B op A = (ans, A)"
      using reader_answer [OF inv rel runs(2) False runs(3)] by blast
    have "w = rs_world s" using run_stage_reader [OF runs(3) fits False] by simp
    moreover have "writer_inside s' th' \<longleftrightarrow> writer_inside s th'" for th'
      using False runs(2) pc by (auto simp: writer_inside_def s')
    ultimately have "world_rel B s' A"
      using rel False runs(2) pc by (auto simp: world_rel_def s' split: if_splits)
    with effect [OF pc] show ?thesis by blast
  next
    case True
    have part: "partway B op st A (rs_world s)" using rel True runs(2) by (auto simp: world_rel_def)
    have only: "\<not> (rs_threads s th' = Running op' st' \<and> writes op')" if "th' \<noteq> th" for th' op' st'
      using one_writer_inside [OF inv runs(2) True, of th'] that unfolding writer_inside_def by blast
    from run_stage_next [OF runs(3) fits] show ?thesis
    proof (elim disjE exE)
      fix st' assume pc: "pc = Running op st'"
      from partway_step [OF runs(3) [unfolded pc] part fits True]
      have "world_rel B s' A" using only True pc
        by (auto simp: world_rel_def writer_inside_def s' split: if_splits)
      moreover have "atomic_of s' A = atomic_of s A"
        using pc runs(2) by (auto simp: atomic_of_def s' fun_eq_iff)
      ultimately show ?thesis by auto
    next
      fix ans ls assume pc: "pc = Unwinding op ans ls"
      have "registry_atomic B op A = (ans, w)"
        using partway_done [OF runs(3) [unfolded pc] part fits True] by blast
      moreover have "world_rel B s' w"
        using only pc by (auto simp: world_rel_def s' split: if_splits)
      ultimately show ?thesis using effect [OF pc] by blast
    qed
  qed
next
  case (drops th op ans l ls)
  then have "atomic_of s' A = atomic_of s A" "\<And>th'. writer_inside s' th' \<longleftrightarrow> writer_inside s th'"
    by (auto simp: atomic_of_def drop_guards_def writer_inside_def fun_eq_iff)
  moreover have "world_rel B s' A"
    using rel drops calculation(2) by (auto simp: world_rel_def drop_guards_def split: if_splits)
  ultimately show ?thesis by auto
next
  case (returns th op ans)
  have "atomic_step B (atomic_of s A) ((atomic_of s A)\<lparr>as_threads := (as_threads (atomic_of s A))(th := At_rest),
      as_history := as_history (atomic_of s A) @ [Returned th ans]\<rparr>)"
    using returns(2) by (intro atomic_step.answers) (simp add: atomic_of_def)
  then have "atomic_step B (atomic_of s A) (atomic_of s' A)"
    by (simp add: atomic_of_def returns(1) fun_upd_comp)
  moreover have "writer_inside s' th' \<longleftrightarrow> writer_inside s th'" for th'
    using returns by (auto simp: writer_inside_def)
  then have "world_rel B s' A"
    using rel returns by (auto simp: world_rel_def split: if_splits)
  ultimately show ?thesis by blast
qed

lemma simulation_step:
  assumes "registry_step fair B s s'" "lock_inv s" "world_rel B s A"
  shows "\<exists>A'. world_rel B s' A' \<and> (atomic_step B)\<^sup>*\<^sup>* (atomic_of s A) (atomic_of s' A')"
  using assms(1)
proof cases
  case (called th op)
  have "atomic_step B (atomic_of s A) ((atomic_of s A)\<lparr>as_threads := (as_threads (atomic_of s A))(th := Pending op),
      as_history := as_history (atomic_of s A) @ [Called th op]\<rparr>)"
    using called(2) by (intro atomic_step.calls) (simp add: atomic_of_def)
  then have "atomic_step B (atomic_of s A) (atomic_of s' A)"
    by (simp add: atomic_of_def called(1) fun_upd_comp)
  moreover have "writer_inside s' th' \<longleftrightarrow> writer_inside s th'" for th'
    using called by (auto simp: writer_inside_def)
  then have "world_rel B s' A"
    using assms(3) called by (auto simp: world_rel_def split: if_splits)
  ultimately show ?thesis by blast
qed (blast intro: simulation_move assms(2,3))

lemma simulation_reachable:
  assumes "registry_reachable fair B s"
  shows "\<exists>A. world_rel B s A \<and> atomic_reachable B (atomic_of s A)"
  using assms unfolding registry_reachable_def
proof (induction rule: rtranclp_induct)
  case base
  have "atomic_of (registry_init B) (handler_world_init B) = atomic_init B"
    by (simp add: atomic_of_def atomic_init_def registry_init_def comp_def)
  then show ?case
    by (auto simp: atomic_reachable_def world_rel_def registry_init_def intro!: exI [of _ "handler_world_init B"])
next
  case (step s s')
  then have "lock_inv s" by (intro registry_reachable_lock_inv) (simp add: registry_reachable_def)
  with step obtain A A' where "world_rel B s' A'" "atomic_reachable B (atomic_of s A)"
    "(atomic_step B)\<^sup>*\<^sup>* (atomic_of s A) (atomic_of s' A')"
    using simulation_step by blast
  then show ?case unfolding atomic_reachable_def by (meson rtranclp_trans)
qed

lemma atomic_reachable_pool:
  assumes "atomic_reachable B a"
  shows "handler_reachable B (as_world a)"
  using assms unfolding atomic_reachable_def
proof (induction rule: rtranclp_induct)
  case base
  show ?case by (simp add: atomic_init_def handler_reachable.start)
next
  case (step a a')
  have "handler_reachable B w" if "registry_atomic B op (as_world a) = (ans, w)" for op ans w
  proof (cases op)
    case (Get_handler ch t c)
    with that step.IH show ?thesis
      by (auto split: prod.splits intro: handler_reachable.step handler_step.acquire)
  next
    case (Release_handler t c)
    with that step.IH show ?thesis
      by (auto split: prod.splits intro: handler_reachable.step handler_step.release)
  qed (use that step.IH in auto)
  with step show ?case by (auto elim!: atomic_step.cases)
qed

section \<open>Every call returns\<close>

fun stage_rank :: "stage \<Rightarrow> nat" where
  "stage_rank At_start = 10"
| "stage_rank (Id_taken i) = 9"
| "stage_rank (Id_mapped i) = 8"
| "stage_rank (Roll_back_free i err) = 7"
| "stage_rank (Roll_back_drop i err) = 6"
| "stage_rank (Roll_back_ids i err) = 5"
| "stage_rank (Found i) = 7"
| "stage_rank (Freed i) = 6"
| "stage_rank (Unmapped i) = 5"

fun thread_rank :: "registry_thread \<Rightarrow> nat" where
  "thread_rank Idle = 0"
| "thread_rank (Locking op ls) = 10 + length ls"
| "thread_rank (Running op st) = stage_rank st"
| "thread_rank (Unwinding op ans ls) = 1 + length ls"

definition active :: "'m registry_state \<Rightarrow> nat set" where
  "active s = {th. rs_threads s th \<noteq> Idle}"

lemma run_stage_rank:
  "run_stage B op st w = (pc, w') \<Longrightarrow> stage_fits op st \<Longrightarrow> thread_rank pc < stage_rank st"
  by (cases op; cases st) (auto split: prod.splits sum.splits option.splits)

lemma registry_move_thread:
  assumes "registry_move fair B s s'" "lock_inv s"
  obtains th pc where "rs_threads s' = (rs_threads s)(th := pc)" "thread_rank pc < thread_rank (rs_threads s th)"
  using assms(1)
proof cases
  case (acquires th op l ls)
  then show ?thesis using that by (simp add: take_guard_def)
next
  case (runs th op st pc w)
  have "stage_fits op st" using lock_invD(1) [OF assms(2), of th] runs(2) by simp
  with run_stage_rank [OF runs(3)] runs show ?thesis by (intro that [of th pc]) simp_all
qed (use that in simp_all)

lemma registry_move_measure:
  assumes mv: "registry_move fair B s s'" and inv: "lock_inv s" and fin: "finite (active s)"
  shows "finite (active s')" "active s' \<subseteq> active s"
    "(\<Sum>th\<in>active s'. thread_rank (rs_threads s' th)) < (\<Sum>th\<in>active s. thread_rank (rs_threads s th))"
proof -
  obtain th pc where th: "rs_threads s' = (rs_threads s)(th := pc)" "thread_rank pc < thread_rank (rs_threads s th)"
    using registry_move_thread [OF mv inv] .
  then have active: "th \<in> active s" by (auto simp: active_def)
  with th(1) show sub: "active s' \<subseteq> active s" by (auto simp: active_def)
  with fin show "finite (active s')" by (rule finite_subset [rotated])
  have "(\<Sum>x\<in>active s'. thread_rank (rs_threads s' x)) \<le> (\<Sum>x\<in>active s. thread_rank (rs_threads s' x))"
    using sub fin by (intro sum_mono2) auto
  also have "\<dots> < (\<Sum>x\<in>active s. thread_rank (rs_threads s x))"
    using fin active th by (intro sum_strict_mono_ex1) auto
  finally show "(\<Sum>th\<in>active s'. thread_rank (rs_threads s' th)) < (\<Sum>th\<in>active s. thread_rank (rs_threads s th))" .
qed

lemma registry_reachable_finite:
  assumes "registry_reachable fair B s"
  shows "finite (active s)"
  using assms unfolding registry_reachable_def
proof (induction rule: rtranclp_induct)
  case base
  show ?case by (simp add: active_def registry_init_def)
next
  case (step s s')
  then have inv: "lock_inv s" by (intro registry_reachable_lock_inv) (simp add: registry_reachable_def)
  from step.hyps(2) show ?case
  proof cases
    case (called th op)
    then have "active s' \<subseteq> insert th (active s)" by (auto simp: active_def)
    with step.IH show ?thesis by (meson finite_insert finite_subset)
  next
    case moved
    then show ?thesis using registry_move_measure(1) [OF _ inv step.IH] by blast
  qed
qed

text \<open>All threads take locks in one order: who waits holds only locks above the one it waits for.\<close>

fun lock_order :: "registry_lock \<Rightarrow> nat" where
  "lock_order Lock_ids = 2"
| "lock_order Lock_free = 1"
| "lock_order (Lock_config t) = 0"

lemma waits_below_held:
  "thread_ok (Locking op (k # ks)) \<Longrightarrow> l \<in> locks_held (Locking op (k # ks)) \<Longrightarrow> lock_order k < lock_order l"
  by (cases op) (auto simp: Cons_eq_append_conv)

lemma length_lock_sequence: "length (lock_sequence op) \<le> 3"
  by (cases op) auto

lemma thread_rank_bound:
  assumes "thread_ok pc"
  shows "thread_rank pc \<le> 13"
proof (cases pc)
  case (Locking op ls)
  then obtain ks where "lock_sequence op = ks @ ls" using assms by auto
  with length_lock_sequence [of op] show ?thesis by (simp add: Locking)
next
  case (Running op st)
  then show ?thesis by (cases st) auto
next
  case (Unwinding op ans ls)
  with assms have ls: "distinct ls" "set ls \<subseteq> set (lock_sequence op)" by simp_all
  have "card (set ls) \<le> card (set (lock_sequence op))" by (rule card_mono [OF finite_set ls(2)])
  then have "length ls \<le> card (set (lock_sequence op))" by (simp only: distinct_card [OF ls(1)])
  with length_lock_sequence [of op] card_length [of "lock_sequence op"] show ?thesis
    unfolding Unwinding by (simp only: thread_rank.simps)
qed simp

text \<open>The waiting thread whose lock comes last in the order can have it, or a writer waiting for it can.\<close>

lemma registry_move_exists:
  assumes inv: "lock_inv s" and fin: "finite (active s)" and "rs_threads s th \<noteq> Idle"
  shows "\<exists>s'. registry_move fair B s s'"
proof (cases "\<exists>th op ls. rs_threads s th = Locking op ls \<and> (\<forall>th'. rs_threads s th' \<noteq> Idle \<longrightarrow> (\<exists>op' ls'. rs_threads s th' = Locking op' ls'))")
  case False
  then obtain th' where "rs_threads s th' \<noteq> Idle" "\<not> (\<exists>op' ls'. rs_threads s th' = Locking op' ls')"
    using assms(3) by (cases "rs_threads s th") blast+
  then consider op st where "rs_threads s th' = Running op st"
    | op ans ls where "rs_threads s th' = Unwinding op ans ls" by (cases "rs_threads s th'") auto
  then show ?thesis
  proof cases
    case 1
    obtain pc w where "run_stage B op st (rs_world s) = (pc, w)" by (cases "run_stage B op st (rs_world s)")
    from registry_move.runs [OF 1 this] show ?thesis by blast
  next
    case 2
    then show ?thesis by (cases ls) (blast intro: registry_move.intros)+
  qed
next
  case True
  then have waiting: "\<exists>op k ks. rs_threads s th' = Locking op (k # ks)" if "rs_threads s th' \<noteq> Idle" for th'
    using that lock_invD(1) [OF inv, of th'] by (metis list.exhaust thread_ok.simps(2))
  define first where "first th' = (case rs_threads s th' of Locking op (k # ks) \<Rightarrow> lock_order k | _ \<Rightarrow> 0)" for th'
  obtain th1 where th1: "rs_threads s th1 \<noteq> Idle" "\<forall>th'. rs_threads s th' \<noteq> Idle \<longrightarrow> first th1 \<le> first th'"
    using ex_has_least_nat [of "\<lambda>th'. rs_threads s th' \<noteq> Idle" th first] assms(3) by blast
  obtain op k ks where w: "rs_threads s th1 = Locking op (k # ks)" using waiting [OF th1(1)] by blast
  have free: "k \<notin> locks_held (rs_threads s th')" for th'
  proof
    assume h: "k \<in> locks_held (rs_threads s th')"
    then have "rs_threads s th' \<noteq> Idle" by auto
    then obtain op' k' ks' where w': "rs_threads s th' = Locking op' (k' # ks')" using waiting by blast
    with h lock_invD(1) [OF inv, of th'] have "lock_order k' < lock_order k"
      using waits_below_held [of op' k' ks' k] by simp
    moreover have "lock_order k \<le> lock_order k'"
      using th1(2) w w' by (auto simp: first_def dest!: spec [of _ th'])
    ultimately show False by simp
  qed
  then have none: "rs_writer s k = None" "rs_readers s k = {}"
    using lock_invD(2,3) [OF inv, of _ k] by (metis not_Some_eq, blast)
  show ?thesis
  proof (cases "\<exists>th' op' ls. rs_threads s th' = Locking op' (k # ls) \<and> writes op'")
    case True
    then obtain th2 op' ls where "rs_threads s th2 = Locking op' (k # ls)" "writes op'" by blast
    moreover from this none have "lock_available fair op' k s" by (simp add: lock_available_def)
    ultimately show ?thesis using registry_move.acquires by blast
  next
    case False
    with none have "lock_available fair op k s" by (simp add: lock_available_def)
    with w show ?thesis using registry_move.acquires by blast
  qed
qed

lemma registry_moves_bound:
  assumes "(registry_move fair B ^^ n) s s'" "lock_inv s" "finite (active s)"
  shows "lock_inv s' \<and> active s' \<subseteq> active s \<and> finite (active s') \<and>
    n + (\<Sum>th\<in>active s'. thread_rank (rs_threads s' th)) \<le> (\<Sum>th\<in>active s. thread_rank (rs_threads s th))"
  using assms(1)
proof (induction n arbitrary: s')
  case 0
  with assms show ?case by simp
next
  case (Suc n)
  then obtain s1 where s1: "(registry_move fair B ^^ n) s s1" "registry_move fair B s1 s'" by auto
  from Suc.IH [OF s1(1)] registry_move_measure [OF s1(2)] registry_move_lock_inv [OF s1(2)]
  show ?case by auto
qed

section \<open>Properties\<close>

text \<open>Two threads register a listener at the same time, and one has taken the first lock.\<close>

definition example_config :: listener_config where
  "example_config = (\<lparr>authority_name = ''a'', ue_id = 1, ue_version_major = 1, resource_id = 32768\<rparr>, None, Listener 0)"

definition registry_example :: "(nat \<times> listener_config) list registry_state" where
  "registry_example = \<lparr>rs_world = handler_world_init list_bimap,
     rs_threads = (\<lambda>th. Idle)(0 := Locking (Get_handler 0 7 example_config) [Lock_free, Lock_config 7],
       1 := Locking (Get_handler 0 8 example_config) [Lock_ids, Lock_free, Lock_config 8]),
     rs_writer = [Lock_ids \<mapsto> 0], rs_readers = (\<lambda>l. {}),
     rs_history = [Called 0 (Get_handler 0 7 example_config), Called 1 (Get_handler 0 8 example_config)]\<rparr>"

lemma registry_example_reachable: "registry_reachable fair list_bimap registry_example"
proof -
  let ?a = "Get_handler 0 7 example_config" and ?b = "Get_handler 0 8 example_config"
  let ?s1 = "(registry_init list_bimap)\<lparr>rs_threads := (\<lambda>th. Idle)(0 := Locking ?a (lock_sequence ?a)),
    rs_history := [Called 0 ?a]\<rparr>"
  let ?s2 = "?s1\<lparr>rs_threads := (rs_threads ?s1)(1 := Locking ?b (lock_sequence ?b)),
    rs_history := rs_history ?s1 @ [Called 1 ?b]\<rparr>"
  have "registry_step fair list_bimap (registry_init list_bimap) ?s1"
    using registry_step.called [of "registry_init list_bimap" 0 fair list_bimap ?a]
    by (simp add: registry_init_def)
  moreover have "registry_step fair list_bimap ?s1 ?s2"
    by (intro registry_step.called) simp
  moreover have "registry_step fair list_bimap ?s2 registry_example"
    using registry_move.acquires [of ?s2 0 ?a Lock_ids "[Lock_free, Lock_config 7]" fair list_bimap]
    by (intro registry_step.moved)
      (simp add: lock_available_def take_guard_def registry_init_def registry_example_def fun_upd_twist)
  ultimately show ?thesis
    unfolding registry_reachable_def by (meson rtranclp.rtrancl_into_rtrancl rtranclp.rtrancl_refl)
qed

text \<open>
  C2. The registry's operations are linearizable. Whatever threads call \<^verbatim>\<open>get_message_handler\<close>,
  \<^verbatim>\<open>release_message_handler\<close> and the four lookups at the same time, for any transports, statement by
  statement under the locks of the source, the history of calls and answers is one of the
  specification, where each operation takes effect at once, between its call and its return; and
  whenever no writer is inside, the shared maps are those of the specification.
\<close>

theorem registry_is_linearizable:
  assumes "registry_reachable fair B s"
  shows "\<exists>A. atomic_reachable B (atomic_of s A) \<and> as_history (atomic_of s A) = rs_history s \<and>
    handler_reachable B A \<and> ((\<forall>th. \<not> writer_inside s th) \<longrightarrow> rs_world s = A)"
proof -
  from simulation_reachable [OF assms] obtain A where A: "world_rel B s A" "atomic_reachable B (atomic_of s A)"
    by blast
  from atomic_reachable_pool [OF A(2)] have "handler_reachable B A" by (simp add: atomic_of_def)
  with A show ?thesis by (auto simp: world_rel_def atomic_of_def)
qed

theorem registry_is_linearizable_witness:
  "\<exists>A. atomic_reachable list_bimap (atomic_of registry_example A) \<and>
    as_history (atomic_of registry_example A) =
      [Called 0 (Get_handler 0 7 example_config), Called 1 (Get_handler 0 8 example_config)] \<and>
    rs_world registry_example = A"
proof -
  have "\<not> writer_inside registry_example th" for th
    by (simp add: writer_inside_def registry_example_def)
  with registry_is_linearizable [OF registry_example_reachable [of True]] show ?thesis
    by (auto simp: registry_example_def)
qed

text \<open>
  C7. The registry cannot deadlock and every call returns. From any reachable state, with or without
  writers that keep new readers out, the threads inside the registry can make at most 13 steps each,
  however they are scheduled; and a state in which no step is possible is one in which every call
  has returned.
\<close>

theorem registry_calls_return:
  assumes "registry_reachable fair B s"
  shows "finite (active s) \<and>
    (\<forall>n s'. (registry_move fair B ^^ n) s s' \<longrightarrow> n \<le> 13 * card (active s)) \<and>
    (\<forall>s'. (registry_move fair B)\<^sup>*\<^sup>* s s' \<and> (\<nexists>s''. registry_move fair B s' s'') \<longrightarrow> (\<forall>th. rs_threads s' th = Idle))"
proof (intro conjI allI impI)
  note inv = registry_reachable_lock_inv [OF assms] and fin = registry_reachable_finite [OF assms]
  show "finite (active s)" by (rule fin)
  show "n \<le> 13 * card (active s)" if "(registry_move fair B ^^ n) s s'" for n s'
  proof -
    have "(\<Sum>th\<in>active s. thread_rank (rs_threads s th)) \<le> card (active s) * 13"
      using sum_bounded_above [of "active s" "\<lambda>th. thread_rank (rs_threads s th)" 13]
        thread_rank_bound lock_invD(1) [OF inv] by simp
    with registry_moves_bound [OF that inv fin] show ?thesis by linarith
  qed
  show "rs_threads s' th = Idle"
    if *: "(registry_move fair B)\<^sup>*\<^sup>* s s' \<and> (\<nexists>s''. registry_move fair B s' s'')" for s' th
  proof (rule ccontr)
    assume "rs_threads s' th \<noteq> Idle"
    moreover obtain n where "(registry_move fair B ^^ n) s s'" using * by (auto dest: rtranclp_imp_relpowp)
    ultimately show False using * registry_moves_bound [OF _ inv fin] registry_move_exists by blast
  qed
qed

theorem registry_calls_return_witness:
  "\<not> (\<exists>n > 26. \<exists>s'. (registry_move True list_bimap ^^ n) registry_example s')"
proof -
  have "active registry_example = {0, 1}" by (auto simp: active_def registry_example_def)
  then have "13 * card (active registry_example) = 26" by simp
  with registry_calls_return [OF registry_example_reachable [of True]] show ?thesis
    by (metis leD)
qed

end
