(* ===== verification/Callback_Overlap.thy ===== *)
theory Callback_Overlap
  imports Extern_Handlers Registry_Atomicity
begin

text \<open>
  An extern handler looks into the registries twice: for the transport when it is called, and for
  the listener after the message has been converted. Between the two it holds no lock, so other
  threads may register and unregister listeners. \<open>Registry_Atomicity\<close> shows that what they
  do there is a sequence of steps of \<open>Handler_Sharing\<close>.
\<close>

section \<open>Definitions\<close>

text \<open>\<^verbatim>\<open>call_shared_extern_fn\<close> up to the conversion, and from there to the delivery.\<close>

definition extern_fn_begin ::
    "up_rust \<Rightarrow> vsomeip_api \<Rightarrow> uuid \<Rightarrow> nat set \<Rightarrow> MessageHandlerId \<Rightarrow> vsomeip_message \<Rightarrow>
     handler_statics \<Rightarrow> (nat \<Rightarrow> 'm storage) \<Rightarrow> (nat \<times> umessage) option \<times> (nat \<Rightarrow> 'm storage)" where
  "extern_fn_begin U V fresh live message_handler_id vsomeip_msg g stores =
     (case get_message_handler_id_transport live g message_handler_id of
        None \<Rightarrow> (None, stores)
      | Some t \<Rightarrow>
          let (res, rpc) = convert_vsomeip_msg_to_umsg U V fresh
                (get_local_authority (stores t)) (get_uri (stores t)) (get_remote_authority (stores t))
                vsomeip_msg (rpc_correlation (stores t));
              stores1 = stores(t := (stores t)\<lparr>rpc_correlation := rpc\<rparr>)
          in (case res of Returns (Ok umsg) \<Rightarrow> (Some (t, umsg), stores1) | _ \<Rightarrow> (None, stores1)))"

definition extern_fn_end ::
    "'m config_bimap \<Rightarrow> MessageHandlerId \<Rightarrow> nat \<Rightarrow> umessage \<Rightarrow> 'm handler_world \<Rightarrow> (listener \<times> umessage) option" where
  "extern_fn_end B message_handler_id t umsg w =
     (case get_listener_for_message_handler_id B (world_registries w t) message_handler_id of
        Some listener \<Rightarrow> Some (listener, umsg) | None \<Rightarrow> None)"

abbreviation pool_with :: "handler_statics \<Rightarrow> (nat \<Rightarrow> 'm storage) \<Rightarrow> 'm handler_world" where
  "pool_with g stores \<equiv> \<lparr>world_statics = g, world_registries = (\<lambda>t. message_handler_registry (stores t))\<rparr>"

text \<open>What other threads may do without releasing configuration \<open>c\<close> of transport \<open>t\<close>.\<close>

inductive other_step :: "('m, 'c) bimap_api \<Rightarrow> nat \<Rightarrow> 'c \<Rightarrow> 'm handler_world \<Rightarrow> 'm handler_world \<Rightarrow> bool"
  for B t c where
  acquires: "get_message_handler B choice t' c' (world_statics w, world_registries w t') = (res, g, m) \<Longrightarrow>
    other_step B t c w (w\<lparr>world_statics := g, world_registries := (world_registries w)(t' := m)\<rparr>)"
| releases: "release_message_handler B c' (world_statics w, world_registries w t') = (res', g, m) \<Longrightarrow>
    (t', c') \<noteq> (t, c) \<Longrightarrow>
    other_step B t c w (w\<lparr>world_statics := g, world_registries := (world_registries w)(t' := m)\<rparr>)"

section \<open>Lemmas\<close>

lemma call_shared_extern_fn_phases:
  "call_shared_extern_fn U V B fresh live i v g stores =
     (case extern_fn_begin U V fresh live i v g stores of
        (None, stores1) \<Rightarrow> (None, stores1)
      | (Some (t, umsg), stores1) \<Rightarrow> (extern_fn_end B i t umsg (pool_with g stores1), stores1))"
  by (auto simp: call_shared_extern_fn_def extern_fn_begin_def extern_fn_end_def Let_def
      storage_get_listener_for_message_handler_id_def split: option.split prod.split outcome.split sum.split)

lemma other_step_is_step: "other_step B t c w w' \<Longrightarrow> handler_step B w w'"
  by (auto elim!: other_step.cases intro: handler_step.intros)

lemma other_step_keeps:
  assumes step: "other_step B t c w w'" and inv: "handler_world_inv B w"
    and used: "bm_get_by_left B (world_registries w t) i = Some c"
  shows "bm_get_by_left B (world_registries w' t) i = Some c"
  using step
proof cases
  case (acquires choice t' c' res g m)
  let ?s = "(world_statics w, world_registries w t')"
  have own: "handler_invar B t' ?s" using inv by (simp add: handler_world_inv_def)
  show ?thesis
  proof (cases "handler_free ?s \<noteq> {} \<and> c' \<notin> ran (handler_used B ?s)")
    case True
    then obtain j where j: "hash_next choice (handler_free ?s) = Some j" by (meson hash_next_None not_None_eq)
    from get_message_handler_new [OF own j conjunct2 [OF True]] acquires(2)
    have m: "bm_get_by_left B m = (handler_used B ?s)(j \<mapsto> c')" by auto
    have "handler_used B ?s j = None" using handler_invar_next(4) [OF own j] .
    with m used acquires(1) show ?thesis by (cases "t' = t") auto
  next
    case False
    then have "m = world_registries w t'"
      using acquires(2) handler_pool.acquire_duplicate [OF own, of c' choice]
        handler_pool.acquire_full [OF own, of choice c'] by auto
    with used acquires(1) show ?thesis by (cases "t' = t") auto
  qed
next
  case (releases c' t' res' g m)
  let ?s = "(world_statics w, world_registries w t')"
  have own: "handler_invar B t' ?s" using inv by (simp add: handler_world_inv_def)
  show ?thesis
  proof (cases "c' \<in> ran (handler_used B ?s)")
    case True
    then obtain j where j: "handler_used B ?s j = Some c'" by (auto simp: ran_def)
    from release_message_handler_known [OF own j] releases(2)
    have "bm_get_by_left B m = (handler_used B ?s)(j := None)" by auto
    with used releases(1,3) j show ?thesis by (cases "t' = t") auto
  next
    case False
    then have "m = world_registries w t'"
      using releases(2) handler_pool.release_unknown [OF own, of c'] by auto
    with used releases(1) show ?thesis by (cases "t' = t") auto
  qed
qed

lemma other_steps_keep:
  assumes "(other_step B t c)\<^sup>*\<^sup>* w w'" "handler_world_inv B w" "bm_get_by_left B (world_registries w t) i = Some c"
  shows "handler_world_inv B w' \<and> bm_get_by_left B (world_registries w' t) i = Some c"
  using assms(1)
  by (induction rule: rtranclp_induct)
    (auto simp: assms(2,3) intro: other_step_keeps handler_step_inv other_step_is_step)

lemma extern_fn_begin_owner:
  "extern_fn_begin U V fresh live i v g stores = (Some (t, umsg), stores1) \<Longrightarrow>
   message_handler_id_to_transport_storage g i = Some t \<and>
   message_handler_registry (stores1 t') = message_handler_registry (stores t')"
  by (auto simp: extern_fn_begin_def get_message_handler_id_transport_def Let_def
      split: option.splits if_splits prod.splits outcome.splits sum.splits)

text \<open>A handler that belongs to a transport has a listener there.\<close>

lemma handler_has_listener:
  assumes "handler_world_inv B w" "message_handler_id_to_transport_storage (world_statics w) i = Some t"
  obtains c where "bm_get_by_left B (world_registries w t) i = Some c"
proof -
  have "handler_invar B t (world_statics w, world_registries w t)"
    using assms(1) by (simp add: handler_world_inv_def)
  then have "{j. message_handler_id_to_transport_storage (world_statics w) j = Some t} =
      dom (bm_get_by_left B (world_registries w t))" by (simp add: handler_invar_def)
  with assms(2) that show ?thesis by blast
qed

lemma example_begin:
  assumes "message_handler_id_to_transport_storage g 7 = Some 0"
  shows "\<exists>umsg s1. extern_fn_begin permissive_up_rust (example_vsomeip 5) (UUID 7) {0} 7 example_request g
    (example_stores m) = (Some (0, umsg), s1) \<and> umsg_payload umsg = Some [1]"
  using assms
  by (simp add: extern_fn_begin_def get_message_handler_id_transport_def get_local_authority_def get_uri_def
      get_remote_authority_def example_stores_conversion)

section \<open>Properties\<close>

text \<open>
  C10. A message in flight is not disturbed by other threads. When an extern handler has found its
  transport and converted its message, the handler belongs to a listener of that transport; and
  however many listeners any threads register and unregister, on any transport, before it looks
  the listener up, it delivers the message to that listener as long as that very
  registration is not released.
\<close>

theorem message_in_flight_reaches_its_listener:
  assumes "bimap_laws B" "handler_reachable B (pool_with g stores)"
    and "extern_fn_begin U V fresh live i v g stores = (Some (t, umsg), stores1)"
  shows "\<exists>src sink l. bm_get_by_left B (message_handler_registry (stores t)) i = Some (src, sink, l) \<and>
    (\<forall>w'. (other_step B t (src, sink, l))\<^sup>*\<^sup>* (pool_with g stores) w' \<longrightarrow>
      extern_fn_end B i t umsg w' = Some (l, umsg))"
proof -
  have inv: "handler_world_inv B (pool_with g stores)" using handler_reachable_inv assms(1,2) by blast
  have "message_handler_id_to_transport_storage (world_statics (pool_with g stores)) i = Some t"
    using extern_fn_begin_owner [OF assms(3)] by simp
  from handler_has_listener [OF inv this] obtain src sink l where
    c: "bm_get_by_left B (world_registries (pool_with g stores) t) i = Some (src, sink, l)"
    by (metis prod_cases3)
  have "extern_fn_end B i t umsg w' = Some (l, umsg)"
    if "(other_step B t (src, sink, l))\<^sup>*\<^sup>* (pool_with g stores) w'" for w'
    using other_steps_keep [OF that inv c]
    by (simp add: extern_fn_end_def get_listener_for_message_handler_id_def)
  with c show ?thesis by auto
qed

theorem message_in_flight_reaches_its_listener_witness:
  "\<exists>g stores umsg src sink l. bm_get_by_left list_bimap (message_handler_registry (stores 0)) 7 = Some (src, sink, l) \<and>
    extern_fn_end list_bimap 7 0 umsg (pool_with g stores) = Some (l, umsg) \<and> umsg_payload umsg = Some [1]"
proof -
  obtain g m where ex: "handler_reachable list_bimap (pool_with g (example_stores m))"
      "message_handler_id_to_transport_storage g 7 = Some 0"
    by (rule example_pool)
  from example_begin [OF ex(2), of m] obtain umsg s1 where
    b: "extern_fn_begin permissive_up_rust (example_vsomeip 5) (UUID 7) {0} 7 example_request g
      (example_stores m) = (Some (0, umsg), s1)" "umsg_payload umsg = Some [1]" by blast
  from message_in_flight_reaches_its_listener [OF list_bimap_laws ex(1) b(1)] b(2) show ?thesis by blast
qed

text \<open>
  C34. A message in flight can reach a listener that never asked for it. When the registration is
  released between the two lookups and any other listener \<open>l2\<close> is registered on the same
  transport, with any filters, the pool may hand out the same handler, and the message that was
  converted for the first listener is delivered to \<open>l2\<close>.
\<close>

theorem message_in_flight_reaches_another_listener:
  assumes "bimap_laws B" "handler_reachable B (pool_with g stores)"
    and "extern_fn_begin U V fresh live i v g stores = (Some (t, umsg), stores1)"
    and "(src2, sink2, l2) \<notin> ran (bm_get_by_left B (message_handler_registry (stores t)))"
  shows "\<exists>w'. (handler_step B)\<^sup>*\<^sup>* (pool_with g stores) w' \<and> extern_fn_end B i t umsg w' = Some (l2, umsg)"
proof -
  let ?w = "pool_with g stores" and ?c2 = "(src2, sink2, l2)"
  have inv: "handler_world_inv B ?w" using handler_reachable_inv assms(1,2) by blast
  have "message_handler_id_to_transport_storage (world_statics ?w) i = Some t"
    using extern_fn_begin_owner [OF assms(3)] by simp
  from handler_has_listener [OF inv this] obtain c
    where c: "handler_used B (world_statics ?w, world_registries ?w t) i = Some c" by auto
  have own: "handler_invar B t (world_statics ?w, world_registries ?w t)"
    using inv by (simp add: handler_world_inv_def)
  from release_message_handler_known [OF own c] obtain g1 m1 where
    rel: "release_message_handler B c (world_statics ?w, world_registries ?w t) = (Ok (), g1, m1)"
    and g1: "free_message_handler_ids g1 = insert i (free_message_handler_ids g)"
    and m1: "bm_get_by_left B m1 = (handler_used B (world_statics ?w, world_registries ?w t))(i := None)"
    by auto
  let ?w1 = "?w\<lparr>world_statics := g1, world_registries := (world_registries ?w)(t := m1)\<rparr>"
  have s1: "handler_step B ?w ?w1" by (rule handler_step.release [OF rel])
  have own1: "handler_invar B t (g1, m1)"
    using handler_step_inv [OF s1 inv] by (auto simp: handler_world_inv_def dest: spec [of _ t])
  have nxt: "hash_next i (handler_free (g1, m1)) = Some i" by (simp add: g1 hash_next_choice)
  have "?c2 \<notin> ran (handler_used B (g1, m1))" using assms(4) m1 by (auto simp: ran_def)
  from get_message_handler_new [OF own1 nxt this] obtain g2 m2 where
    acq: "get_message_handler B i t ?c2 (g1, m1) = (Returns (Inr (Extern_fn_message_handler i)), g2, m2)"
    and m2: "bm_get_by_left B m2 i = Some ?c2" by auto
  let ?w2 = "?w1\<lparr>world_statics := g2, world_registries := (world_registries ?w1)(t := m2)\<rparr>"
  have "handler_step B ?w1 ?w2" by (rule handler_step.acquire [where choice = i and c = ?c2]) (simp add: acq)
  with s1 have "(handler_step B)\<^sup>*\<^sup>* ?w ?w2" by (meson rtranclp.rtrancl_into_rtrancl rtranclp.rtrancl_refl)
  moreover have "extern_fn_end B i t umsg ?w2 = Some (l2, umsg)"
    by (simp add: extern_fn_end_def get_listener_for_message_handler_id_def m2)
  ultimately show ?thesis by blast
qed

theorem message_in_flight_reaches_another_listener_witness:
  "\<exists>g stores umsg w'. bm_get_by_left list_bimap (message_handler_registry (stores 0)) 7 =
      Some (example_method, None, Listener 5) \<and>
    (handler_step list_bimap)\<^sup>*\<^sup>* (pool_with g stores) w' \<and>
    extern_fn_end list_bimap 7 0 umsg w' = Some (Listener 6, umsg)"
proof -
  obtain g m where ex: "handler_reachable list_bimap (pool_with g (example_stores m))"
      "message_handler_id_to_transport_storage g 7 = Some 0"
      "bm_get_by_left list_bimap m = [7 \<mapsto> (example_method, None, Listener 5)]"
    by (rule example_pool)
  from example_begin [OF ex(2), of m] obtain umsg s1 where
    b: "extern_fn_begin permissive_up_rust (example_vsomeip 5) (UUID 7) {0} 7 example_request g
      (example_stores m) = (Some (0, umsg), s1)" by blast
  have reg: "message_handler_registry (example_stores m 0) = m" by (simp add: example_stores_def)
  have "(example_method, None, Listener 6) \<notin> ran (bm_get_by_left list_bimap (message_handler_registry (example_stores m 0)))"
    by (simp add: reg ex(3))
  from message_in_flight_reaches_another_listener [OF list_bimap_laws ex(1) b this] ex(3) reg
  show ?thesis by (metis fun_upd_same)
qed

end
