(* ===== verification/End_To_End.thy ===== *)
theory End_To_End
  imports Rpc_Roundtrip Engine_Properties
begin

text \<open>
  Two transports and the SOME/IP network between them: what one of them is asked to send, with
  \<^verbatim>\<open>send_internal\<close>, and what the other makes of it, with \<^verbatim>\<open>convert_vsomeip_msg_to_umsg\<close>.

  The network is vsomeip's. What it does to a message is documented: a request carries the
  client id of the application that sends it and the session id counted for it
  (\<open>request_in_flight\<close>); a notification carries the service, instance, event and payload it was
  notified with (\<open>notification_in_flight\<close>); a response arrives as it was sent.
\<close>

section \<open>The network\<close>




section \<open>What is sent\<close>





section \<open>A request and its answer\<close>




section \<open>Properties\<close>










end
