(* ===== verification/File_System.thy ===== *)
theory File_System
  imports Prelude "HOL-Library.Sublist"
begin

text \<open>
  Paths and files, as far as the build scripts use them (\<^verbatim>\<open>std::path\<close>, \<^verbatim>\<open>std::fs\<close>), and
  \<^verbatim>\<open>copy_dir_all\<close> of \<^verbatim>\<open>vsomeip-sys/build.rs\<close>.

  A \<^verbatim>\<open>PathBuf\<close> is its text, joined as Rust joins paths on Unix; the file system knows a path by its
  components. All paths are absolute, as cargo passes them to build scripts. The file system is a
  tree; a directory lists its entries in the order \<^verbatim>\<open>read_dir\<close> yields them, which can be any. Symbolic
  links, and failures for want of rights or space, are not modelled.
\<close>

section \<open>Paths\<close>

type_synonym path = "string list"

fun split_on :: "char \<Rightarrow> string \<Rightarrow> string \<Rightarrow> string list" where
  "split_on c acc [] = [rev acc]"
| "split_on c acc (x # xs) = (if x = c then rev acc # split_on c [] xs else split_on c (x # acc) xs)"

text \<open>Empty components and \<open>.\<close> do not count.\<close>

definition components :: "string \<Rightarrow> path" where
  "components p = filter (\<lambda>s. s \<noteq> [] \<and> s \<noteq> ''.'') (split_on (CHR ''/'') [] p)"

definition path_join :: "string \<Rightarrow> string \<Rightarrow> string" where
  "path_join p q =
     (if q \<noteq> [] \<and> hd q = CHR ''/'' then q
      else if p = [] \<or> last p = CHR ''/'' then p @ q
      else p @ ''/'' @ q)"

text \<open>\<^verbatim>\<open>with_extension\<close> for a path with a file name.\<close>

definition file_name :: "string \<Rightarrow> string" where
  "file_name p = rev (takeWhile (\<lambda>c. c \<noteq> CHR ''/'') (rev p))"

definition file_stem :: "string \<Rightarrow> string" where
  "file_stem n =
     (let before = rev (dropWhile (\<lambda>c. c \<noteq> CHR ''.'') (rev n))
      in if length before \<le> 1 then n else butlast before)"

definition with_extension :: "string \<Rightarrow> string \<Rightarrow> string" where
  "with_extension p ext =
     take (length p - length (file_name p)) p @ file_stem (file_name p) @ (if ext = [] then [] else ''.'' @ ext)"

section \<open>Files\<close>

datatype node = File string | Dir "(string \<times> node) list"

fun lookup :: "path \<Rightarrow> node \<Rightarrow> node option" where
  "lookup [] nd = Some nd"
| "lookup (n # p) (File c) = None"
| "lookup (n # p) (Dir es) = (case map_of es n of None \<Rightarrow> None | Some nd \<Rightarrow> lookup p nd)"

fun set_entry :: "string \<Rightarrow> node \<Rightarrow> (string \<times> node) list \<Rightarrow> (string \<times> node) list" where
  "set_entry n nd [] = [(n, nd)]"
| "set_entry n nd ((m, nd') # es) = (if m = n then (n, nd) # es else (m, nd') # set_entry n nd es)"

text \<open>Both fail without any change.\<close>

fun make_dirs :: "path \<Rightarrow> node \<Rightarrow> node option" where
  "make_dirs p (File c) = None"
| "make_dirs [] (Dir es) = Some (Dir es)"
| "make_dirs (n # p) (Dir es) =
     (case make_dirs p (case map_of es n of None \<Rightarrow> Dir [] | Some nd \<Rightarrow> nd) of
        None \<Rightarrow> None | Some nd \<Rightarrow> Some (Dir (set_entry n nd es)))"

fun put_file :: "path \<Rightarrow> string \<Rightarrow> node \<Rightarrow> node option" where
  "put_file [] c nd = (case nd of File _ \<Rightarrow> Some (File c) | Dir _ \<Rightarrow> None)"
| "put_file (n # p) c (File d) = None"
| "put_file (n # p) c (Dir es) =
     (case map_of es n of
        None \<Rightarrow> if p = [] then Some (Dir (set_entry n (File c) es)) else None
      | Some nd \<Rightarrow> (case put_file p c nd of None \<Rightarrow> None | Some nd' \<Rightarrow> Some (Dir (set_entry n nd' es))))"

fun remove_file :: "path \<Rightarrow> node \<Rightarrow> node" where
  "remove_file (n # p) (Dir es) =
     (if p = [] then Dir (filter (\<lambda>(m, _). m \<noteq> n) es)
      else case map_of es n of None \<Rightarrow> Dir es | Some nd \<Rightarrow> Dir (set_entry n (remove_file p nd) es))"
| "remove_file p nd = nd"

definition path_exists :: "path \<Rightarrow> node \<Rightarrow> bool" where
  "path_exists p fs = (lookup p fs \<noteq> None)"

datatype io_error = Io_error

definition create_dir_all :: "path \<Rightarrow> node \<Rightarrow> (io_error + unit) \<times> node" where
  "create_dir_all p fs =
     (case make_dirs p fs of
        None \<Rightarrow> (Inl Io_error, fs) | Some fs' \<Rightarrow> (Inr (), fs'))"

definition read_dir :: "path \<Rightarrow> node \<Rightarrow> io_error + string list" where
  "read_dir p fs =
     (case lookup p fs of Some (Dir es) \<Rightarrow> Inr (map fst es) | _ \<Rightarrow> Inl Io_error)"

definition read_file :: "path \<Rightarrow> node \<Rightarrow> io_error + string" where
  "read_file p fs = (case lookup p fs of Some (File c) \<Rightarrow> Inr c | _ \<Rightarrow> Inl Io_error)"

definition create_file :: "path \<Rightarrow> string \<Rightarrow> node \<Rightarrow> (io_error + unit) \<times> node" where
  "create_file p c fs =
     (case put_file p c fs of
        None \<Rightarrow> (Inl Io_error, fs) | Some fs' \<Rightarrow> (Inr (), fs'))"

text \<open>\<^verbatim>\<open>fs::copy\<close>; a file copied to itself is truncated.\<close>

definition copy_file :: "path \<Rightarrow> path \<Rightarrow> node \<Rightarrow> (io_error + unit) \<times> node" where
  "copy_file p q fs =
     (case read_file p fs of
        Inl e \<Rightarrow> (Inl e, fs)
      | Inr c \<Rightarrow> create_file q (if p = q then [] else c) fs)"

definition rename_file :: "path \<Rightarrow> path \<Rightarrow> node \<Rightarrow> (io_error + unit) \<times> node" where
  "rename_file p q fs =
     (case read_file p fs of
        Inl e \<Rightarrow> (Inl e, fs)
      | Inr c \<Rightarrow>
          if p = q then (Inr (), fs)
          else (case create_file q c fs of
                  (Inl e, fs1) \<Rightarrow> (Inl e, fs1)
                | (Inr _, fs1) \<Rightarrow> (Inr (), remove_file p fs1)))"

section \<open>Copying a directory\<close>

text \<open>
  \<^verbatim>\<open>copy_dir_all\<close> recurses into the directories it finds, so it does not end when the destination lies
  in the source: \<open>fuel\<close> bounds the depth, and no answer means that it ran out.
\<close>

fun copy_dir_all ::
    "nat \<Rightarrow> path \<Rightarrow> path \<Rightarrow> node \<Rightarrow> ((io_error + unit) \<times> node) option"
  and copy_entries ::
    "nat \<Rightarrow> path \<Rightarrow> path \<Rightarrow> string list \<Rightarrow> node \<Rightarrow> ((io_error + unit) \<times> node) option" where
  "copy_dir_all 0 src dst fs = None"
| "copy_dir_all (Suc fuel) src dst fs =
     (case create_dir_all dst fs of
        (Inl e, fs1) \<Rightarrow> Some (Inl e, fs1)
      | (Inr _, fs1) \<Rightarrow>
          (case read_dir src fs1 of
             Inl e \<Rightarrow> Some (Inl e, fs1)
           | Inr entries \<Rightarrow> copy_entries fuel src dst entries fs1))"
| "copy_entries fuel src dst [] fs = Some (Inr (), fs)"
| "copy_entries fuel src dst (entry # entries) fs =
     (case lookup (src @ [entry]) fs of
        None \<Rightarrow> Some (Inl Io_error, fs)
      | Some (Dir es) \<Rightarrow>
          (case copy_dir_all fuel (src @ [entry]) (dst @ [entry]) fs of
             None \<Rightarrow> None
           | Some (Inl e, fs1) \<Rightarrow> Some (Inl e, fs1)
           | Some (Inr _, fs1) \<Rightarrow> copy_entries fuel src dst entries fs1)
      | Some (File c) \<Rightarrow>
          (case copy_file (src @ [entry]) (dst @ [entry]) fs of
             (Inl e, fs1) \<Rightarrow> Some (Inl e, fs1)
           | (Inr _, fs1) \<Rightarrow> copy_entries fuel src dst entries fs1))"

section \<open>What is where\<close>

text \<open>The file system as a map, for specifications.\<close>

datatype kind = Is_dir | Is_file string

fun kind_of :: "node \<Rightarrow> kind" where
  "kind_of (File c) = Is_file c"
| "kind_of (Dir es) = Is_dir"

definition kind_at :: "node \<Rightarrow> path \<Rightarrow> kind option" where
  "kind_at fs p = map_option kind_of (lookup p fs)"

lemma map_of_set_entry [simp]: "map_of (set_entry n nd es) = (map_of es)(n \<mapsto> nd)"
  by (induction es) (auto simp: fun_eq_iff)

lemma kind_at_simps [simp]:
  "kind_at nd [] = Some (kind_of nd)"
  "kind_at (File c) (n # p) = None"
  "kind_at (Dir es) (n # p) = (case map_of es n of None \<Rightarrow> None | Some nd \<Rightarrow> kind_at nd p)"
  by (simp_all add: kind_at_def split: option.split)

lemma kind_of_iff [simp]: "kind_of nd = Is_dir \<longleftrightarrow> (\<exists>es. nd = Dir es)" "kind_of nd = Is_file c \<longleftrightarrow> nd = File c"
  by (cases nd; simp)+

lemma kind_at_empty [simp]: "kind_at (Dir []) p = (if p = [] then Some Is_dir else None)"
  by (cases p) auto

lemma make_dirs_kind:
  "make_dirs p fs = Some fs' \<Longrightarrow> kind_at fs' q = (if prefix q p then Some Is_dir else kind_at fs q)"
proof (induction p fs arbitrary: fs' q rule: make_dirs.induct)
  case (3 n p es)
  then show ?case by (cases q) (auto split: option.splits if_splits)
qed (auto split: if_splits)

lemma make_dirs_ok:
  "(\<And>q c. prefix q p \<Longrightarrow> kind_at fs q \<noteq> Some (Is_file c)) \<Longrightarrow> \<exists>fs'. make_dirs p fs = Some fs'"
proof (induction p fs rule: make_dirs.induct)
  case (1 p c)
  from 1 [of "[]" c] show ?case by simp
next
  case (3 n p es)
  have "\<exists>fs'. make_dirs p (case map_of es n of None \<Rightarrow> Dir [] | Some nd \<Rightarrow> nd) = Some fs'"
  proof (rule 3(1))
    fix q c assume "prefix q p"
    with 3(2) [of "n # q" c] show "kind_at (case map_of es n of None \<Rightarrow> Dir [] | Some nd \<Rightarrow> nd) q \<noteq> Some (Is_file c)"
      by (auto split: option.splits)
  qed
  then show ?case by auto
qed simp

lemma put_file_kind:
  "put_file p c fs = Some fs' \<Longrightarrow> kind_at fs' q = (if q = p then Some (Is_file c) else kind_at fs q)"
proof (induction p c fs arbitrary: fs' q rule: put_file.induct)
  case (1 c nd)
  then show ?case by (cases q) (auto split: node.splits)
next
  case (3 n p c es)
  show ?case
  proof (cases "map_of es n")
    case None
    with 3(2) have "p = []" "fs' = Dir (set_entry n (File c) es)" by (simp_all split: if_splits)
    with None show ?thesis by (cases q; cases "tl q") auto
  next
    case (Some nd)
    with 3(2) obtain nd' where nd': "put_file p c nd = Some nd'" "fs' = Dir (set_entry n nd' es)"
      by (auto split: option.splits)
    from 3(1) [OF Some nd'(1)] Some nd'(2) show ?thesis by (cases q) auto
  qed
qed simp

lemma put_file_ok:
  "kind_at fs p \<noteq> Some Is_dir \<Longrightarrow> p \<noteq> [] \<Longrightarrow> kind_at fs (butlast p) = Some Is_dir \<Longrightarrow> \<exists>fs'. put_file p c fs = Some fs'"
proof (induction p c fs rule: put_file.induct)
  case (2 n p c d)
  then show ?case by (cases p) auto
next
  case (3 n p c es)
  show ?case
  proof (cases "p = []")
    case True
    with 3(2) show ?thesis by (auto split: option.split node.split elim: kind_of.elims)
  next
    case False
    with 3(4) obtain nd where nd: "map_of es n = Some nd" "kind_at nd (butlast p) = Some Is_dir"
      by (auto split: option.splits)
    with 3(2) have "kind_at nd p \<noteq> Some Is_dir" by simp
    from 3(1) [OF nd(1) this False nd(2)] nd(1) show ?thesis by auto
  qed
qed simp

lemma remove_file_kind:
  "p \<noteq> [] \<Longrightarrow> \<not> prefix p q \<Longrightarrow> kind_at (remove_file p fs) q = kind_at fs q"
proof (induction p fs arbitrary: q rule: remove_file.induct)
  case (1 n p es)
  have filter: "map_of (filter (\<lambda>(m, _). m \<noteq> n) es) m = (if m = n then None else map_of es m)" for m
    by (induction es) auto
  show ?case
    using 1 by (cases q) (auto simp: filter split: option.split)
qed auto

lemma remove_file_gone:
  "p \<noteq> [] \<Longrightarrow> lookup p (remove_file p fs) = None"
proof (induction p fs rule: remove_file.induct)
  case (1 n p es)
  have filter: "map_of (filter (\<lambda>(m, _). m \<noteq> n) es) n = None"
    by (induction es) auto
  show ?case using 1 by (auto simp: filter split: option.split)
qed (auto simp: neq_Nil_conv)

section \<open>Components of a joined path\<close>

lemma split_on_append: "split_on c acc (xs @ c # ys) = split_on c acc xs @ split_on c [] ys"
  by (induction xs arbitrary: acc) auto

lemma split_on_plain: "c \<notin> set xs \<Longrightarrow> split_on c acc xs = [rev acc @ xs]"
  by (induction xs arbitrary: acc) auto

definition plain_name :: "string \<Rightarrow> bool" where
  "plain_name n \<longleftrightarrow> n \<noteq> [] \<and> n \<noteq> ''.'' \<and> CHR ''/'' \<notin> set n"

lemma path_join_relative:
  assumes "q \<noteq> []" "hd q \<noteq> CHR ''/''"
  obtains p' where "path_join p q = p' @ q" "p' = [] \<or> last p' = CHR ''/''" "components p' = components p"
proof -
  have join: "path_join p q = (if p = [] \<or> last p = CHR ''/'' then p @ q else (p @ ''/'') @ q)"
    using assms by (simp add: path_join_def)
  have "components (p @ ''/'') = components p"
    using split_on_append [of "CHR ''/''" "[]" p "[]"] by (simp add: components_def)
  then show ?thesis using join that by (cases "p = [] \<or> last p = CHR ''/''") auto
qed

lemma components_append:
  assumes "p' = [] \<or> last p' = CHR ''/''"
  shows "components (p' @ q) = components p' @ components q"
proof (cases "p' = []")
  case True
  then show ?thesis by (simp add: components_def)
next
  case False
  with assms obtain r where r: "p' = r @ ''/''" by (metis append_butlast_last_id)
  show ?thesis
    using split_on_append [of "CHR ''/''" "[]" r "[]"] split_on_append [of "CHR ''/''" "[]" r q]
    by (simp add: components_def r)
qed

lemma components_join_relative:
  "q \<noteq> [] \<Longrightarrow> hd q \<noteq> CHR ''/'' \<Longrightarrow> components (path_join p q) = components p @ components q"
  by (metis path_join_relative components_append)

lemma plain_name_relative: "plain_name n \<Longrightarrow> n \<noteq> [] \<and> hd n \<noteq> CHR ''/''"
  using hd_in_set by (fastforce simp: plain_name_def)

lemma components_plain: "plain_name n \<Longrightarrow> components n = [n]"
  by (simp add: components_def split_on_plain plain_name_def)

lemma components_join: "plain_name n \<Longrightarrow> components (path_join p n) = components p @ [n]"
  using plain_name_relative by (simp add: components_join_relative components_plain)

lemma with_extension_join:
  assumes n: "plain_name n" and m: "plain_name m" and ext: "file_stem n @ ''.'' @ ext = m" "ext \<noteq> []"
  shows "components (with_extension (path_join p n) ext) = components p @ [m]"
proof -
  obtain p' where p': "path_join p n = p' @ n" "p' = [] \<or> last p' = CHR ''/''" "components p' = components p"
    using path_join_relative plain_name_relative [OF n] by blast
  have no: "\<And>c. c \<in> set (rev n) \<Longrightarrow> c \<noteq> CHR ''/''" using n by (auto simp: plain_name_def)
  have "takeWhile (\<lambda>c. c \<noteq> CHR ''/'') (rev n @ rev p') = rev n @ takeWhile (\<lambda>c. c \<noteq> CHR ''/'') (rev p')"
    using no by (intro takeWhile_append2) auto
  moreover have "takeWhile (\<lambda>c. c \<noteq> CHR ''/'') (rev p') = []"
    using p'(2) by (cases p' rule: rev_cases) auto
  ultimately have "file_name (path_join p n) = n" by (simp add: file_name_def p'(1))
  with ext have "with_extension (path_join p n) ext = p' @ m" by (simp add: with_extension_def p'(1))
  with components_append [OF p'(2), of m] components_plain [OF m] p'(3) show ?thesis by simp
qed

end
