(* ===== verification/Hello_Examples.thy ===== *)
theory Hello_Examples
  imports End_To_End Construction File_System
begin

text \<open>
  The example programs of \<^verbatim>\<open>up-transport-vsomeip/examples\<close>: \<^verbatim>\<open>hello_service.rs\<close>, which answers requests, and
  \<^verbatim>\<open>hello_client.rs\<close>, which sends them, one per second, for ever.

  The generated protobuf types are records of the field the examples use; \<open>hello_protobuf\<close> holds
  up_rust's functions that put them into a payload and take them out (\<open>None\<close> where they return an
  error). up_rust's RPC client and server over a transport are parameters too.
\<close>

section \<open>Definitions\<close>

record hello_request = request_name :: string
record hello_response = response_message :: string

datatype upayload_format = UPAYLOAD_FORMAT_UNSPECIFIED | UPAYLOAD_FORMAT_PROTOBUF_WRAPPED_IN_ANY

record upayload =
  upayload_data :: "u8 list"
  upayload_format :: upayload_format

record hello_protobuf =
  pack_request :: "hello_request \<Rightarrow> upayload option"
  unpack_request :: "upayload \<Rightarrow> hello_request option"
  pack_response :: "hello_response \<Rightarrow> upayload option"
  unpack_response :: "upayload \<Rightarrow> hello_response option"

text \<open>\<^verbatim>\<open>try_from_protobuf\<close> wraps a message in an \<^verbatim>\<open>Any\<close>, and \<^verbatim>\<open>extract_protobuf\<close> takes it out again.\<close>

definition protobuf_laws :: "hello_protobuf \<Rightarrow> bool" where
  "protobuf_laws P \<longleftrightarrow>
     (\<forall>r p. pack_request P r = Some p \<longrightarrow>
        upayload_format p = UPAYLOAD_FORMAT_PROTOBUF_WRAPPED_IN_ANY \<and> unpack_request P p = Some r) \<and>
     (\<forall>r p. pack_response P r = Some p \<longrightarrow>
        upayload_format p = UPAYLOAD_FORMAT_PROTOBUF_WRAPPED_IN_ANY \<and> unpack_response P p = Some r)"

definition HELLO_SERVICE_ID :: u16 where "HELLO_SERVICE_ID = 0x6000"
definition HELLO_INSTANCE_ID :: u32 where "HELLO_INSTANCE_ID = 0x0001"
definition HELLO_METHOD_ID :: u16 where "HELLO_METHOD_ID = 0x7FFF"
definition HELLO_SERVICE_MAJOR :: u8 where "HELLO_SERVICE_MAJOR = 1"
definition HELLO_SERVICE_AUTHORITY :: AuthorityName where "HELLO_SERVICE_AUTHORITY = ''linux''"
definition HELLO_SERVICE_UE_ID :: u32 where
  "HELLO_SERVICE_UE_ID = push_bit 16 HELLO_INSTANCE_ID OR ucast HELLO_SERVICE_ID"
definition HELLO_SERVICE_RESOURCE_ID :: u16 where "HELLO_SERVICE_RESOURCE_ID = HELLO_METHOD_ID"
definition CLIENT_AUTHORITY :: AuthorityName where "CLIENT_AUTHORITY = ''me_authority''"
definition CLIENT_UE_ID :: u32 where "CLIENT_UE_ID = 0x5678"
definition CLIENT_UE_VERSION_MAJOR :: u8 where "CLIENT_UE_VERSION_MAJOR = 1"
definition CLIENT_RESOURCE_ID :: u16 where "CLIENT_RESOURCE_ID = 0"
definition REQUEST_TTL :: u32 where "REQUEST_TTL = 1000"

subsection \<open>The service\<close>

datatype service_invocation_error = RpcError ustatus

definition handle_request ::
    "hello_protobuf \<Rightarrow> u16 \<Rightarrow> uattributes \<Rightarrow> upayload option \<Rightarrow>
     (service_invocation_error + upayload option) outcome" where
  "handle_request P resource uattributes request_payload =
     (case request_payload of
        None \<Rightarrow> Panics
      | Some unspecified \<Rightarrow>
          (case unpack_request P \<lparr>upayload_data = upayload_data unspecified,
                  upayload_format = UPAYLOAD_FORMAT_PROTOBUF_WRAPPED_IN_ANY\<rparr> of
             None \<Rightarrow> Returns (Inl (RpcError (fail_with_code INTERNAL ''Unable to parse hello_request'')))
           | Some hello_request \<Rightarrow>
               (case pack_response P
                    \<lparr>response_message = ''The response to the request: '' @ request_name hello_request\<rparr> of
                  None \<Rightarrow> Panics
                | Some payload \<Rightarrow> Returns (Inr (Some payload)))))"

text \<open>
  \<^verbatim>\<open>unwrap\<close> of a new transport: the error of a transport that could not be made ends the program.
  \<open>register_endpoint\<close> is \<^verbatim>\<open>InMemoryRpcServer::register_endpoint\<close> of a server over the transport; once it has
  returned, the main thread parks.
\<close>

definition unwrap_transport :: "(ustatus \<times> 'm transport option + 'm transport) outcome \<Rightarrow> 'm transport outcome" where
  "unwrap_transport r = (case r of Returns (Inr w) \<Rightarrow> Returns w | _ \<Rightarrow> Panics)"

definition hello_service_main ::
    "up_rust \<Rightarrow> vsomeip_api \<Rightarrow> 'm config_bimap \<Rightarrow> 'j json_api \<Rightarrow> (string \<Rightarrow> bool) \<Rightarrow> (nat \<Rightarrow> bool) \<Rightarrow> bool \<Rightarrow> nat \<Rightarrow>
     call_env \<Rightarrow> call_env \<Rightarrow> handler_statics \<Rightarrow> state_handler_statics \<Rightarrow> vsomeip_log \<Rightarrow>
     hello_protobuf \<Rightarrow> (string \<Rightarrow> string option) \<Rightarrow> string \<Rightarrow>
     ('m transport \<Rightarrow> uuri option \<Rightarrow> u16 \<Rightarrow>
        (u16 \<Rightarrow> uattributes \<Rightarrow> upayload option \<Rightarrow> (service_invocation_error + upayload option) outcome) \<Rightarrow>
        'm transport option) \<Rightarrow>
     (unit result \<times> 'm transport) outcome" where
  "hello_service_main U V B J exists_path builds oc t env denv g st log P canonicalize crate_dir register_endpoint =
     (let vsomeip_config = canonicalize (path_join crate_dir ''vsomeip_configs/hello_service.json'')
      in case try_from_parts U HELLO_SERVICE_AUTHORITY HELLO_SERVICE_UE_ID HELLO_SERVICE_MAJOR 0 of
           None \<Rightarrow> Panics
         | Some service_uuri \<Rightarrow>
             (case vsomeip_config of
                None \<Rightarrow> Panics
              | Some config \<Rightarrow>
                  (case unwrap_transport (new_with_config U V B J exists_path builds oc t env denv
                          service_uuri CLIENT_AUTHORITY config None g st log) of
                     Panics \<Rightarrow> Panics
                   | Returns service \<Rightarrow>
                       (case register_endpoint service None HELLO_SERVICE_RESOURCE_ID (handle_request P) of
                          None \<Rightarrow> Panics
                        | Some w \<Rightarrow> Returns (Ok (), w)))))"

subsection \<open>The client\<close>

text \<open>\<^verbatim>\<open>CallOptions::for_rpc_request\<close> with a time to live and nothing else; numbers as \<^verbatim>\<open>format!\<close> writes them.\<close>

datatype call_options = For_rpc_request u32

fun decimal :: "nat \<Rightarrow> string" where
  "decimal n = (if n < 10 then [] else decimal (n div 10)) @ [char_of (48 + n mod 10)]"

declare decimal.simps [simp del]

definition display_i32 :: "u32 \<Rightarrow> string" where
  "display_i32 i = (if sint i < 0 then CHR ''-'' # decimal (nat (- sint i)) else decimal (nat (sint i)))"

text \<open>
  One turn of the client's loop: the response it prints, and the counter, an \<^verbatim>\<open>i32\<close>, which panics
  at its end when overflows are checked (\<open>oc\<close>). \<open>invoke\<close> is \<^verbatim>\<open>InMemoryRpcClient::invoke_method\<close> on any state.
\<close>

type_synonym 's invoke_method =
  "uuri \<Rightarrow> call_options \<Rightarrow> upayload option \<Rightarrow> 's \<Rightarrow> (service_invocation_error + upayload option) \<times> 's"

definition hello_client_round ::
    "hello_protobuf \<Rightarrow> bool \<Rightarrow> 's invoke_method \<Rightarrow> uuri \<Rightarrow> u32 \<times> 's \<Rightarrow> (hello_response \<times> u32 \<times> 's) outcome" where
  "hello_client_round P oc invoke sink = (\<lambda>(i, s).
     let hello_request = \<lparr>request_name = ''me_client@i='' @ display_i32 i\<rparr>
     in if oc \<and> i = 0x7FFFFFFF then Panics
        else let i1 = i + 1;
                 call_options = For_rpc_request REQUEST_TTL
             in case pack_request P hello_request of
                  None \<Rightarrow> Panics
                | Some payload \<Rightarrow>
                    (case invoke sink call_options (Some payload) s of
                       (Inl err, s1) \<Rightarrow> Panics
                     | (Inr None, s1) \<Rightarrow> Panics
                     | (Inr (Some unspecified), s1) \<Rightarrow>
                         (case unpack_response P \<lparr>upayload_data = upayload_data unspecified,
                                 upayload_format = UPAYLOAD_FORMAT_PROTOBUF_WRAPPED_IN_ANY\<rparr> of
                            None \<Rightarrow> Panics
                          | Some hello_response \<Rightarrow> Returns (hello_response, i1, s1))))"

fun hello_client_rounds ::
    "hello_protobuf \<Rightarrow> bool \<Rightarrow> 's invoke_method \<Rightarrow> uuri \<Rightarrow> nat \<Rightarrow> u32 \<times> 's \<Rightarrow> (hello_response list \<times> u32 \<times> 's) outcome" where
  "hello_client_rounds P oc invoke sink 0 c = Returns ([], c)"
| "hello_client_rounds P oc invoke sink (Suc n) c =
     (case hello_client_round P oc invoke sink c of
        Panics \<Rightarrow> Panics
      | Returns (hello_response, c1) \<Rightarrow>
          (case hello_client_rounds P oc invoke sink n c1 of
             Panics \<Rightarrow> Panics
           | Returns (responses, c2) \<Rightarrow> Returns (hello_response # responses, c2)))"

text \<open>
  The client for \<open>n\<close> turns of its loop; it never leaves it otherwise than by a panic. \<open>new_client\<close> is
  \<^verbatim>\<open>InMemoryRpcClient::new\<close>.
\<close>

definition hello_client_main ::
    "up_rust \<Rightarrow> vsomeip_api \<Rightarrow> 'm config_bimap \<Rightarrow> 'j json_api \<Rightarrow> (string \<Rightarrow> bool) \<Rightarrow> (nat \<Rightarrow> bool) \<Rightarrow> bool \<Rightarrow> nat \<Rightarrow>
     call_env \<Rightarrow> call_env \<Rightarrow> handler_statics \<Rightarrow> state_handler_statics \<Rightarrow> vsomeip_log \<Rightarrow>
     hello_protobuf \<Rightarrow> (string \<Rightarrow> string option) \<Rightarrow> string \<Rightarrow> ('m transport \<Rightarrow> 's option) \<Rightarrow> 's invoke_method \<Rightarrow> nat \<Rightarrow> (hello_response list \<times> u32 \<times> 's) outcome" where
  "hello_client_main U V B J exists_path builds oc t env denv g st log P canonicalize crate_dir new_client invoke n =
     (let vsomeip_config = canonicalize (path_join crate_dir ''vsomeip_configs/hello_service.json'')
      in case try_from_parts U CLIENT_AUTHORITY CLIENT_UE_ID CLIENT_UE_VERSION_MAJOR CLIENT_RESOURCE_ID of
           None \<Rightarrow> Panics
         | Some client_uuri \<Rightarrow>
             (case vsomeip_config of
                None \<Rightarrow> Panics
              | Some config \<Rightarrow>
                  (case unwrap_transport (new_with_config U V B J exists_path builds oc t env denv
                          client_uuri HELLO_SERVICE_AUTHORITY config None g st log) of
                     Panics \<Rightarrow> Panics
                   | Returns client \<Rightarrow>
                       (case new_client client of
                          None \<Rightarrow> Panics
                        | Some l2_client \<Rightarrow>
                            (case try_from_parts U HELLO_SERVICE_AUTHORITY HELLO_SERVICE_UE_ID HELLO_SERVICE_MAJOR
                                    HELLO_SERVICE_RESOURCE_ID of
                               None \<Rightarrow> Panics
                             | Some sink \<Rightarrow> hello_client_rounds P oc invoke sink n (0, l2_client))))))"


section \<open>Lemmas\<close>

lemma protobuf_unpacks:
  assumes "protobuf_laws P"
  shows "pack_request P r = Some p \<Longrightarrow> unpack_request P \<lparr>upayload_data = upayload_data p,
      upayload_format = UPAYLOAD_FORMAT_PROTOBUF_WRAPPED_IN_ANY\<rparr> = Some r"
    and "pack_response P a = Some p \<Longrightarrow> unpack_response P \<lparr>upayload_data = upayload_data p,
      upayload_format = UPAYLOAD_FORMAT_PROTOBUF_WRAPPED_IN_ANY\<rparr> = Some a"
  using assms by (cases p; force simp: protobuf_laws_def)+

text \<open>The handler fails in three ways only, and answers with the name it was sent.\<close>

lemma handle_request_spec:
  assumes "protobuf_laws P"
  shows "(\<exists>r. unpack_request P \<lparr>upayload_data = upayload_data p,
      upayload_format = UPAYLOAD_FORMAT_PROTOBUF_WRAPPED_IN_ANY\<rparr> = Some r \<and>
      (\<exists>p'. handle_request P rid attrs (Some p) = Returns (Inr (Some p')) \<and>
        unpack_response P p' = Some \<lparr>response_message = ''The response to the request: '' @ request_name r\<rparr>)) \<or>
    handle_request P rid attrs (Some p) = Panics \<or>
    handle_request P rid attrs (Some p) = Returns (Inl (RpcError (fail_with_code INTERNAL ''Unable to parse hello_request'')))"
  using assms by (fastforce simp: handle_request_def protobuf_laws_def split: option.splits)

abbreviation hello_answer :: "nat \<Rightarrow> hello_response" where
  "hello_answer i \<equiv> \<lparr>response_message = ''The response to the request: me_client@i='' @ decimal i\<rparr>"

lemma display_of_nat: "i < 2 ^ 31 \<Longrightarrow> display_i32 (of_nat i) = decimal i"
proof -
  assume "i < 2 ^ 31"
  then have "sint (of_nat i :: u32) = int i" by (simp add: signed_of_nat signed_take_bit_int_eq_self)
  then show ?thesis by (simp add: display_i32_def)
qed

text \<open>A turn with an answer made by the service for what was sent.\<close>

lemma hello_client_round_answered:
  assumes "protobuf_laws P" "i < 2 ^ 31 - 1"
    and packed: "pack_request P \<lparr>request_name = ''me_client@i='' @ decimal i\<rparr> = Some p"
    and served: "handle_request P rid attrs (Some \<lparr>upayload_data = upayload_data p, upayload_format = fm\<rparr>) =
      Returns (Inr (Some p'))"
    and invoked: "invoke sink (For_rpc_request REQUEST_TTL) (Some p) s =
      (Inr (Some \<lparr>upayload_data = upayload_data p', upayload_format = fm'\<rparr>), s1)"
  shows "hello_client_round P oc invoke sink (of_nat i, s) = Returns (hello_answer i, of_nat (Suc i), s1)"
proof -
  have "unat (of_nat i :: u32) = i" using assms(2) by (simp add: unat_of_nat)
  then have i: "(of_nat i :: u32) \<noteq> 0x7FFFFFFF" using assms(2) by auto
  have "pack_response P (hello_answer i) = Some p'"
    using served protobuf_unpacks(1) [OF assms(1) packed]
    by (simp add: handle_request_def split: option.splits)
  from protobuf_unpacks(2) [OF assms(1) this] i show ?thesis
    using assms(2) packed invoked by (simp add: hello_client_round_def display_of_nat)
qed

text \<open>With a service that answers every request, the client prints one answer after the other, until its counter ends.\<close>

lemma hello_client_rounds_answered:
  assumes "protobuf_laws P" "\<And>i. pack_request P \<lparr>request_name = ''me_client@i='' @ decimal i\<rparr> \<noteq> None"
    and "\<And>p s. \<exists>p' fm. handle_request P rid attrs (Some \<lparr>upayload_data = upayload_data p, upayload_format = fm\<rparr>) =
        Returns (Inr (Some p')) \<and>
      invoke sink (For_rpc_request REQUEST_TTL) (Some p) s =
        (Inr (Some \<lparr>upayload_data = upayload_data p', upayload_format = fm\<rparr>), s)"
  shows "i + n < 2 ^ 31 \<Longrightarrow> hello_client_rounds P oc invoke sink n (of_nat i, s) =
    Returns (map hello_answer [i..<i + n], of_nat (i + n), s)"
proof (induction n arbitrary: i)
  case (Suc n)
  obtain p where p: "pack_request P \<lparr>request_name = ''me_client@i='' @ decimal i\<rparr> = Some p" using assms(2) by blast
  from assms(3) [of p s] obtain p' fm where
    "handle_request P rid attrs (Some \<lparr>upayload_data = upayload_data p, upayload_format = fm\<rparr>) = Returns (Inr (Some p'))"
    "invoke sink (For_rpc_request REQUEST_TTL) (Some p) s =
      (Inr (Some \<lparr>upayload_data = upayload_data p', upayload_format = fm\<rparr>), s)" by blast
  from hello_client_round_answered [where oc = oc and invoke = invoke and sink = sink and s = s, OF assms(1) _ p this] Suc.prems
  have "hello_client_round P oc invoke sink (of_nat i, s) = Returns (hello_answer i, of_nat (Suc i), s)" by simp
  then show ?case using Suc.IH [of "Suc i"] Suc.prems by (simp add: upt_conv_Cons del: of_nat_Suc upt_Suc)
qed simp

text \<open>Concrete protobuf functions, and the messages of a first call.\<close>

abbreviation bytes_of :: "string \<Rightarrow> u8 list" where
  "bytes_of \<equiv> map (\<lambda>c. of_nat (of_char c))"

abbreviation text_of :: "u8 list \<Rightarrow> string" where
  "text_of \<equiv> map (\<lambda>b. char_of (unat b))"


lemma char_of_byte: "char_of (unat (of_nat (of_char c) :: u8)) = c"
proof -
  have "unat (of_nat (of_char c) :: u8) = of_char c" by (simp add: unat_of_nat nat_of_char_less_256)
  then show ?thesis by simp
qed

lemma text_of_bytes: "text_of (bytes_of s) = s"
  by (simp add: comp_def char_of_byte)


section \<open>Properties\<close>







end
