(* ===== verification/Copy_Dir.thy ===== *)
theory Copy_Dir
  imports File_System
begin

text \<open>
  What \<^verbatim>\<open>copy_dir_all\<close> of \<^verbatim>\<open>vsomeip-sys/build.rs\<close> does: the destination becomes the source laid over what
  was there, nothing else changes, and nothing goes wrong unless a file is in the way of a directory
  or a directory in the way of a file.
\<close>

section \<open>Definitions\<close>

abbreviation apart :: "path \<Rightarrow> path \<Rightarrow> bool" where
  "apart p q \<equiv> \<not> prefix p q \<and> \<not> prefix q p"

definition laid_over :: "node \<Rightarrow> path \<Rightarrow> path \<Rightarrow> path \<Rightarrow> kind option" where
  "laid_over fs src dst rel =
     (case kind_at fs (src @ rel) of Some k \<Rightarrow> Some k | None \<Rightarrow> kind_at fs (dst @ rel))"

definition no_clash :: "node \<Rightarrow> path \<Rightarrow> path \<Rightarrow> bool" where
  "no_clash fs src dst \<longleftrightarrow> (\<forall>rel k k'. kind_at fs (src @ rel) = Some k \<and> kind_at fs (dst @ rel) = Some k' \<longrightarrow>
     (k = Is_dir \<longleftrightarrow> k' = Is_dir))"

section \<open>The effect of a copy\<close>

lemma apart_append: "apart p q \<Longrightarrow> \<not> prefix (p @ r) q" "apart p q \<Longrightarrow> \<not> prefix q (p @ r)"
  by (meson append_prefixD, metis prefix_append prefix_order.eq_refl append_prefixD prefix_same_cases prefixI)

lemma apart_snoc: "apart p q \<Longrightarrow> apart (p @ [n]) (q @ [n])"
  using apart_append(2) [of p q "[n]"] apart_append(2) [of q p "[n]"] by (meson append_prefixD)

lemma create_dir_all_kind:
  "create_dir_all p fs = (Inr u, fs') \<Longrightarrow> kind_at fs' q = (if prefix q p then Some Is_dir else kind_at fs q)"
  by (auto simp: create_dir_all_def make_dirs_kind split: option.splits)

lemma lookup_append:
  "lookup (p @ r) fs = (case lookup p fs of None \<Rightarrow> None | Some nd \<Rightarrow> lookup r nd)"
  by (induction p fs rule: lookup.induct) (auto split: option.split)

lemma read_dir_kind:
  assumes "read_dir p fs = Inr ns"
  shows "kind_at fs p = Some Is_dir" "n \<in> set ns \<longleftrightarrow> kind_at fs (p @ [n]) \<noteq> None"
proof -
  obtain es where es: "lookup p fs = Some (Dir es)" "ns = map fst es"
    using assms by (auto simp: read_dir_def split: option.splits node.splits)
  then show "kind_at fs p = Some Is_dir" by (simp add: kind_at_def)
  have "n \<in> set ns \<longleftrightarrow> map_of es n \<noteq> None" by (simp add: es map_of_eq_None_iff)
  then show "n \<in> set ns \<longleftrightarrow> kind_at fs (p @ [n]) \<noteq> None"
    by (simp add: kind_at_def lookup_append es split: option.split)
qed

lemma copy_file_kind:
  "copy_file p q fs = (Inr u, fs') \<Longrightarrow> p \<noteq> q \<Longrightarrow>
   \<exists>c. lookup p fs = Some (File c) \<and> kind_at fs' r = (if r = q then Some (Is_file c) else kind_at fs r)"
  by (auto simp: copy_file_def read_file_def create_file_def put_file_kind
      split: option.splits node.splits sum.splits)

lemma kind_at_none_below:
  "kind_at fs p = None \<Longrightarrow> kind_at fs (p @ r) = None"
  by (induction p fs rule: lookup.induct) (auto split: option.splits)

lemma kind_at_above:
  "kind_at fs (p @ n # r) \<noteq> None \<Longrightarrow> kind_at fs p = Some Is_dir"
proof (induction p fs rule: lookup.induct)
  case (1 nd)
  then show ?case by (cases nd) auto
qed (auto split: option.splits)

lemma dir_above: "kind_at fs p = Some Is_dir \<Longrightarrow> prefix q p \<Longrightarrow> kind_at fs q = Some Is_dir"
  by (metis append_Nil2 kind_at_above neq_Nil_conv option.distinct(1) prefixE)

lemma file_has_no_entries: "kind_at fs p = Some (Is_file c) \<Longrightarrow> kind_at fs (p @ n # r) = None"
  using kind_at_above by fastforce

text \<open>One entry has been copied.\<close>

definition entry_done :: "node \<Rightarrow> node \<Rightarrow> path \<Rightarrow> path \<Rightarrow> string \<Rightarrow> bool" where
  "entry_done fs fs1 src dst n \<longleftrightarrow>
     (\<forall>r. kind_at fs1 (dst @ n # r) = laid_over fs src dst (n # r)) \<and>
     (\<forall>q. \<not> prefix (dst @ [n]) q \<longrightarrow> kind_at fs1 q = kind_at fs q)"

lemma entry_done_dir:
  assumes "\<And>rel q. kind_at fs1 ((dst @ [n]) @ rel) = laid_over fs (src @ [n]) (dst @ [n]) rel \<and>
      (\<not> prefix (dst @ [n]) q \<longrightarrow> kind_at fs1 q = (if prefix q (dst @ [n]) then Some Is_dir else kind_at fs q))"
    and "kind_at fs dst = Some Is_dir"
  shows "entry_done fs fs1 src dst n"
  unfolding entry_done_def
proof (intro conjI allI impI)
  show "kind_at fs1 (dst @ n # r) = laid_over fs src dst (n # r)" for r
    using assms(1) [of r] by (simp add: laid_over_def split: option.split)
  show "kind_at fs1 q = kind_at fs q" if "\<not> prefix (dst @ [n]) q" for q
    using assms(1) [of _ q] that dir_above [OF assms(2), of q] by (auto simp: prefix_snoc)
qed

lemma entry_done_file:
  assumes copy: "copy_file (src @ [n]) (dst @ [n]) fs = (Inr (), fs1)" and ap: "apart src dst"
  shows "entry_done fs fs1 src dst n"
  unfolding entry_done_def
proof (intro conjI allI impI)
  have "src @ [n] \<noteq> dst @ [n]" using ap by auto
  note new = copy_file_kind [OF copy this]
  then obtain c where c: "lookup (src @ [n]) fs = Some (File c)" by blast
  then have is_file: "kind_at fs (src @ [n]) = Some (Is_file c)" by (simp add: kind_at_def)
  show "kind_at fs1 (dst @ n # r) = laid_over fs src dst (n # r)" for r
    using new [of "dst @ n # r"] c is_file file_has_no_entries [OF is_file]
    by (cases r) (auto simp: laid_over_def)
  show "kind_at fs1 q = kind_at fs q" if "\<not> prefix (dst @ [n]) q" for q
    using new [of q] that by auto
qed

lemma entry_doneD:
  assumes "entry_done fs fs1 src dst n" "apart src dst"
  shows "kind_at fs1 (dst @ n # r) = laid_over fs src dst (n # r)"
    "kind_at fs1 (src @ r) = kind_at fs (src @ r)"
    "m \<noteq> n \<Longrightarrow> kind_at fs1 (dst @ m # r) = kind_at fs (dst @ m # r)"
    "\<not> prefix dst q \<Longrightarrow> kind_at fs1 q = kind_at fs q"
    "kind_at fs1 dst = kind_at fs dst"
proof -
  note d = assms(1) [unfolded entry_done_def]
  show "kind_at fs1 (dst @ n # r) = laid_over fs src dst (n # r)" using d by blast
  show "kind_at fs1 (src @ r) = kind_at fs (src @ r)"
    using d assms(2) by (meson append_prefixD apart_append(2))
  show "m \<noteq> n \<Longrightarrow> kind_at fs1 (dst @ m # r) = kind_at fs (dst @ m # r)"
    "kind_at fs1 dst = kind_at fs dst"
    using d by (simp_all add: prefix_def)
  show "\<not> prefix dst q \<Longrightarrow> kind_at fs1 q = kind_at fs q" using d by (meson append_prefixD)
qed

lemma copy_effect:
  "copy_dir_all fuel src dst fs = Some (Inr (), fs') \<Longrightarrow> apart src dst \<Longrightarrow>
     kind_at fs' (dst @ rel) = laid_over fs src dst rel \<and>
     (\<not> prefix dst q \<longrightarrow> kind_at fs' q = (if prefix q dst then Some Is_dir else kind_at fs q))"
  "copy_entries fuel src dst ns fs = Some (Inr (), fs') \<Longrightarrow> apart src dst \<Longrightarrow> kind_at fs dst = Some Is_dir \<Longrightarrow>
     kind_at fs' (dst @ rel) = (if rel \<noteq> [] \<and> hd rel \<in> set ns then laid_over fs src dst rel else kind_at fs (dst @ rel)) \<and>
     (\<not> prefix dst q \<longrightarrow> kind_at fs' q = kind_at fs q)"
proof (induction fuel src dst fs and fuel src dst ns fs arbitrary: fs' rel q and fs' rel q
    rule: copy_dir_all_copy_entries.induct)
  case (2 fuel src dst fs)
  obtain fs1 where fs1: "create_dir_all dst fs = (Inr (), fs1)"
    using 2(2) by (auto split: prod.splits sum.splits)
  obtain ns where ns: "read_dir src fs1 = Inr ns" "copy_entries fuel src dst ns fs1 = Some (Inr (), fs')"
    using 2(2) fs1 by (auto split: sum.splits)
  note kinds = create_dir_all_kind [OF fs1]
  have src: "kind_at fs1 (src @ r) = kind_at fs (src @ r)" for r using kinds apart_append [OF 2(3)] by simp
  have dst: "kind_at fs1 (dst @ r) = (if r = [] then Some Is_dir else kind_at fs (dst @ r))" for r
    using kinds by (auto dest: prefix_length_le)
  note IH = 2(1) [OF fs1 [symmetric] refl ns(1) ns(2) 2(3) dst [of "[]", simplified]]
  have dir: "kind_at fs src = Some Is_dir" using read_dir_kind(1) [OF ns(1)] src [of "[]"] by simp
  have none: "kind_at fs (src @ n # r) = None" if "n \<notin> set ns" for n r
  proof -
    have "kind_at fs1 (src @ [n]) = None" using read_dir_kind(2) [OF ns(1)] that by blast
    then have "kind_at fs (src @ [n]) = None" by (simp add: src)
    then show ?thesis by (metis append.assoc append_Cons append_Nil kind_at_none_below)
  qed
  show ?case
  proof (intro conjI impI)
    show "kind_at fs' (dst @ rel) = laid_over fs src dst rel"
      using IH [of rel] dst [of rel] src none [of "hd rel" "tl rel"] dir
      by (cases rel) (auto simp: laid_over_def split: option.split)
    show "kind_at fs' q = (if prefix q dst then Some Is_dir else kind_at fs q)" if "\<not> prefix dst q"
      using IH [of _ q] that kinds by simp
  qed
next
  case (4 fuel src dst n ns fs)
  obtain fs1 where step: "entry_done fs fs1 src dst n"
    and IH: "\<And>rel q. kind_at fs1 dst = Some Is_dir \<Longrightarrow>
      kind_at fs' (dst @ rel) = (if rel \<noteq> [] \<and> hd rel \<in> set ns then laid_over fs1 src dst rel
        else kind_at fs1 (dst @ rel)) \<and>
      (\<not> prefix dst q \<longrightarrow> kind_at fs' q = kind_at fs1 q)"
  proof (cases "lookup (src @ [n]) fs")
    case None
    with 4(4) show ?thesis by simp
  next
    case (Some nd)
    show ?thesis
    proof (cases nd)
      case (Dir es)
      with Some 4(4) obtain fs1 where fs1: "copy_dir_all fuel (src @ [n]) (dst @ [n]) fs = Some (Inr (), fs1)"
        "copy_entries fuel src dst ns fs1 = Some (Inr (), fs')"
        by (auto split: option.splits prod.splits sum.splits)
      from entry_done_dir [OF 4(2) [OF Some Dir fs1(1) apart_snoc [OF 4(5)]] 4(6)]
      show ?thesis by (rule that) (use 4(3) [OF Some Dir fs1(1) refl refl fs1(2) 4(5)] in blast)
    next
      case (File c)
      with Some 4(4) obtain fs1 where fs1: "copy_file (src @ [n]) (dst @ [n]) fs = (Inr (), fs1)"
        "copy_entries fuel src dst ns fs1 = Some (Inr (), fs')"
        by (auto split: prod.splits sum.splits)
      from entry_done_file [OF fs1(1) 4(5)]
      show ?thesis by (rule that) (use 4(1) [OF Some File fs1(1) [symmetric] refl fs1(2) 4(5)] in blast)
    qed
  qed
  note d = entry_doneD [OF step 4(5)]
  then have dir: "kind_at fs1 dst = Some Is_dir" using 4(6) by simp
  show ?case
  proof (intro conjI impI)
    show "kind_at fs' (dst @ rel) = (if rel \<noteq> [] \<and> hd rel \<in> set (n # ns) then laid_over fs src dst rel
        else kind_at fs (dst @ rel))"
      using IH [OF dir, of rel] dir 4(6) d(1-3)
      by (cases rel; cases "hd rel = n") (auto simp: laid_over_def split: option.splits)
    show "kind_at fs' q = kind_at fs q" if "\<not> prefix dst q"
      using IH [OF dir, of _ q] d(4) [of q] that by metis
  qed
qed simp_all

section \<open>The copy succeeds\<close>

lemma no_clash_snoc: "no_clash fs src dst \<Longrightarrow> no_clash fs (src @ [n]) (dst @ [n])"
  by (simp add: no_clash_def)

lemma copy_file_ok:
  assumes "kind_at fs (src @ [n]) = Some (Is_file c)" "kind_at fs dst = Some Is_dir" "no_clash fs src dst"
  shows "\<exists>fs1. copy_file (src @ [n]) (dst @ [n]) fs = (Inr (), fs1)"
proof -
  have is_file: "lookup (src @ [n]) fs = Some (File c)" using assms(1) by (auto simp: kind_at_def)
  have "kind_at fs (dst @ [n]) \<noteq> Some Is_dir" using assms(1,3) unfolding no_clash_def by force
  then have "\<exists>fs'. put_file (dst @ [n]) d fs = Some fs'" for d
    using assms(2) by (intro put_file_ok) simp_all
  from this [of "if src @ [n] = dst @ [n] then [] else c"] is_file show ?thesis
    by (auto simp: copy_file_def read_file_def create_file_def)
qed

lemma copy_succeeds:
  "apart src dst \<Longrightarrow> no_clash fs src dst \<Longrightarrow> kind_at fs src = Some Is_dir \<Longrightarrow>
     (\<And>q c. prefix q dst \<Longrightarrow> kind_at fs q \<noteq> Some (Is_file c)) \<Longrightarrow>
     (\<And>rel. kind_at fs (src @ rel) \<noteq> None \<Longrightarrow> length rel < fuel) \<Longrightarrow>
     \<exists>fs'. copy_dir_all fuel src dst fs = Some (Inr (), fs')"
  "apart src dst \<Longrightarrow> no_clash fs src dst \<Longrightarrow> kind_at fs dst = Some Is_dir \<Longrightarrow>
     (\<And>n. n \<in> set ns \<Longrightarrow> kind_at fs (src @ [n]) \<noteq> None) \<Longrightarrow>
     (\<And>n rel. n \<in> set ns \<Longrightarrow> kind_at fs (src @ n # rel) \<noteq> None \<Longrightarrow> length rel < fuel) \<Longrightarrow>
     \<exists>fs'. copy_entries fuel src dst ns fs = Some (Inr (), fs')"
proof (induction fuel src dst fs and fuel src dst ns fs rule: copy_dir_all_copy_entries.induct)
  case (1 src dst fs)
  from 1(5) [of "[]"] 1(3) show ?case by simp
next
  case (2 fuel src dst fs)
  obtain fs1 where fs1: "create_dir_all dst fs = (Inr (), fs1)"
    using make_dirs_ok [of dst fs] 2(5) by (auto simp: create_dir_all_def)
  note kinds = create_dir_all_kind [OF fs1]
  have src: "kind_at fs1 (src @ r) = kind_at fs (src @ r)" for r using kinds apart_append [OF 2(2)] by simp
  have dst: "kind_at fs1 (dst @ r) = (if r = [] then Some Is_dir else kind_at fs (dst @ r))" for r
    using kinds by (auto dest: prefix_length_le)
  have "kind_at fs1 src = Some Is_dir" using src [of "[]"] 2(4) by simp
  then obtain ns where ns: "read_dir src fs1 = Inr ns" by (auto simp: read_dir_def kind_at_def)
  have "\<exists>fs'. copy_entries fuel src dst ns fs1 = Some (Inr (), fs')"
  proof (rule 2(1) [OF fs1 [symmetric] refl ns 2(2)])
    show "no_clash fs1 src dst" using 2(3,4) unfolding no_clash_def src dst by auto
    show "kind_at fs1 dst = Some Is_dir" using dst [of "[]"] by simp
    show "kind_at fs1 (src @ [n]) \<noteq> None" if "n \<in> set ns" for n using read_dir_kind(2) [OF ns] that by blast
    show "length rel < fuel" if "kind_at fs1 (src @ n # rel) \<noteq> None" for n rel
      using 2(6) [of "n # rel"] that src by simp
  qed
  then show ?case by (simp add: fs1 ns)
next
  case (4 fuel src dst n ns fs)
  have rest: "\<exists>fs'. copy_entries fuel src dst ns fs1 = Some (Inr (), fs')"
    if step: "entry_done fs fs1 src dst n"
      and IH: "apart src dst \<Longrightarrow> no_clash fs1 src dst \<Longrightarrow> kind_at fs1 dst = Some Is_dir \<Longrightarrow>
        (\<And>m. m \<in> set ns \<Longrightarrow> kind_at fs1 (src @ [m]) \<noteq> None) \<Longrightarrow>
        (\<And>m rel. m \<in> set ns \<Longrightarrow> kind_at fs1 (src @ m # rel) \<noteq> None \<Longrightarrow> length rel < fuel) \<Longrightarrow>
        \<exists>fs'. copy_entries fuel src dst ns fs1 = Some (Inr (), fs')" for fs1
  proof (rule IH [OF 4(4)])
    note d = entry_doneD [OF step 4(4)]
    show "no_clash fs1 src dst"
      unfolding no_clash_def
    proof (intro allI impI)
      fix rel k k' assume k: "kind_at fs1 (src @ rel) = Some k \<and> kind_at fs1 (dst @ rel) = Some k'"
      then have src: "kind_at fs (src @ rel) = Some k" using d(2) by simp
      have "kind_at fs1 (dst @ rel) \<in> {kind_at fs (dst @ rel), Some k}"
        using src d(1,3,5) by (cases rel; cases "hd rel = n") (auto simp: laid_over_def)
      with k src 4(5) show "(k = Is_dir) = (k' = Is_dir)" unfolding no_clash_def by fastforce
    qed
    show "kind_at fs1 dst = Some Is_dir" using d(5) 4(6) by simp
    show "kind_at fs1 (src @ [m]) \<noteq> None" if "m \<in> set ns" for m using d(2) 4(7) that by simp
    show "length rel < fuel" if "m \<in> set ns" "kind_at fs1 (src @ m # rel) \<noteq> None" for m rel
      using 4(8) [of m rel] d(2) that by simp
  qed
  obtain nd where nd: "lookup (src @ [n]) fs = Some nd" using 4(7) [of n] by (auto simp: kind_at_def)
  show ?case
  proof (cases nd)
    case (Dir es)
    have dir: "kind_at fs (src @ [n]) = Some Is_dir" using nd Dir by (simp add: kind_at_def)
    have "\<exists>fs1. copy_dir_all fuel (src @ [n]) (dst @ [n]) fs = Some (Inr (), fs1)"
    proof (rule 4(2) [OF nd Dir apart_snoc [OF 4(4)] no_clash_snoc [OF 4(5)] dir])
      show "kind_at fs q \<noteq> Some (Is_file c)" if "prefix q (dst @ [n])" for q c
      proof -
        have "kind_at fs (dst @ [n]) \<noteq> Some (Is_file c)"
          using 4(5) dir unfolding no_clash_def by (metis kind.distinct(1))
        moreover have "q = dst @ [n] \<or> kind_at fs q = Some Is_dir"
          using that dir_above [OF 4(6), of q] by (simp only: prefix_snoc) blast
        ultimately show ?thesis by (elim disjE) simp_all
      qed
      show "length rel < fuel" if "kind_at fs ((src @ [n]) @ rel) \<noteq> None" for rel
        using 4(8) [of n rel] that by simp
    qed
    then obtain fs1 where fs1: "copy_dir_all fuel (src @ [n]) (dst @ [n]) fs = Some (Inr (), fs1)" by blast
    have "entry_done fs fs1 src dst n"
      by (rule entry_done_dir [OF copy_effect(1) [OF fs1 apart_snoc [OF 4(4)]] 4(6)])
    from rest [OF this 4(3) [OF nd Dir fs1 refl refl]] obtain fs' where
      "copy_entries fuel src dst ns fs1 = Some (Inr (), fs')" by blast
    then have "copy_entries fuel src dst (n # ns) fs = Some (Inr (), fs')"
      unfolding copy_entries.simps nd option.case Dir node.case fs1 prod.case sum.case .
    then show ?thesis ..
  next
    case (File c)
    then have "kind_at fs (src @ [n]) = Some (Is_file c)" using nd by (simp add: kind_at_def)
    from copy_file_ok [OF this 4(6,5)] obtain fs1 where
      fs1: "copy_file (src @ [n]) (dst @ [n]) fs = (Inr (), fs1)" by blast
    from rest [OF entry_done_file [OF fs1 4(4)] 4(1) [OF nd File fs1 [symmetric] refl]] obtain fs' where
      "copy_entries fuel src dst ns fs1 = Some (Inr (), fs')" by blast
    then have "copy_entries fuel src dst (n # ns) fs = Some (Inr (), fs')"
      unfolding copy_entries.simps nd option.case File node.case fs1 prod.case sum.case .
    then show ?thesis ..
  qed
qed simp_all

section \<open>Properties\<close>

text \<open>
  C21. \<^verbatim>\<open>copy_dir_all\<close> copies a directory. When source and destination lie apart, no file is in the way of
  a directory or a directory in the way of a file, and the fuel exceeds the depth of the source,
  it succeeds; then the destination is the source laid over what was there before, the directories
  above it exist, and everything else, the source included, is as it was.
\<close>

theorem copy_dir_all_copies:
  assumes "apart src dst" "no_clash fs src dst" "kind_at fs src = Some Is_dir"
    and "\<And>q c. prefix q dst \<Longrightarrow> kind_at fs q \<noteq> Some (Is_file c)"
    and "\<And>rel. kind_at fs (src @ rel) \<noteq> None \<Longrightarrow> length rel < fuel"
  shows "\<exists>fs'. copy_dir_all fuel src dst fs = Some (Inr (), fs') \<and>
    (\<forall>rel. kind_at fs' (dst @ rel) = laid_over fs src dst rel) \<and>
    (\<forall>q. \<not> prefix dst q \<longrightarrow> kind_at fs' q = (if prefix q dst then Some Is_dir else kind_at fs q))"
proof -
  from copy_succeeds(1) [OF assms] obtain fs' where fs': "copy_dir_all fuel src dst fs = Some (Inr (), fs')"
    by blast
  with copy_effect(1) [OF fs' assms(1)] show ?thesis by blast
qed

text \<open>The sources are copied over what an earlier build has patched.\<close>

definition example_files :: node where
  "example_files = Dir [(''crate'', Dir [(''vsomeip'', Dir [(''a.cpp'', File ''new''), (''lib'', Dir [(''b.cpp'', File ''b'')])])]),
     (''out'', Dir [(''build'', Dir [(''a.cpp'', File ''patched''), (''o'', File ''obj'')])])]"

theorem copy_dir_all_copies_witness:
  "\<exists>fs'. copy_dir_all 3 [''crate'', ''vsomeip''] [''out'', ''build''] example_files = Some (Inr (), fs') \<and>
    kind_at fs' [''out'', ''build'', ''a.cpp''] = Some (Is_file ''new'') \<and>
    kind_at fs' [''out'', ''build'', ''lib'', ''b.cpp''] = Some (Is_file ''b'') \<and>
    kind_at fs' [''out'', ''build'', ''o''] = Some (Is_file ''obj'')"
proof -
  let ?s = "[''crate'', ''vsomeip'']" and ?d = "[''out'', ''build'']"
  have src: "kind_at example_files (?s @ r) = (case r of [] \<Rightarrow> Some Is_dir | n # q \<Rightarrow>
      if n = ''a.cpp'' then (if q = [] then Some (Is_file ''new'') else None)
      else if n = ''lib'' then (case q of [] \<Rightarrow> Some Is_dir | m # q' \<Rightarrow>
        if m = ''b.cpp'' \<and> q' = [] then Some (Is_file ''b'') else None) else None)" for r
    by (cases r; cases "tl r"; cases "tl (tl r)") (auto simp: example_files_def)
  have dst: "kind_at example_files (?d @ r) = (case r of [] \<Rightarrow> Some Is_dir | n # q \<Rightarrow>
      if n = ''a.cpp'' \<and> q = [] then Some (Is_file ''patched'')
      else if n = ''o'' \<and> q = [] then Some (Is_file ''obj'') else None)" for r
    by (cases r; cases "tl r") (auto simp: example_files_def)
  have 1: "no_clash example_files ?s ?d"
    unfolding no_clash_def src dst by (auto split: list.splits if_splits)
  have 2: "kind_at example_files ?s = Some Is_dir" using src [of "[]"] by simp
  have 3: "kind_at example_files q \<noteq> Some (Is_file c)" if "prefix q ?d" for q c
    using that by (auto simp: prefix_Cons example_files_def)
  have 4: "length r < 3" if "kind_at example_files (?s @ r) \<noteq> None" for r
    using that unfolding src by (auto split: list.splits if_splits)
  from copy_dir_all_copies [OF _ 1 2 3 4] obtain fs' where
    fs': "copy_dir_all 3 ?s ?d example_files = Some (Inr (), fs')"
      "\<And>rel. kind_at fs' (?d @ rel) = laid_over example_files ?s ?d rel" by auto
  from fs'(2) [of "[''a.cpp'']"] fs'(2) [of "[''lib'', ''b.cpp'']"] fs'(2) [of "[''o'']"] fs'(1) show ?thesis
    by (simp add: laid_over_def example_files_def)
qed

end
