(* ===== verification/Build_Script.thy ===== *)
theory Build_Script
  imports Copy_Dir
begin

text \<open>
  \<^verbatim>\<open>vsomeip-sys/build.rs\<close>: with the feature \<^verbatim>\<open>bundled\<close> the script copies, patches, builds and installs
  vsomeip; in any case it generates the bindings and tells cargo what to link.

  The tools it calls are other programs and crates: git, patch, cmake, autocxx, cxx and the C++
  compiler. What they leave in the file system and whether they can be run is the
  parameter \<open>T\<close>; what they are told is recorded in order (\<open>build_event\<close>). Environment variables are a
  map; an \<^verbatim>\<open>expect\<close> that fails is a panic. Debug output is not modelled.
\<close>

section \<open>Definitions\<close>

type_synonym env_vars = "string \<rightharpoonup> string"

datatype build_event =
    Run_git "string list"
  | Run_patch "string list"
  | Cmake_build string "(string \<times> string) list" string
  | Autocxx_build string "string list" "string list"
  | Cxx_bridge string "string list" "string list"
  | Compile "string list" string
  | Cargo_link_lib string
  | Cargo_link_search string
  | Cargo_rerun_if_changed string

text \<open>
  What the tools do to the file system: \<^verbatim>\<open>git submodule update\<close> and \<^verbatim>\<open>patch\<close> may fail without
  consequences, \<^verbatim>\<open>patch\<close> must be there to be run, and cmake, autocxx and the compiler end the script
  when they fail.
\<close>

record build_tools =
  tool_git :: "node \<Rightarrow> node"
  tool_patch :: "node \<Rightarrow> node option"
  tool_cmake :: "node \<Rightarrow> node option"
  tool_autocxx :: "node \<Rightarrow> node option"
  tool_compile :: "string \<Rightarrow> node \<Rightarrow> node option"

type_synonym build_state = "node \<times> build_event list"




text \<open>
  \<^verbatim>\<open>build::build\<close>; \<open>fuel\<close> bounds the depth of the sources, see \<open>Copy_Dir\<close>, and a copy that goes deeper
  counts as a panic.
\<close>

definition build :: "build_tools \<Rightarrow> nat \<Rightarrow> env_vars \<Rightarrow> build_state \<Rightarrow> build_state outcome" where
  "build T fuel env s0 =
     (case env ''CARGO_MANIFEST_DIR'' of
        None \<Rightarrow> Panics
      | Some crate_root \<Rightarrow>
          let patch_folder = path_join crate_root ''patches'';
              submodule_folder = ''vsomeip'';
              submodule_git = path_join (path_join crate_root submodule_folder) ''.git'';
              (fs1, log1) =
                (if \<not> path_exists (components submodule_git) (fst s0)
                 then (tool_git T (fst s0),
                       snd s0 @ [Run_git [''-C'', submodule_folder, ''submodule'', ''update'', ''--init'']])
                 else s0)
          in case env ''OUT_DIR'' of
               None \<Rightarrow> Panics
             | Some out_dir \<Rightarrow>
                 let submodule_to_patch = path_join crate_root submodule_folder;
                     vsomeip_build_dir = path_join (path_join out_dir ''vsomeip'') ''vsomeip_build''
                 in case copy_dir_all fuel (components submodule_to_patch) (components vsomeip_build_dir) fs1 of
                      None \<Rightarrow> Panics
                    | Some (copy_res, fs2) \<Rightarrow>
                        let disable_test_patch = path_join patch_folder ''disable_tests.patch'';
                            log2 = log1 @ [Run_patch [''-d'', vsomeip_build_dir, ''-p1'', ''-i'', disable_test_patch]]
                        in (case tool_patch T fs2 of
                              None \<Rightarrow> Panics
                            | Some fs3 \<Rightarrow>
                                let vsomeip_install_path_default =
                                      path_join (path_join out_dir ''vsomeip'') ''vsomeip-install'';
                                    install_path = (case env ''VSOMEIP_INSTALL_PATH'' of
                                      Some p \<Rightarrow> p | None \<Rightarrow> vsomeip_install_path_default);
                                    log3 = log2 @ [Cmake_build vsomeip_build_dir
                                      [(''CMAKE_INSTALL_PREFIX'', install_path),
                                       (''ENABLE_SIGNAL_HANDLING'', ''1'')] ''install'']
                                in (case tool_cmake T fs3 of None \<Rightarrow> Panics | Some fs4 \<Rightarrow> Returns (fs4, log3))))"





section \<open>Lemmas\<close>







section \<open>Properties\<close>





text \<open>
  The result of copying the sources is only logged: when the submodule is missing and cannot be
  checked out, cmake is run all the same.
\<close>

theorem build_ignores_failed_copy:
  assumes "env ''CARGO_MANIFEST_DIR'' = Some root" "env ''OUT_DIR'' = Some out"
    and "path_exists (components (path_join (path_join root ''vsomeip'') ''.git'')) fs"
    and "copy_dir_all fuel (components (path_join root ''vsomeip''))
      (components (path_join (path_join out ''vsomeip'') ''vsomeip_build'')) fs = Some (Inl e, fs1)"
    and "tool_patch T fs1 = Some fs2" "tool_cmake T fs2 = Some fs3"
  shows "\<exists>log. build T fuel env (fs, []) = Returns (fs3, log) \<and> (\<exists>c \<in> set log. \<exists>d a. c = Cmake_build d a ''install'')"
  using assms by (simp add: build_def Let_def)

end
