(* ===== verification/Proto_Script.thy ===== *)
theory Proto_Script
  imports Copy_Dir
begin

text \<open>
  \<^verbatim>\<open>example-utils/hello-world-protos/build.rs\<close>: the script that downloads the protobuf definitions of the
  examples and has them compiled. The network (\<open>net_get\<close>) and the code generator
  (\<open>net_codegen\<close>, which ends the script when it fails) are parameters.
\<close>

section \<open>Definitions\<close>












section \<open>Lemmas\<close>









section \<open>Properties\<close>



end
